(* ===== verification/PD_Prelude.thy ===== *)
theory PD_Prelude
  imports "HOL-Library.Word" "HOL-Library.Monad_Syntax"
begin

unbundle bit_operations_syntax

text \<open>
  The shared vocabulary of the development: the fixed-width integers of the C sources, the
  memory model used by every routine that reads or writes through a pointer, C strings, and
  the lemma collections the component theories extend.

  \<^bold>\<open>Memory.\<close> A pointer argument the code compares with \<^verbatim>\<open>NULL\<close> is an \<open>option\<close>. The object
  behind a pointer is the list of its elements. Every read and write goes through \<open>rd\<close>,
  \<open>wr\<close>, \<open>put\<close> and \<open>mem_slice\<close>, which yield \<open>None\<close> on an access outside the object; a routine
  therefore returns \<open>None\<close> exactly when the C code would have undefined behaviour, and
  memory safety is the theorem that it returns \<open>Some\<close>.
\<close>

section \<open>Types\<close>

type_synonym u8 = "8 word"
type_synonym u16 = "16 word"
type_synonym u32 = "32 word"
type_synonym u64 = "64 word"

named_theorems mem_simps \<open>computation rules for reads and writes of memory objects\<close>
named_theorems be_simps \<open>computation rules for big-endian fields\<close>

section \<open>Memory objects\<close>

definition rd :: "'a list \<Rightarrow> nat \<Rightarrow> 'a option" where
  "rd xs i = (if i < length xs then Some (xs ! i) else None)"

definition wr :: "'a list \<Rightarrow> nat \<Rightarrow> 'a \<Rightarrow> 'a list option" where
  "wr xs i v = (if i < length xs then Some (xs[i := v]) else None)"

text \<open>\<open>put xs off ys\<close> is \<^verbatim>\<open>memcpy(&xs[off], ys, n)\<close> for a source of exactly \<open>n\<close> elements.\<close>

definition put :: "'a list \<Rightarrow> nat \<Rightarrow> 'a list \<Rightarrow> 'a list option" where
  "put xs off ys =
     (if off + length ys \<le> length xs
      then Some (take off xs @ ys @ drop (off + length ys) xs) else None)"

text \<open>\<open>mem_slice xs off n\<close> reads the \<open>n\<close> elements from \<open>xs[off]\<close> on.\<close>

definition mem_slice :: "'a list \<Rightarrow> nat \<Rightarrow> nat \<Rightarrow> 'a list option" where
  "mem_slice xs off n = (if off + n \<le> length xs then Some (take n (drop off xs)) else None)"

text \<open>\<^verbatim>\<open>memcpy(&dst[doff], &src[soff], n)\<close>.\<close>

definition memcpy :: "'a list \<Rightarrow> nat \<Rightarrow> 'a list \<Rightarrow> nat \<Rightarrow> nat \<Rightarrow> 'a list option" where
  "memcpy dst doff src soff n = do { xs \<leftarrow> mem_slice src soff n; put dst doff xs }"

lemma wr_put [mem_simps]: "wr xs i v = put xs i [v]"
  by (simp add: wr_def put_def upd_conv_take_nth_drop)

text \<open>
  Adjacent writes fuse into one, so that a routine that fills a record field by field becomes
  a single \<open>put\<close> of the whole record.
\<close>

lemma put_put_eq:
  assumes "off2 = off + length ys"
  shows "put xs off ys \<bind> (\<lambda>m. put m off2 zs) = put xs off (ys @ zs)"
  using assms by (auto simp: put_def add.commute add.left_commute)

lemma put_put [mem_simps]:
  "off2 = off + length ys \<Longrightarrow> put xs off ys \<bind> (\<lambda>m. put m off2 zs) = put xs off (ys @ zs)"
  by (rule put_put_eq)

lemma put_put_bind [mem_simps]:
  assumes "off2 = off + length ys"
  shows "put xs off ys \<bind> (\<lambda>m. put m off2 zs \<bind> k) = put xs off (ys @ zs) \<bind> k"
proof -
  have "put xs off ys \<bind> (\<lambda>m. put m off2 zs \<bind> k) = (put xs off ys \<bind> (\<lambda>m. put m off2 zs)) \<bind> k"
    by simp
  then show ?thesis by (simp only: put_put_eq [OF assms])
qed

lemma put_None: "put xs off ys = None \<longleftrightarrow> length xs < off + length ys"
  by (auto simp: put_def)

lemma put_Some: "off + length ys \<le> length xs \<Longrightarrow>
    put xs off ys = Some (take off xs @ ys @ drop (off + length ys) xs)"
  by (simp add: put_def)

lemma put_0: "length ys \<le> length xs \<Longrightarrow> put xs 0 ys = Some (ys @ drop (length ys) xs)"
  by (simp add: put_def)

lemma put_text:
  "length s < length xs \<Longrightarrow> put xs 0 (s @ [c]) = Some (s @ c # drop (length s + 1) xs)"
  by (simp add: put_def)

lemma length_put: "put xs off ys = Some zs \<Longrightarrow> length zs = length xs"
  by (auto simp: put_def split: if_splits)

lemma rd_Some [mem_simps]: "i < length xs \<Longrightarrow> rd xs i = Some (xs ! i)"
  by (simp add: rd_def)

lemma mem_slice_Some: "off + n \<le> length xs \<Longrightarrow> mem_slice xs off n = Some (take n (drop off xs))"
  by (simp add: mem_slice_def)

lemma mem_slice_0_all [simp]: "mem_slice xs 0 (length xs) = Some xs"
  by (simp add: mem_slice_def)

lemma mem_slice_append_left [simp]: "n = length xs \<Longrightarrow> mem_slice (xs @ ys) 0 n = Some xs"
  by (simp add: mem_slice_def)

lemma length_ge_Suc: "Suc n \<le> length xs \<longleftrightarrow> (\<exists>y ys. xs = y # ys \<and> n \<le> length ys)"
  by (cases xs) auto

lemma length_ge_12:
  assumes "12 \<le> length xs"
  obtains a b c d e f g h i j k l rest where "xs = a # b # c # d # e # f # g # h # i # j # k # l # rest"
  using assms that by (auto simp: length_ge_Suc numeral_eq_Suc)

text \<open>The object behind a pointer that may be absent: an absent one has no bytes.\<close>

definition the_default :: "'a \<Rightarrow> 'a option \<Rightarrow> 'a" where
  "the_default d x = (case x of None \<Rightarrow> d | Some y \<Rightarrow> y)"

lemma the_default_simps [simp]: "the_default d None = d" "the_default d (Some y) = y"
  by (simp_all add: the_default_def)

section \<open>C strings\<close>

text \<open>
  A C string is read from the memory behind its pointer: the bytes before the first NUL.
  Without a NUL in the object, \<^verbatim>\<open>strlen\<close> runs past its end.
\<close>

definition c_str :: "u8 list \<Rightarrow> u8 list" where
  "c_str m = takeWhile (\<lambda>c. c \<noteq> 0) m"

definition strlen :: "u8 list \<Rightarrow> nat option" where
  "strlen m = (if 0 \<in> set m then Some (length (c_str m)) else None)"

text \<open>A string literal of the source, without its terminator.\<close>

definition c_lit :: "string \<Rightarrow> u8 list" where
  "c_lit s = map of_char s"

lemma length_c_lit [simp]: "length (c_lit s) = length s"
  by (simp add: c_lit_def)

lemma c_str_terminated [simp]: "0 \<notin> set s \<Longrightarrow> c_str (s @ 0 # rest) = s"
  by (induction s) (auto simp: c_str_def)

lemma strlen_terminated [simp]: "0 \<notin> set s \<Longrightarrow> strlen (s @ 0 # rest) = Some (length s)"
  by (simp add: strlen_def)

lemma take_length_c_str [simp]: "take (length (c_str m)) m = c_str m"
  unfolding c_str_def by (rule takeWhile_eq_take [symmetric])

lemma c_str_no_nul [simp]: "0 \<notin> set (c_str m)"
  by (auto simp: c_str_def dest: set_takeWhileD)

lemma c_str_decomp:
  assumes "0 \<in> set m"
  obtains rest where "m = c_str m @ 0 # rest"
proof -
  have "dropWhile (\<lambda>c. c \<noteq> 0) m \<noteq> []"
    using assms by simp
  moreover have "hd (dropWhile (\<lambda>c. c \<noteq> 0) m) = 0"
    using assms by (metis (mono_tags, lifting) calculation hd_dropWhile)
  ultimately have "m = c_str m @ 0 # tl (dropWhile (\<lambda>c. c \<noteq> 0) m)"
    unfolding c_str_def by (metis list.collapse takeWhile_dropWhile_id)
  then show ?thesis by (rule that)
qed

lemma length_c_str_less: "0 \<in> set m \<Longrightarrow> length (c_str m) < length m"
  by (erule c_str_decomp) (metis add_Suc_right length_Cons length_append less_add_Suc1)

section \<open>Short-circuit conditions\<close>

text \<open>The C operators evaluate their right side, and read memory for it, only if they need it.\<close>

definition c_or :: "bool option \<Rightarrow> bool option \<Rightarrow> bool option" where
  "c_or a b = do { x \<leftarrow> a; if x then Some True else b }"

definition c_and :: "bool option \<Rightarrow> bool option \<Rightarrow> bool option" where
  "c_and a b = do { x \<leftarrow> a; if x then b else Some False }"

definition rd_ne :: "'a list \<Rightarrow> nat \<Rightarrow> 'a \<Rightarrow> bool option" where
  "rd_ne xs i v = do { x \<leftarrow> rd xs i; Some (x \<noteq> v) }"

lemma c_or_Some [simp]: "c_or (Some a) (Some b) = Some (a \<or> b)"
  by (simp add: c_or_def)

lemma c_and_Some [simp]: "c_and (Some a) (Some b) = Some (a \<and> b)"
  by (simp add: c_and_def)

lemma c_or_c_and_const [simp]:
  "c_or (Some True) b = Some True" "c_or (Some False) b = b"
  "c_and (Some True) b = b" "c_and (Some False) b = Some False"
  by (simp_all add: c_or_def c_and_def)

lemma rd_ne_Some [mem_simps]: "i < length xs \<Longrightarrow> rd_ne xs i v = Some (xs ! i \<noteq> v)"
  by (simp add: rd_ne_def rd_def)

section \<open>Bytes of a word\<close>

lemma bit_byte_of:
  fixes v :: "'a::len word"
  shows "bit (push_bit k (ucast (ucast (drop_bit k v) :: u8)) :: 'a word) n \<longleftrightarrow>
    k \<le> n \<and> n < k + 8 \<and> bit v n"
  by (auto simp: bit_simps less_diff_conv2 dest: bit_imp_le_length)

lemma bit_low_byte_of:
  fixes v :: "'a::len word"
  shows "bit (ucast (ucast v :: u8) :: 'a word) n \<longleftrightarrow> n < 8 \<and> bit v n"
  by (auto simp: bit_simps dest: bit_imp_le_length)

text \<open>A count that stays within a bound it is checked against by subtraction does not wrap.\<close>

lemma add_no_wrap:
  fixes r c n :: u64
  assumes "r \<le> n" and "c \<le> n - r"
  shows "unat (r + c) = unat r + unat c" and "r + c \<le> n"
proof -
  have "unat c \<le> unat n - unat r"
    using assms by (metis unat_sub word_le_nat_alt)
  then have s: "unat r + unat c \<le> unat n"
    using assms(1) by (simp add: word_le_nat_alt)
  then have "unat r + unat c < 2 ^ 64"
    using unsigned_less [of n, where ?'a = nat] by simp
  then show "unat (r + c) = unat r + unat c"
    by (simp add: unat_word_ariths)
  with s show "r + c \<le> n" by (simp add: word_le_nat_alt)
qed

section \<open>Counted loops\<close>

text \<open>
  \<open>for_n i k body s\<close> is \<^verbatim>\<open>for (index = i; index < i + k; ++index)\<close> over the loop state \<open>s\<close>;
  \<open>for_ret\<close> is the same loop where the body may return from the routine (\<open>Inl\<close>).
\<close>

primrec for_n :: "nat \<Rightarrow> nat \<Rightarrow> (nat \<Rightarrow> 's \<Rightarrow> 's option) \<Rightarrow> 's \<Rightarrow> 's option" where
  "for_n i 0 body s = Some s"
| "for_n i (Suc k) body s = do { s' \<leftarrow> body i s; for_n (Suc i) k body s' }"

primrec for_ret :: "nat \<Rightarrow> nat \<Rightarrow> (nat \<Rightarrow> 's \<Rightarrow> ('r + 's) option) \<Rightarrow> 's \<Rightarrow> ('r + 's) option" where
  "for_ret i 0 body s = Some (Inr s)"
| "for_ret i (Suc k) body s = do {
     r \<leftarrow> body i s;
     case r of Inl x \<Rightarrow> Some (Inl x) | Inr s' \<Rightarrow> for_ret (Suc i) k body s' }"

lemma for_n_invariant:
  assumes "P i s"
    and "\<And>j t. i \<le> j \<Longrightarrow> j < i + k \<Longrightarrow> P j t \<Longrightarrow> \<exists>t'. body j t = Some t' \<and> P (Suc j) t'"
  shows "\<exists>s'. for_n i k body s = Some s' \<and> P (i + k) s'"
  using assms
proof (induction k arbitrary: i s)
  case 0
  then show ?case by simp
next
  case (Suc k)
  obtain t where t: "body i s = Some t" "P (Suc i) t"
    using Suc.prems(1) Suc.prems(2) [of i s] by auto
  have "\<exists>s'. for_n (Suc i) k body t = Some s' \<and> P (Suc i + k) s'"
    using t(2) by (rule Suc.IH) (use Suc.prems(2) in force)
  then show ?case using t(1) by simp
qed

text \<open>A loop that only checks: it runs to the end iff every element passes.\<close>

lemma for_ret_check:
  assumes "\<And>j. i \<le> j \<Longrightarrow> j < i + k \<Longrightarrow> body j s = Some (if good j then Inr s else Inl r)"
  shows "for_ret i k body s = Some (if \<forall>j. i \<le> j \<and> j < i + k \<longrightarrow> good j then Inr s else Inl r)"
  using assms
proof (induction k arbitrary: i)
  case 0
  then show ?case by simp
next
  case (Suc k)
  have "for_ret (Suc i) k body s =
      Some (if \<forall>j. Suc i \<le> j \<and> j < Suc i + k \<longrightarrow> good j then Inr s else Inl r)"
    by (rule Suc.IH) (use Suc.prems in force)
  moreover have "(\<forall>j. i \<le> j \<and> j < i + Suc k \<longrightarrow> good j) \<longleftrightarrow>
      good i \<and> (\<forall>j. Suc i \<le> j \<and> j < Suc i + k \<longrightarrow> good j)"
    by auto (metis Suc_leI le_neq_implies_less)
  moreover have "body i s = Some (if good i then Inr s else Inl r)"
    using Suc.prems [of i] by simp
  ultimately show ?case by simp
qed

text \<open>A loop that transforms its state until an element is rejected.\<close>

lemma for_ret_invariant:
  assumes "P i s"
    and "\<And>j t. i \<le> j \<Longrightarrow> j < i + k \<Longrightarrow> P j t \<Longrightarrow> good j \<Longrightarrow> \<exists>t'. body j t = Some (Inr t') \<and> P (Suc j) t'"
    and "\<And>j t. i \<le> j \<Longrightarrow> j < i + k \<Longrightarrow> P j t \<Longrightarrow> \<not> good j \<Longrightarrow> \<exists>r. body j t = Some (Inl r) \<and> Q r"
  shows "if \<forall>j. i \<le> j \<and> j < i + k \<longrightarrow> good j
    then \<exists>s'. for_ret i k body s = Some (Inr s') \<and> P (i + k) s'
    else \<exists>r. for_ret i k body s = Some (Inl r) \<and> Q r"
  using assms
proof (induction k arbitrary: i s)
  case 0
  then show ?case by simp
next
  case (Suc k)
  have all: "(\<forall>j. i \<le> j \<and> j < i + Suc k \<longrightarrow> good j) \<longleftrightarrow>
      good i \<and> (\<forall>j. Suc i \<le> j \<and> j < Suc i + k \<longrightarrow> good j)"
    by auto (metis Suc_leI le_neq_implies_less)
  show ?case
  proof (cases "good i")
    case True
    then obtain t where t: "body i s = Some (Inr t)" "P (Suc i) t"
      using Suc.prems(1) Suc.prems(2) [of i s] by auto
    have "if \<forall>j. Suc i \<le> j \<and> j < Suc i + k \<longrightarrow> good j
        then \<exists>s'. for_ret (Suc i) k body t = Some (Inr s') \<and> P (Suc i + k) s'
        else \<exists>r. for_ret (Suc i) k body t = Some (Inl r) \<and> Q r"
      using t(2) by (rule Suc.IH) (use Suc.prems(2,3) in force)+
    then show ?thesis using True t(1) by (simp only: all) (auto split: if_splits)
  next
    case False
    then obtain r where "body i s = Some (Inl r)" "Q r"
      using Suc.prems(1) Suc.prems(3) [of i s] by auto
    then show ?thesis using False by (simp only: all) simp
  qed
qed

section \<open>Loops that may not end\<close>

text \<open>A loop whose body either returns a result or goes on; not returning and undefined are both \<open>None\<close>.\<close>

partial_function (option) iterate :: "('s \<Rightarrow> ('r + 's) option) \<Rightarrow> 's \<Rightarrow> 'r option" where
  "iterate body s = do {
     r \<leftarrow> body s;
     case r of Inl x \<Rightarrow> Some x | Inr s' \<Rightarrow> iterate body s' }"

lemma iterate_returns:
  assumes "I s" and "\<And>s. I s \<Longrightarrow> \<exists>r. body s = Some r \<and>
      (case r of Inl x \<Rightarrow> Q x | Inr s' \<Rightarrow> I s' \<and> (m s' :: nat) < m s)"
  shows "\<exists>x. iterate body s = Some x \<and> Q x"
  using assms(1)
proof (induction "m s" arbitrary: s rule: less_induct)
  case less
  obtain r where r: "body s = Some r" "case r of Inl x \<Rightarrow> Q x | Inr s' \<Rightarrow> I s' \<and> m s' < m s"
    using assms(2) [OF less.prems] by blast
  show ?case
  proof (cases r)
    case (Inl x)
    then show ?thesis using r by (subst iterate.simps) simp
  next
    case (Inr s')
    then show ?thesis using r less.hyps [of s'] by (subst iterate.simps) simp
  qed
qed

lemma xor_zero_iff: "a XOR b = 0 \<longleftrightarrow> a = b" for a b :: "'a::len word"
  by (auto simp: bit_eq_iff bit_xor_iff)

text \<open>The accumulator of a comparison that never exits early is zero iff every term is.\<close>

lemma or_loop:
  fixes d :: "'a::len word"
  assumes "\<And>j t. j < n \<Longrightarrow> body j t = Some (t OR g j)"
  shows "\<exists>d'. for_n 0 n body d = Some d' \<and> (d' = 0 \<longleftrightarrow> d = 0 \<and> (\<forall>j < n. g j = 0))"
proof -
  have "\<exists>d'. for_n 0 n body d = Some d' \<and> (d' = 0 \<longleftrightarrow> d = 0 \<and> (\<forall>j < 0 + n. g j = 0))"
    by (rule for_n_invariant [where P = "\<lambda>i t. t = 0 \<longleftrightarrow> d = 0 \<and> (\<forall>j < i. g j = 0)"])
      (auto simp: assms or_eq_0_iff less_Suc_eq)
  then show ?thesis by simp
qed

end
