(* ===== verification/PD_Transfer.thy ===== *)
theory PD_Transfer
  imports PD_Prelude
begin

text \<open>
  The transfer progress state machine (\<^verbatim>\<open>session.c\<close>): the five operations, the states a
  progress object can reach, and the transition graph of \<^verbatim>\<open>docs/architecture.md\<close> that every
  operation respects.
\<close>

datatype pd_transfer_state =
    PD_TRANSFER_WAITING
  | PD_TRANSFER_RECEIVING
  | PD_TRANSFER_VERIFYING
  | PD_TRANSFER_COMPLETE
  | PD_TRANSFER_FAILED

datatype pd_transfer_result =
    PD_TRANSFER_OK
  | PD_TRANSFER_INVALID_ARGUMENT
  | PD_TRANSFER_INVALID_STATE
  | PD_TRANSFER_EXCEEDS_EXPECTED_SIZE

record pd_transfer_progress =
  tp_expected_bytes :: u64
  tp_received_bytes :: u64
  tp_state :: pd_transfer_state

definition pd_transfer_init :: "pd_transfer_progress option \<Rightarrow> u64 \<Rightarrow> pd_transfer_progress option" where
  "pd_transfer_init progress expected_bytes =
     (case progress of
        None \<Rightarrow> None
      | Some p \<Rightarrow> Some (p\<lparr>tp_expected_bytes := expected_bytes, tp_received_bytes := 0,
                           tp_state := PD_TRANSFER_WAITING\<rparr>))"

definition pd_transfer_accept_chunk ::
  "pd_transfer_progress option \<Rightarrow> u64 \<Rightarrow> pd_transfer_result \<times> pd_transfer_progress option" where
  "pd_transfer_accept_chunk progress chunk_bytes =
     (case progress of
        None \<Rightarrow> (PD_TRANSFER_INVALID_ARGUMENT, None)
      | Some p \<Rightarrow>
          if chunk_bytes = 0 then (PD_TRANSFER_INVALID_ARGUMENT, progress)
          else if tp_state p \<noteq> PD_TRANSFER_WAITING \<and> tp_state p \<noteq> PD_TRANSFER_RECEIVING
          then (PD_TRANSFER_INVALID_STATE, progress)
          else if tp_expected_bytes p < tp_received_bytes p \<or>
                  tp_expected_bytes p - tp_received_bytes p < chunk_bytes
          then (PD_TRANSFER_EXCEEDS_EXPECTED_SIZE, progress)
          else (PD_TRANSFER_OK, Some (p\<lparr>tp_state := PD_TRANSFER_RECEIVING,
                  tp_received_bytes := tp_received_bytes p + chunk_bytes\<rparr>)))"

definition pd_transfer_begin_verification ::
  "pd_transfer_progress option \<Rightarrow> bool \<times> pd_transfer_progress option" where
  "pd_transfer_begin_verification progress =
     (case progress of
        None \<Rightarrow> (False, None)
      | Some p \<Rightarrow>
          if tp_received_bytes p \<noteq> tp_expected_bytes p then (False, progress)
          else if tp_state p \<noteq> PD_TRANSFER_WAITING \<and> tp_state p \<noteq> PD_TRANSFER_RECEIVING
          then (False, progress)
          else (True, Some (p\<lparr>tp_state := PD_TRANSFER_VERIFYING\<rparr>)))"

definition pd_transfer_mark_complete ::
  "pd_transfer_progress option \<Rightarrow> bool \<times> pd_transfer_progress option" where
  "pd_transfer_mark_complete progress =
     (case progress of
        None \<Rightarrow> (False, None)
      | Some p \<Rightarrow>
          if tp_state p \<noteq> PD_TRANSFER_VERIFYING then (False, progress)
          else (True, Some (p\<lparr>tp_state := PD_TRANSFER_COMPLETE\<rparr>)))"

definition pd_transfer_mark_failed :: "pd_transfer_progress option \<Rightarrow> pd_transfer_progress option" where
  "pd_transfer_mark_failed progress =
     (case progress of
        None \<Rightarrow> None
      | Some p \<Rightarrow>
          if tp_state p = PD_TRANSFER_COMPLETE then progress
          else Some (p\<lparr>tp_state := PD_TRANSFER_FAILED\<rparr>))"

lemmas pd_transfer_defs = pd_transfer_init_def pd_transfer_accept_chunk_def
  pd_transfer_begin_verification_def pd_transfer_mark_complete_def pd_transfer_mark_failed_def

section \<open>Runs\<close>

text \<open>One call of an operation after initialisation, and the progress objects calls can reach.\<close>

inductive transfer_step :: "pd_transfer_progress \<Rightarrow> pd_transfer_progress \<Rightarrow> bool" where
  accept: "pd_transfer_accept_chunk (Some p) n = (r, Some q) \<Longrightarrow> transfer_step p q"
| verify: "pd_transfer_begin_verification (Some p) = (b, Some q) \<Longrightarrow> transfer_step p q"
| complete: "pd_transfer_mark_complete (Some p) = (b, Some q) \<Longrightarrow> transfer_step p q"
| fail: "pd_transfer_mark_failed (Some p) = Some q \<Longrightarrow> transfer_step p q"

inductive transfer_reachable :: "u64 \<Rightarrow> pd_transfer_progress \<Rightarrow> bool" for n where
  start: "pd_transfer_init (Some p) n = Some q \<Longrightarrow> transfer_reachable n q"
| step: "transfer_reachable n p \<Longrightarrow> transfer_step p q \<Longrightarrow> transfer_reachable n q"

text \<open>The documented transition graph, with the edge for an empty file: verification may begin
  without any chunk.\<close>

fun transfer_edge :: "pd_transfer_state \<Rightarrow> pd_transfer_state \<Rightarrow> bool" where
  "transfer_edge PD_TRANSFER_WAITING s \<longleftrightarrow>
     s \<in> {PD_TRANSFER_RECEIVING, PD_TRANSFER_VERIFYING, PD_TRANSFER_FAILED}"
| "transfer_edge PD_TRANSFER_RECEIVING s \<longleftrightarrow>
     s \<in> {PD_TRANSFER_RECEIVING, PD_TRANSFER_VERIFYING, PD_TRANSFER_FAILED}"
| "transfer_edge PD_TRANSFER_VERIFYING s \<longleftrightarrow> s \<in> {PD_TRANSFER_COMPLETE, PD_TRANSFER_FAILED}"
| "transfer_edge PD_TRANSFER_COMPLETE s \<longleftrightarrow> False"
| "transfer_edge PD_TRANSFER_FAILED s \<longleftrightarrow> False"

definition transfer_inv :: "u64 \<Rightarrow> pd_transfer_progress \<Rightarrow> bool" where
  "transfer_inv n p \<longleftrightarrow> tp_expected_bytes p = n \<and> tp_received_bytes p \<le> n \<and>
     (tp_state p = PD_TRANSFER_WAITING \<longrightarrow> tp_received_bytes p = 0) \<and>
     (tp_state p \<in> {PD_TRANSFER_VERIFYING, PD_TRANSFER_COMPLETE} \<longrightarrow> tp_received_bytes p = n)"

lemma transfer_step_inv: "transfer_step p q \<Longrightarrow> transfer_inv n p \<Longrightarrow> transfer_inv n q"
proof (induction rule: transfer_step.induct)
  case (accept p c r q)
  then show ?case
    using add_no_wrap(2) [of "tp_received_bytes p" n c]
    by (auto simp: pd_transfer_accept_chunk_def transfer_inv_def not_less split: if_splits)
qed (auto simp: pd_transfer_defs transfer_inv_def split: if_splits)

lemma transfer_reachable_inv: "transfer_reachable n p \<Longrightarrow> transfer_inv n p"
proof (induction rule: transfer_reachable.induct)
  case (start p q)
  then show ?case by (auto simp: pd_transfer_init_def transfer_inv_def)
qed (rule transfer_step_inv)

lemma transfer_step_edge:
  "transfer_step p q \<Longrightarrow> tp_state q = tp_state p \<and> q = p \<or> transfer_edge (tp_state p) (tp_state q)"
proof (induction rule: transfer_step.induct)
  case (accept p c r q)
  then show ?case
    by (cases "tp_state p") (auto simp: pd_transfer_accept_chunk_def split: if_splits)
next
  case (verify p b q)
  then show ?case
    by (cases "tp_state p") (auto simp: pd_transfer_begin_verification_def split: if_splits)
next
  case (complete p b q)
  then show ?case
    by (cases "tp_state p") (auto simp: pd_transfer_mark_complete_def split: if_splits)
next
  case (fail p q)
  then show ?case
    by (cases "tp_state p") (auto simp: pd_transfer_mark_failed_def split: if_splits)
qed

section \<open>Properties\<close>

text \<open>C39: In every progress object the operations can reach, the received count never exceeds the
  expected one, and a transfer that is verifying or complete has received exactly the expected
  number of bytes.\<close>

theorem transfer_counts_sound:
  assumes "transfer_reachable n p"
  shows "tp_expected_bytes p = n \<and> unat (tp_received_bytes p) \<le> unat n \<and>
    (tp_state p = PD_TRANSFER_VERIFYING \<or> tp_state p = PD_TRANSFER_COMPLETE \<longrightarrow> tp_received_bytes p = n)"
  using transfer_reachable_inv [OF assms] by (auto simp: transfer_inv_def word_le_nat_alt)

theorem transfer_counts_sound_witness:
  "let p = \<lparr>tp_expected_bytes = 5, tp_received_bytes = 3, tp_state = PD_TRANSFER_RECEIVING\<rparr> in
    tp_expected_bytes p = 5 \<and> unat (tp_received_bytes p) \<le> unat (5 :: u64)"
proof -
  let ?p = "\<lparr>tp_expected_bytes = 5, tp_received_bytes = 0, tp_state = PD_TRANSFER_WAITING\<rparr> :: pd_transfer_progress"
  let ?q = "\<lparr>tp_expected_bytes = 5, tp_received_bytes = 3, tp_state = PD_TRANSFER_RECEIVING\<rparr> :: pd_transfer_progress"
  have "transfer_reachable 5 ?p"
    by (rule transfer_reachable.start [of ?p]) (simp add: pd_transfer_init_def)
  moreover have "transfer_step ?p ?q"
    by (rule transfer_step.accept [of _ 3 PD_TRANSFER_OK]) (simp add: pd_transfer_accept_chunk_def)
  ultimately have "transfer_reachable 5 ?q" by (rule transfer_reachable.step)
  from transfer_counts_sound [OF this] show ?thesis by simp
qed

end
