(* ===== verification/PD_Transport.thy ===== *)
theory PD_Transport
  imports PD_Prelude
begin

text \<open>
  The byte transport interface (\<^verbatim>\<open>transport.c\<close>): an object that forwards to a table of callbacks and
  remembers whether it is open. The callbacks are parameters over a context \<open>'c\<close>; the locale
  \<open>transport_backend\<close> says when they may be called, and every sequence of calls on a transport is
  shown to respect it.
\<close>

section \<open>Data\<close>

datatype pd_transport_status =
    PD_TRANSPORT_OK
  | PD_TRANSPORT_INVALID_ARGUMENT
  | PD_TRANSPORT_INVALID_STATE
  | PD_TRANSPORT_IO_ERROR
  | PD_TRANSPORT_WOULD_BLOCK
  | PD_TRANSPORT_CLOSED

text \<open>A callback that fills an output receives its value before the call.\<close>

record 'c pd_transport_ops =
  tp_open :: "('c \<Rightarrow> (pd_transport_status \<times> 'c) option) option"
  tp_write :: "('c \<Rightarrow> u8 list option \<Rightarrow> nat \<Rightarrow> nat \<Rightarrow> (pd_transport_status \<times> nat \<times> 'c) option) option"
  tp_read :: "('c \<Rightarrow> u8 list option \<Rightarrow> nat \<Rightarrow> nat \<Rightarrow> (pd_transport_status \<times> u8 list option \<times> nat \<times> 'c) option) option"
  tp_close :: "('c \<Rightarrow> 'c option) option"

record 'c pd_transport =
  tr_ops :: "'c pd_transport_ops option"
  tr_context :: 'c
  tr_is_open :: bool

section \<open>Operations\<close>

definition pd_transport_is_configured :: "'c pd_transport option \<Rightarrow> bool" where
  "pd_transport_is_configured transport \<longleftrightarrow>
     (case transport of
        None \<Rightarrow> False
      | Some t \<Rightarrow>
          (case tr_ops t of
             None \<Rightarrow> False
           | Some ops \<Rightarrow> tp_open ops \<noteq> None \<and> tp_write ops \<noteq> None \<and> tp_read ops \<noteq> None \<and> tp_close ops \<noteq> None))"

definition pd_transport_open :: "'c pd_transport option \<Rightarrow> (pd_transport_status \<times> 'c pd_transport option) option" where
  "pd_transport_open transport =
     (if \<not> pd_transport_is_configured transport then Some (PD_TRANSPORT_INVALID_ARGUMENT, transport)
      else do {
        t \<leftarrow> transport;
        ops \<leftarrow> tr_ops t;
        open_fn \<leftarrow> tp_open ops;
        if tr_is_open t then Some (PD_TRANSPORT_INVALID_STATE, transport)
        else do {
          (status, c) \<leftarrow> open_fn (tr_context t);
          let t = t\<lparr>tr_context := c\<rparr>;
          Some (status, Some (if status = PD_TRANSPORT_OK then t\<lparr>tr_is_open := True\<rparr> else t)) } })"

definition pd_transport_write ::
  "'c pd_transport option \<Rightarrow> u8 list option \<Rightarrow> nat \<Rightarrow> nat option \<Rightarrow> (pd_transport_status \<times> nat option \<times> 'c pd_transport option) option" where
  "pd_transport_write transport buffer buffer_size bytes_written =
     (if bytes_written = None \<or> (buffer = None \<and> buffer_size \<noteq> 0) then Some (PD_TRANSPORT_INVALID_ARGUMENT, bytes_written, transport)
      else if \<not> pd_transport_is_configured transport then Some (PD_TRANSPORT_INVALID_ARGUMENT, Some 0, transport)
      else do {
        t \<leftarrow> transport;
        ops \<leftarrow> tr_ops t;
        write_fn \<leftarrow> tp_write ops;
        if \<not> tr_is_open t then Some (PD_TRANSPORT_INVALID_STATE, Some 0, transport)
        else do {
          (status, written, c) \<leftarrow> write_fn (tr_context t) buffer buffer_size 0;
          Some (status, Some written, Some (t\<lparr>tr_context := c\<rparr>)) } })"

definition pd_transport_read ::
  "'c pd_transport option \<Rightarrow> u8 list option \<Rightarrow> nat \<Rightarrow> nat option \<Rightarrow>
   (pd_transport_status \<times> u8 list option \<times> nat option \<times> 'c pd_transport option) option" where
  "pd_transport_read transport buffer buffer_size bytes_read =
     (if bytes_read = None \<or> (buffer = None \<and> buffer_size \<noteq> 0) then Some (PD_TRANSPORT_INVALID_ARGUMENT, buffer, bytes_read, transport)
      else if \<not> pd_transport_is_configured transport then Some (PD_TRANSPORT_INVALID_ARGUMENT, buffer, Some 0, transport)
      else do {
        t \<leftarrow> transport;
        ops \<leftarrow> tr_ops t;
        read_fn \<leftarrow> tp_read ops;
        if \<not> tr_is_open t then Some (PD_TRANSPORT_INVALID_STATE, buffer, Some 0, transport)
        else do {
          (status, buffer, count, c) \<leftarrow> read_fn (tr_context t) buffer buffer_size 0;
          Some (status, buffer, Some count, Some (t\<lparr>tr_context := c\<rparr>)) } })"

definition pd_transport_close :: "'c pd_transport option \<Rightarrow> 'c pd_transport option option" where
  "pd_transport_close transport =
     (if \<not> pd_transport_is_configured transport then Some transport
      else do {
        t \<leftarrow> transport;
        ops \<leftarrow> tr_ops t;
        close_fn \<leftarrow> tp_close ops;
        if \<not> tr_is_open t then Some transport
        else do {
          c \<leftarrow> close_fn (tr_context t);
          Some (Some (t\<lparr>tr_context := c, tr_is_open := False\<rparr>)) } })"

section \<open>The contract of a backend\<close>

text \<open>
  A backend may be opened only while it is closed, and used and closed only while it is open. An open
  that fails leaves it closed. A call outside these rules has no defined result.
\<close>

locale transport_backend =
  fixes open_fn :: "'c \<Rightarrow> (pd_transport_status \<times> 'c) option"
    and write_fn :: "'c \<Rightarrow> u8 list option \<Rightarrow> nat \<Rightarrow> nat \<Rightarrow> (pd_transport_status \<times> nat \<times> 'c) option"
    and read_fn :: "'c \<Rightarrow> u8 list option \<Rightarrow> nat \<Rightarrow> nat \<Rightarrow> (pd_transport_status \<times> u8 list option \<times> nat \<times> 'c) option"
    and close_fn :: "'c \<Rightarrow> 'c option"
    and opened :: "'c \<Rightarrow> bool"
  assumes open_closed: "\<not> opened c \<Longrightarrow> \<exists>st c'. open_fn c = Some (st, c') \<and> opened c' = (st = PD_TRANSPORT_OK)"
    and write_open: "opened c \<Longrightarrow> n \<le> length (the_default [] buf) \<Longrightarrow>
      \<exists>st k c'. write_fn c buf n 0 = Some (st, k, c') \<and> opened c' \<and> k \<le> n"
    and read_open: "opened c \<Longrightarrow> n \<le> length (the_default [] buf) \<Longrightarrow>
      \<exists>st buf' k c'. read_fn c buf n 0 = Some (st, buf', k, c') \<and> opened c' \<and> k \<le> n \<and> map_option length buf' = map_option length buf"
    and close_open: "opened c \<Longrightarrow> \<exists>c'. close_fn c = Some c' \<and> \<not> opened c'"

datatype transport_call =
    Open
  | Write "u8 list option" nat "nat option"
  | Read "u8 list option" nat "nat option"
  | Close

definition call_fits :: "transport_call \<Rightarrow> bool" where
  "call_fits call = (case call of
     Write buf n k \<Rightarrow> buf = None \<or> n \<le> length (the_default [] buf)
   | Read buf n k \<Rightarrow> buf = None \<or> n \<le> length (the_default [] buf)
   | _ \<Rightarrow> True)"

text \<open>The transport after a call, and the count it reported.\<close>

definition transport_call :: "transport_call \<Rightarrow> 'c pd_transport \<Rightarrow> (nat option \<times> 'c pd_transport) option" where
  "transport_call call t = (case call of
     Open \<Rightarrow> do { (_, t') \<leftarrow> pd_transport_open (Some t); t' \<leftarrow> t'; Some (None, t') }
   | Write buf n k \<Rightarrow> do { (_, k', t') \<leftarrow> pd_transport_write (Some t) buf n k; t' \<leftarrow> t'; Some (k', t') }
   | Read buf n k \<Rightarrow> do { (_, _, k', t') \<leftarrow> pd_transport_read (Some t) buf n k; t' \<leftarrow> t'; Some (k', t') }
   | Close \<Rightarrow> do { t' \<leftarrow> pd_transport_close (Some t); t' \<leftarrow> t'; Some (None, t') })"

fun transport_calls :: "transport_call list \<Rightarrow> 'c pd_transport \<Rightarrow> (nat option list \<times> 'c pd_transport) option" where
  "transport_calls [] t = Some ([], t)"
| "transport_calls (call # calls) t = do {
     (k, t) \<leftarrow> transport_call call t;
     (ks, t) \<leftarrow> transport_calls calls t;
     Some (k # ks, t) }"

definition transport_inv where
  "transport_inv ops opened t \<longleftrightarrow> tr_ops t = Some ops \<and> opened (tr_context t) = tr_is_open t"

text \<open>The count a call reports never exceeds the size of the buffer it was given.\<close>

definition count_fits :: "transport_call \<Rightarrow> nat option \<Rightarrow> bool" where
  "count_fits call k' = (case call of
     Write buf n k \<Rightarrow> k = None \<or> buf = None \<and> n \<noteq> 0 \<or> (\<exists>c. k' = Some c \<and> c \<le> n)
   | Read buf n k \<Rightarrow> k = None \<or> buf = None \<and> n \<noteq> 0 \<or> (\<exists>c. k' = Some c \<and> c \<le> n)
   | _ \<Rightarrow> True)"

context transport_backend
begin

abbreviation "table \<equiv> \<lparr>tp_open = Some open_fn, tp_write = Some write_fn, tp_read = Some read_fn, tp_close = Some close_fn\<rparr>"

lemma configured: "transport_inv table opened t \<Longrightarrow> pd_transport_is_configured (Some t)"
  by (simp add: transport_inv_def pd_transport_is_configured_def)

lemma call_spec:
  assumes "transport_inv table opened t" and "call_fits call"
  shows "\<exists>k t'. transport_call call t = Some (k, t') \<and> transport_inv table opened t' \<and> count_fits call k"
proof (cases call)
  case Open
  then show ?thesis using configured [OF assms(1)] open_closed [of "tr_context t"] assms(1)
    by (cases "tr_is_open t") (auto simp: transport_call_def pd_transport_open_def transport_inv_def count_fits_def)
next
  case (Write buf n k)
  have "n \<le> length (the_default [] buf)" if "\<not> (buf = None \<and> n \<noteq> 0)" using assms(2) that by (auto simp: Write call_fits_def)
  then show ?thesis using Write configured [OF assms(1)] write_open [of "tr_context t" n buf] assms(1)
    by (cases "k = None \<or> buf = None \<and> n \<noteq> 0"; cases "tr_is_open t")
      (auto simp: transport_call_def pd_transport_write_def transport_inv_def count_fits_def)
next
  case (Read buf n k)
  have "n \<le> length (the_default [] buf)" if "\<not> (buf = None \<and> n \<noteq> 0)" using assms(2) that by (auto simp: Read call_fits_def)
  then show ?thesis using Read configured [OF assms(1)] read_open [of "tr_context t" n buf] assms(1)
    by (cases "k = None \<or> buf = None \<and> n \<noteq> 0"; cases "tr_is_open t")
      (auto simp: transport_call_def pd_transport_read_def transport_inv_def count_fits_def)
next
  case Close
  then show ?thesis using configured [OF assms(1)] close_open [of "tr_context t"] assms(1)
    by (cases "tr_is_open t") (auto simp: transport_call_def pd_transport_close_def transport_inv_def count_fits_def)
qed

lemma calls_spec:
  assumes "transport_inv table opened t" and "list_all call_fits calls"
  shows "\<exists>ks t'. transport_calls calls t = Some (ks, t') \<and> transport_inv table opened t' \<and> list_all2 count_fits calls ks"
  using assms
proof (induction calls arbitrary: t)
  case (Cons call calls)
  obtain k t1 where t1: "transport_call call t = Some (k, t1)" "transport_inv table opened t1" "count_fits call k"
    using call_spec [OF Cons.prems(1), of call] Cons.prems(2) by auto
  then show ?case using Cons.IH [OF t1(2)] Cons.prems(2) by auto
qed simp

end

section \<open>A loop-back backend\<close>

record loopback =
  lb_open :: bool
  lb_bytes :: "u8 list"

definition lb_open_fn :: "loopback \<Rightarrow> (pd_transport_status \<times> loopback) option" where
  "lb_open_fn c = (if lb_open c then None else Some (PD_TRANSPORT_OK, c\<lparr>lb_open := True\<rparr>))"

definition lb_write_fn :: "loopback \<Rightarrow> u8 list option \<Rightarrow> nat \<Rightarrow> nat \<Rightarrow> (pd_transport_status \<times> nat \<times> loopback) option" where
  "lb_write_fn c buf n k = (if lb_open c
     then Some (PD_TRANSPORT_OK, n, c\<lparr>lb_bytes := lb_bytes c @ take n (the_default [] buf)\<rparr>) else None)"

definition lb_read_fn :: "loopback \<Rightarrow> u8 list option \<Rightarrow> nat \<Rightarrow> nat \<Rightarrow> (pd_transport_status \<times> u8 list option \<times> nat \<times> loopback) option" where
  "lb_read_fn c buf n k = (if lb_open c
     then let d = take n (lb_bytes c) in
       Some (PD_TRANSPORT_OK, map_option (\<lambda>b. d @ drop (length d) b) buf, length d, c\<lparr>lb_bytes := drop n (lb_bytes c)\<rparr>) else None)"

definition lb_close_fn :: "loopback \<Rightarrow> loopback option" where
  "lb_close_fn c = (if lb_open c then Some (c\<lparr>lb_open := False\<rparr>) else None)"

interpretation loop_backend: transport_backend lb_open_fn lb_write_fn lb_read_fn lb_close_fn lb_open
  by unfold_locales (auto simp: lb_open_fn_def lb_write_fn_def lb_read_fn_def lb_close_fn_def Let_def min_def
    option.map_comp comp_def the_default_def intro!: option.map_cong split: option.splits)

section \<open>The correctness of the transport\<close>

text \<open>C40: Whatever calls are made on a transport and in whatever order, each returns, the backend is opened
  only while closed and used and closed only while open, the object's flag agrees with the backend after
  every call, and a reported count never exceeds the size of the buffer.\<close>

theorem transport_respects_backend:
  assumes "transport_backend open_fn write_fn read_fn close_fn opened"
    and "transport_inv \<lparr>tp_open = Some open_fn, tp_write = Some write_fn, tp_read = Some read_fn, tp_close = Some close_fn\<rparr> opened t"
    and "list_all call_fits calls"
  shows "\<exists>ks t'. transport_calls calls t = Some (ks, t') \<and>
    transport_inv \<lparr>tp_open = Some open_fn, tp_write = Some write_fn, tp_read = Some read_fn, tp_close = Some close_fn\<rparr> opened t' \<and>
    list_all2 count_fits calls ks"
  by (rule transport_backend.calls_spec [OF assms])

theorem transport_respects_backend_witness:
  "\<exists>ks t'. transport_calls [Close, Open, Open, Write (Some [1, 2]) 2 (Some 9), Read (Some [0, 0, 0]) 3 (Some 9), Close, Read None 0 (Some 9)]
      \<lparr>tr_ops = Some loop_backend.table, tr_context = \<lparr>lb_open = False, lb_bytes = []\<rparr>, tr_is_open = False\<rparr> = Some (ks, t') \<and>
    transport_inv loop_backend.table lb_open t' \<and>
    list_all2 count_fits [Close, Open, Open, Write (Some [1, 2]) 2 (Some 9), Read (Some [0, 0, 0]) 3 (Some 9), Close, Read None 0 (Some 9)] ks"
  by (rule transport_respects_backend [OF loop_backend.transport_backend_axioms]) (simp_all add: transport_inv_def call_fits_def)

end
