(* ===== verification/PD_Hex.thy ===== *)
theory PD_Hex
  imports PD_Prelude
begin

unbundle bit_operations_syntax

text \<open>
  Hexadecimal text. \<open>hex_of\<close> is the lower-case encoding every encoder of the program produces
  and \<open>lower_hex\<close> the predicate every validator decides; the component theories relate their
  loops to these two. The writing loop itself is shared by \<^verbatim>\<open>pd_sha256_to_hex\<close>,
  \<^verbatim>\<open>pd_job_id_create\<close> and \<^verbatim>\<open>pd_encode_hex\<close>, so its correctness is proved once here.
\<close>

definition hex_digits :: "u8 list" where
  "hex_digits = c_lit ''0123456789abcdef''"

definition hex_digit :: "u8 \<Rightarrow> u8" where
  "hex_digit v = hex_digits ! unat (v AND 0x0f)"

definition hex_byte :: "u8 \<Rightarrow> u8 list" where
  "hex_byte b = [hex_digit (drop_bit 4 b), hex_digit b]"

definition hex_of :: "u8 list \<Rightarrow> u8 list" where
  "hex_of bs = concat (map hex_byte bs)"

definition lower_hex_char :: "u8 \<Rightarrow> bool" where
  "lower_hex_char c \<longleftrightarrow> (48 \<le> c \<and> c \<le> 57) \<or> (97 \<le> c \<and> c \<le> 102)"

definition lower_hex :: "nat \<Rightarrow> u8 list \<Rightarrow> bool" where
  "lower_hex n s \<longleftrightarrow> length s = n \<and> (\<forall>c \<in> set s. lower_hex_char c)"

lemma hex_digits_list: "hex_digits = [48, 49, 50, 51, 52, 53, 54, 55, 56, 57, 97, 98, 99, 100, 101, 102]"
  by (simp add: hex_digits_def c_lit_def)

lemma length_hex_digits [simp]: "length hex_digits = 16"
  by (simp add: hex_digits_def)

lemma mask_15: "(0x0f :: u8) = mask 4"
  by (simp add: mask_eq_exp_minus_1)

lemma and_15_less: "unat (v AND 0x0f :: u8) < 16"
proof -
  have "unat (v AND 0x0f :: u8) \<le> unat (0x0f :: u8)"
    by (rule word_and_le1 [THEN word_le_nat_alt [THEN iffD1]])
  then show ?thesis by simp
qed

lemma lower_hex_char_hex_digit [simp]: "lower_hex_char (hex_digit v)"
proof -
  have "hex_digit v \<in> set hex_digits"
    unfolding hex_digit_def by (rule nth_mem) (simp add: and_15_less)
  moreover have "\<forall>c \<in> set hex_digits. lower_hex_char c"
    by (simp add: hex_digits_list lower_hex_char_def)
  ultimately show ?thesis by blast
qed

lemma lower_hex_char_nonzero: "lower_hex_char c \<Longrightarrow> c \<noteq> 0"
  by (auto simp: lower_hex_char_def)

lemma length_hex_of [simp]: "length (hex_of bs) = 2 * length bs"
  by (induction bs) (simp_all add: hex_of_def hex_byte_def)

lemma lower_hex_hex_of: "lower_hex (2 * length bs) (hex_of bs)"
  by (auto simp: lower_hex_def) (auto simp: hex_of_def hex_byte_def)

lemma hex_of_no_nul: "0 \<notin> set (hex_of bs)"
  using lower_hex_hex_of [of bs] by (auto simp: lower_hex_def lower_hex_char_def)

lemma hex_of_snoc: "i < length bs \<Longrightarrow> hex_of (take (Suc i) bs) = hex_of (take i bs) @ hex_byte (bs ! i)"
  by (simp add: hex_of_def take_Suc_conv_app_nth)

section \<open>The encoding loop\<close>

text \<open>
  One iteration writes the two digits of byte \<open>i\<close> at \<open>2 i\<close> and \<open>2 i + 1\<close>.
\<close>

definition hex_step :: "u8 list \<Rightarrow> nat \<Rightarrow> u8 list \<Rightarrow> u8 list option" where
  "hex_step input index output = do {
     b \<leftarrow> rd input index;
     m \<leftarrow> wr output (index * 2) (hex_digit (drop_bit 4 b));
     wr m (index * 2 + 1) (hex_digit b) }"

lemma hex_step_eq:
  "i < length input \<Longrightarrow> hex_step input i output = put output (i * 2) (hex_byte (input ! i))"
  by (simp add: hex_step_def mem_simps hex_byte_def)

lemma hex_loop:
  assumes "n \<le> length input" and "2 * n \<le> length output"
  shows "for_n 0 n (hex_step input) output = Some (hex_of (take n input) @ drop (2 * n) output)"
proof -
  have "\<exists>s'. for_n 0 n (hex_step input) output = Some s' \<and>
      s' = hex_of (take (0 + n) input) @ drop (2 * (0 + n)) output"
  proof (rule for_n_invariant [where P = "\<lambda>i m. m = hex_of (take i input) @ drop (2 * i) output"])
    show "output = hex_of (take 0 input) @ drop (2 * 0) output"
      by (simp add: hex_of_def)
  next
    fix i m
    assume i: "i < 0 + n" and m: "m = hex_of (take i input) @ drop (2 * i) output"
    have "hex_step input i m = put m (i * 2) (hex_byte (input ! i))"
      using i assms(1) by (intro hex_step_eq) simp
    also have "\<dots> = Some (hex_of (take (Suc i) input) @ drop (2 * Suc i) output)"
      using i assms by (simp add: put_def m hex_of_snoc hex_byte_def min_def drop_drop)
    finally show "\<exists>t'. hex_step input i m = Some t' \<and> t' = hex_of (take (Suc i) input) @ drop (2 * Suc i) output"
      by blast
  qed
  then show ?thesis by simp
qed

section \<open>Validation loops\<close>

definition lower_hex_step :: "u8 list \<Rightarrow> nat \<Rightarrow> unit \<Rightarrow> (bool + unit) option" where
  "lower_hex_step value index u = do {
     c \<leftarrow> rd value index;
     if \<not> ((48 \<le> c \<and> c \<le> 57) \<or> (97 \<le> c \<and> c \<le> 102)) then Some (Inl False) else Some (Inr ()) }"

definition returned :: "'r \<Rightarrow> 'r + 's \<Rightarrow> 'r" where
  "returned d r = (case r of Inl x \<Rightarrow> x | Inr _ \<Rightarrow> d)"

text \<open>The body of every validator: the length first, then each character.\<close>

definition lower_hex_check :: "u8 list option \<Rightarrow> nat \<Rightarrow> bool option" where
  "lower_hex_check value expected_length =
     (case value of
        None \<Rightarrow> Some False
      | Some v \<Rightarrow> do {
          n \<leftarrow> strlen v;
          if n \<noteq> expected_length then Some False
          else map_option (returned True) (for_ret 0 expected_length (lower_hex_step v) ()) })"

lemma c_str_nth: "i < length (c_str m) \<Longrightarrow> c_str m ! i = m ! i"
  unfolding c_str_def by (simp add: takeWhile_nth)

lemma lower_hex_check_eq:
  assumes "0 \<in> set v"
  shows "lower_hex_check (Some v) n = Some (lower_hex n (c_str v))"
proof (cases "length (c_str v) = n")
  case True
  have "n < length v" using assms True length_c_str_less by blast
  then have "for_ret 0 n (lower_hex_step v) () =
      Some (if \<forall>j. 0 \<le> j \<and> j < 0 + n \<longrightarrow> lower_hex_char (v ! j) then Inr () else Inl False)"
    by (intro for_ret_check) (simp add: lower_hex_step_def mem_simps lower_hex_char_def)
  moreover have "(\<forall>j. j < n \<longrightarrow> lower_hex_char (v ! j)) \<longleftrightarrow> (\<forall>c \<in> set (c_str v). lower_hex_char c)"
    unfolding True [symmetric] all_set_conv_all_nth by (simp add: c_str_nth)
  ultimately show ?thesis
    using True assms by (simp add: lower_hex_check_def strlen_def returned_def lower_hex_def)
next
  case False
  then show ?thesis using assms by (simp add: lower_hex_check_def strlen_def lower_hex_def)
qed

end
