(* ===== verification/PD_Session.thy ===== *)
theory PD_Session
  imports PD_Hex
begin

unbundle bit_operations_syntax

text \<open>
  The receiver session (\<^verbatim>\<open>receiver_session.c\<close>, \<^verbatim>\<open>secure_zero.c\<close>), the job identifier
  (\<^verbatim>\<open>job_id.c\<close>) and the link a session is advertised under (\<^verbatim>\<open>session_url.c\<close>).

  The random source is a callback. It is a function from the world it reads and the number of
  bytes asked for to its result, the contents of the buffer after the call and the next world;
  \<open>random_source\<close> is its contract, which the Windows source satisfies in \<open>PD_Win32Crypto\<close>.
\<close>

section \<open>Wiping memory\<close>

fun zero_loop :: "u8 list \<Rightarrow> nat \<Rightarrow> nat \<Rightarrow> u8 list option" where
  "zero_loop m cursor 0 = Some m"
| "zero_loop m cursor (Suc buffer_size) = do {
     m' \<leftarrow> wr m cursor 0;
     zero_loop m' (cursor + 1) buffer_size }"

definition pd_secure_zero :: "u8 list option \<Rightarrow> nat \<Rightarrow> u8 list option option" where
  "pd_secure_zero buffer buffer_size =
     (case buffer of
        None \<Rightarrow> Some None
      | Some m \<Rightarrow> map_option Some (zero_loop m 0 buffer_size))"

lemma zero_loop_eq: "zero_loop m c n = put m c (replicate n 0) \<or> length m < c + n"
proof (induction m c n rule: zero_loop.induct)
  case (1 m c)
  then show ?case by (auto simp: put_def)
next
  case (2 m c n)
  show ?case
  proof (cases "c + Suc n \<le> length m")
    case True
    then have w: "wr m c 0 = Some (m[c := 0])" by (simp add: wr_def)
    from 2 [OF w] True have "zero_loop (m[c := 0]) (c + 1) n = put (m[c := 0]) (c + 1) (replicate n 0)"
      by simp
    also have "\<dots> = wr m c 0 \<bind> (\<lambda>m'. put m' (c + 1) (replicate n 0))"
      by (simp add: w)
    also have "\<dots> = put m c (replicate (Suc n) 0)"
      by (simp add: wr_put put_put)
    finally show ?thesis by (simp add: w)
  qed simp
qed

lemma pd_secure_zero_all [simp]: "n = length m \<Longrightarrow> pd_secure_zero (Some m) n = Some (Some (replicate n 0))"
  using zero_loop_eq [of m 0 n] by (auto simp: pd_secure_zero_def put_0)

section \<open>Data\<close>

definition PD_SESSION_TOKEN_BYTES :: nat where "PD_SESSION_TOKEN_BYTES = 16"
definition PD_SESSION_TOKEN_HEX_CHARS :: nat where "PD_SESSION_TOKEN_HEX_CHARS = PD_SESSION_TOKEN_BYTES * 2"
definition PD_SESSION_TOKEN_CAPACITY :: nat where "PD_SESSION_TOKEN_CAPACITY = PD_SESSION_TOKEN_HEX_CHARS + 1"
definition PD_RECEIVER_SECRET_BYTES :: nat where "PD_RECEIVER_SECRET_BYTES = 32"
definition PD_RECEIVER_SECRET_HEX_CHARS :: nat where "PD_RECEIVER_SECRET_HEX_CHARS = PD_RECEIVER_SECRET_BYTES * 2"
definition PD_RECEIVER_SECRET_CAPACITY :: nat where "PD_RECEIVER_SECRET_CAPACITY = PD_RECEIVER_SECRET_HEX_CHARS + 1"
definition PD_SESSION_ENTROPY_BYTES :: nat where
  "PD_SESSION_ENTROPY_BYTES = PD_SESSION_TOKEN_BYTES + PD_RECEIVER_SECRET_BYTES"

lemmas session_sizes [simp] = PD_SESSION_TOKEN_BYTES_def PD_SESSION_TOKEN_HEX_CHARS_def
  PD_SESSION_TOKEN_CAPACITY_def PD_RECEIVER_SECRET_BYTES_def PD_RECEIVER_SECRET_HEX_CHARS_def
  PD_RECEIVER_SECRET_CAPACITY_def PD_SESSION_ENTROPY_BYTES_def

datatype pd_receiver_session_state =
    PD_RECEIVER_SESSION_INACTIVE
  | PD_RECEIVER_SESSION_WAITING
  | PD_RECEIVER_SESSION_TRANSFERRING
  | PD_RECEIVER_SESSION_EXPIRED
  | PD_RECEIVER_SESSION_CLOSED

datatype pd_receiver_session_result =
    PD_RECEIVER_SESSION_OK
  | PD_RECEIVER_SESSION_INVALID_ARGUMENT
  | PD_RECEIVER_SESSION_INVALID_STATE
  | PD_RECEIVER_SESSION_ENTROPY_FAILURE
  | PD_RECEIVER_SESSION_CLOCK_OVERFLOW
  | PD_RECEIVER_SESSION_TOKEN_MISMATCH
  | PD_RECEIVER_SESSION_EXPIRED_RESULT

record pd_receiver_session =
  rs_token :: "u8 list"
  rs_receiver_secret :: "u8 list"
  rs_created_at_ms :: u64
  rs_expires_at_ms :: u64
  rs_state :: pd_receiver_session_state

type_synonym 'w pd_random_fill_fn = "'w \<Rightarrow> nat \<Rightarrow> bool \<times> u8 list \<times> 'w"

locale random_source =
  fixes random_fill :: "'w pd_random_fill_fn"
  assumes fills_buffer: "random_fill w n = (ok, bytes, w') \<Longrightarrow> length bytes = n"

section \<open>Operations\<close>

definition pd_hex_digit :: "u8 \<Rightarrow> u8 option" where
  "pd_hex_digit v = rd (c_lit ''0123456789abcdef'') (unat (v AND 0x0f))"

definition pd_encode_hex :: "u8 list \<Rightarrow> nat \<Rightarrow> u8 list \<Rightarrow> u8 list option" where
  "pd_encode_hex input input_size output = do {
     m \<leftarrow> for_n 0 input_size (\<lambda>index m. do {
            b \<leftarrow> rd input index;
            hi \<leftarrow> pd_hex_digit (drop_bit 4 b);
            m \<leftarrow> wr m (index * 2) hi;
            lo \<leftarrow> pd_hex_digit b;
            wr m (index * 2 + 1) lo }) output;
     wr m (input_size * 2) 0 }"

definition pd_constant_time_text_equal :: "u8 list \<Rightarrow> nat \<Rightarrow> u8 list option \<Rightarrow> bool option" where
  "pd_constant_time_text_equal expected expected_length candidate =
     (case candidate of
        None \<Rightarrow> Some False
      | Some c \<Rightarrow> do {
          n \<leftarrow> strlen c;
          if n \<noteq> expected_length then Some False
          else do {
            difference \<leftarrow> for_n 0 expected_length (\<lambda>index (difference :: u32). do {
                e \<leftarrow> rd expected index;
                x \<leftarrow> rd c index;
                Some (difference OR ucast (e XOR x)) }) 0;
            Some (difference = 0) } })"

definition pd_receiver_session_reset :: "pd_receiver_session \<Rightarrow> pd_receiver_session option" where
  "pd_receiver_session_reset session = do {
     t \<leftarrow> pd_secure_zero (Some (rs_token session)) PD_SESSION_TOKEN_CAPACITY;
     s \<leftarrow> pd_secure_zero (Some (rs_receiver_secret session)) PD_RECEIVER_SECRET_CAPACITY;
     t' \<leftarrow> t; s' \<leftarrow> s;
     Some (session\<lparr>rs_token := t', rs_receiver_secret := s', rs_created_at_ms := 0,
             rs_expires_at_ms := 0, rs_state := PD_RECEIVER_SESSION_INACTIVE\<rparr>) }"

definition pd_receiver_session_clear_credentials :: "pd_receiver_session \<Rightarrow> pd_receiver_session option" where
  "pd_receiver_session_clear_credentials session = do {
     t \<leftarrow> pd_secure_zero (Some (rs_token session)) PD_SESSION_TOKEN_CAPACITY;
     s \<leftarrow> pd_secure_zero (Some (rs_receiver_secret session)) PD_RECEIVER_SECRET_CAPACITY;
     t' \<leftarrow> t; s' \<leftarrow> s;
     Some (session\<lparr>rs_token := t', rs_receiver_secret := s'\<rparr>) }"

definition pd_receiver_session_create ::
  "pd_receiver_session option \<Rightarrow> u64 \<Rightarrow> u64 \<Rightarrow> 'w pd_random_fill_fn option \<Rightarrow> 'w \<Rightarrow>
   (pd_receiver_session_result \<times> pd_receiver_session option \<times> 'w) option" where
  "pd_receiver_session_create session now_ms ttl_ms random_fill w =
     (case (session, random_fill) of
        (Some s0, Some fill) \<Rightarrow>
          if ttl_ms = 0 then Some (PD_RECEIVER_SESSION_INVALID_ARGUMENT, session, w)
          else do {
            s \<leftarrow> pd_receiver_session_reset s0;
            if - 1 - now_ms < ttl_ms then Some (PD_RECEIVER_SESSION_CLOCK_OVERFLOW, Some s, w)
            else (case fill w PD_SESSION_ENTROPY_BYTES of (ok, entropy, w') \<Rightarrow>
              if \<not> ok then do {
                _ \<leftarrow> pd_secure_zero (Some entropy) PD_SESSION_ENTROPY_BYTES;
                Some (PD_RECEIVER_SESSION_ENTROPY_FAILURE, Some s, w') }
              else do {
                token \<leftarrow> pd_encode_hex entropy PD_SESSION_TOKEN_BYTES (rs_token s);
                secret \<leftarrow> pd_encode_hex (drop PD_SESSION_TOKEN_BYTES entropy) PD_RECEIVER_SECRET_BYTES
                            (rs_receiver_secret s);
                _ \<leftarrow> pd_secure_zero (Some entropy) PD_SESSION_ENTROPY_BYTES;
                Some (PD_RECEIVER_SESSION_OK,
                  Some (s\<lparr>rs_token := token, rs_receiver_secret := secret,
                          rs_created_at_ms := now_ms, rs_expires_at_ms := now_ms + ttl_ms,
                          rs_state := PD_RECEIVER_SESSION_WAITING\<rparr>), w') }) }
      | _ \<Rightarrow> Some (PD_RECEIVER_SESSION_INVALID_ARGUMENT, session, w))"

definition pd_receiver_session_token_matches :: "pd_receiver_session option \<Rightarrow> u8 list option \<Rightarrow> bool option" where
  "pd_receiver_session_token_matches session candidate =
     (case session of
        None \<Rightarrow> Some False
      | Some s \<Rightarrow> pd_constant_time_text_equal (rs_token s) PD_SESSION_TOKEN_HEX_CHARS candidate)"

definition pd_receiver_session_secret_matches :: "pd_receiver_session option \<Rightarrow> u8 list option \<Rightarrow> bool option" where
  "pd_receiver_session_secret_matches session candidate =
     (case session of
        None \<Rightarrow> Some False
      | Some s \<Rightarrow> pd_constant_time_text_equal (rs_receiver_secret s) PD_RECEIVER_SECRET_HEX_CHARS candidate)"

definition pd_receiver_session_expire_if_due ::
  "pd_receiver_session option \<Rightarrow> u64 \<Rightarrow> (bool \<times> pd_receiver_session option) option" where
  "pd_receiver_session_expire_if_due session now_ms =
     (case session of
        None \<Rightarrow> Some (False, None)
      | Some s \<Rightarrow>
          if rs_state s = PD_RECEIVER_SESSION_INACTIVE \<or> rs_state s = PD_RECEIVER_SESSION_CLOSED \<or>
             rs_state s = PD_RECEIVER_SESSION_EXPIRED
          then Some (False, session)
          else if now_ms < rs_expires_at_ms s then Some (False, session)
          else do {
            s' \<leftarrow> pd_receiver_session_clear_credentials s;
            Some (True, Some (s'\<lparr>rs_state := PD_RECEIVER_SESSION_EXPIRED\<rparr>)) })"

definition pd_receiver_session_begin_transfer ::
  "pd_receiver_session option \<Rightarrow> u8 list option \<Rightarrow> u64 \<Rightarrow>
   (pd_receiver_session_result \<times> pd_receiver_session option) option" where
  "pd_receiver_session_begin_transfer session candidate_token now_ms =
     (case (session, candidate_token) of
        (Some s, Some _) \<Rightarrow>
          if rs_state s \<noteq> PD_RECEIVER_SESSION_WAITING
          then Some (if rs_state s = PD_RECEIVER_SESSION_EXPIRED then PD_RECEIVER_SESSION_EXPIRED_RESULT
                     else PD_RECEIVER_SESSION_INVALID_STATE, session)
          else do {
            (expired, session') \<leftarrow> pd_receiver_session_expire_if_due session now_ms;
            if expired then Some (PD_RECEIVER_SESSION_EXPIRED_RESULT, session')
            else do {
              same \<leftarrow> pd_receiver_session_token_matches session' candidate_token;
              if \<not> same then Some (PD_RECEIVER_SESSION_TOKEN_MISMATCH, session')
              else Some (PD_RECEIVER_SESSION_OK,
                     map_option (\<lambda>s'. s'\<lparr>rs_state := PD_RECEIVER_SESSION_TRANSFERRING\<rparr>) session') } }
      | _ \<Rightarrow> Some (PD_RECEIVER_SESSION_INVALID_ARGUMENT, session))"

definition pd_receiver_session_close :: "pd_receiver_session option \<Rightarrow> pd_receiver_session option option" where
  "pd_receiver_session_close session =
     (case session of
        None \<Rightarrow> Some None
      | Some s \<Rightarrow>
          if rs_state s = PD_RECEIVER_SESSION_INACTIVE then Some session
          else do {
            s' \<leftarrow> pd_receiver_session_clear_credentials s;
            Some (Some (s'\<lparr>rs_state := PD_RECEIVER_SESSION_CLOSED\<rparr>)) })"


section \<open>Lemmas on the helpers\<close>

lemma pd_hex_digit_eq [simp]: "pd_hex_digit v = Some (hex_digit v)"
  using and_15_less [of v] by (simp add: pd_hex_digit_def hex_digit_def hex_digits_def [symmetric] rd_def)

lemma pd_encode_hex_eq:
  assumes "n \<le> length input" and "2 * n < length output"
  shows "pd_encode_hex input n output = Some (hex_of (take n input) @ 0 # drop (Suc (2 * n)) output)"
proof -
  have "(\<lambda>index m. rd input index \<bind> (\<lambda>b. pd_hex_digit (drop_bit 4 b) \<bind>
      (\<lambda>hi. wr m (index * 2) hi \<bind> (\<lambda>m. pd_hex_digit b \<bind> wr m (index * 2 + 1))))) = hex_step input"
    by (simp add: fun_eq_iff hex_step_def)
  then have "pd_encode_hex input n output =
      wr (hex_of (take n input) @ drop (2 * n) output) (n * 2) 0"
    using assms by (simp add: pd_encode_hex_def hex_loop)
  moreover have "drop (2 * n) output = output ! (2 * n) # drop (Suc (2 * n)) output"
    using assms(2) by (simp add: Cons_nth_drop_Suc)
  ultimately show ?thesis
    using assms by (simp add: wr_def min_def mult.commute list_update_append)
qed

text \<open>The comparison without early exit decides equality of the two texts.\<close>

lemma pd_constant_time_text_equal_eq:
  assumes "n \<le> length e" and "0 \<in> set c"
  shows "pd_constant_time_text_equal e n (Some c) = Some (c_str c = take n e)"
proof (cases "length (c_str c) = n")
  case True
  have len: "n < length c" using assms(2) True length_c_str_less by blast
  let ?body = "\<lambda>index (difference :: u32). do { x \<leftarrow> rd e index; y \<leftarrow> rd c index;
      Some (difference OR ucast (x XOR y)) }"
  have "\<exists>d'. for_n 0 n ?body 0 = Some d' \<and> (d' = 0 \<longleftrightarrow> (0 :: u32) = 0 \<and> (\<forall>j < n. ucast (e ! j XOR c ! j) = (0 :: u32)))"
    by (rule or_loop) (use assms(1) len in \<open>simp add: mem_simps\<close>)
  moreover have "ucast (x :: u8) = (0 :: u32) \<longleftrightarrow> x = 0" for x
    using bit_imp_le_length [of x] by (fastforce simp: bit_eq_iff bit_simps)
  ultimately obtain d' where d': "for_n 0 n ?body 0 = Some d'" "d' = 0 \<longleftrightarrow> (\<forall>j < n. e ! j = c ! j)"
    by (auto simp: xor_zero_iff)
  have "(\<forall>j < n. e ! j = c ! j) \<longleftrightarrow> c_str c = take n e"
    using assms(1) True by (auto simp: list_eq_iff_nth_eq c_str_nth)
  with d' show ?thesis
    using assms(2) True by (simp add: pd_constant_time_text_equal_def strlen_def)
next
  case False
  then show ?thesis using assms by (auto simp: pd_constant_time_text_equal_def strlen_def min_def split: if_splits)
qed

lemma pd_receiver_session_reset_eq:
  assumes "length (rs_token s) = 33" and "length (rs_receiver_secret s) = 65"
  shows "pd_receiver_session_reset s = Some (s\<lparr>rs_token := replicate 33 0, rs_receiver_secret := replicate 65 0,
    rs_created_at_ms := 0, rs_expires_at_ms := 0, rs_state := PD_RECEIVER_SESSION_INACTIVE\<rparr>)"
  by (simp add: pd_receiver_session_reset_def assms)

lemma pd_receiver_session_clear_credentials_eq:
  assumes "length (rs_token s) = 33" and "length (rs_receiver_secret s) = 65"
  shows "pd_receiver_session_clear_credentials s =
    Some (s\<lparr>rs_token := replicate 33 0, rs_receiver_secret := replicate 65 0\<rparr>)"
  by (simp add: pd_receiver_session_clear_credentials_def assms)

section \<open>The invariant\<close>

text \<open>A session is live while a sender may use its credentials.\<close>

definition session_live :: "pd_receiver_session \<Rightarrow> bool" where
  "session_live s \<longleftrightarrow> rs_state s = PD_RECEIVER_SESSION_WAITING \<or> rs_state s = PD_RECEIVER_SESSION_TRANSFERRING"

definition session_object :: "pd_receiver_session \<Rightarrow> bool" where
  "session_object s \<longleftrightarrow> length (rs_token s) = 33 \<and> length (rs_receiver_secret s) = 65"

text \<open>A live session holds two hexadecimal credentials and expires after it was created; any
  other session holds only zero bytes where credentials were.\<close>

definition session_inv :: "pd_receiver_session \<Rightarrow> bool" where
  "session_inv s \<longleftrightarrow>
     (if session_live s
      then (\<exists>t k. lower_hex 32 t \<and> lower_hex 64 k \<and> rs_token s = t @ [0] \<and> rs_receiver_secret s = k @ [0]) \<and>
           rs_created_at_ms s < rs_expires_at_ms s
      else rs_token s = replicate 33 0 \<and> rs_receiver_secret s = replicate 65 0)"

lemma session_inv_object: "session_inv s \<Longrightarrow> session_object s"
  by (auto simp: session_inv_def session_object_def lower_hex_def split: if_splits)

definition session_created :: "pd_receiver_session \<Rightarrow> u64 \<Rightarrow> u64 \<Rightarrow> u8 list \<Rightarrow> pd_receiver_session" where
  "session_created s now ttl entropy = s\<lparr>
     rs_token := hex_of (take 16 entropy) @ [0],
     rs_receiver_secret := hex_of (drop 16 entropy) @ [0],
     rs_created_at_ms := now, rs_expires_at_ms := now + ttl, rs_state := PD_RECEIVER_SESSION_WAITING\<rparr>"

definition session_blank :: "pd_receiver_session \<Rightarrow> pd_receiver_session" where
  "session_blank s = s\<lparr>rs_token := replicate 33 0, rs_receiver_secret := replicate 65 0,
     rs_created_at_ms := 0, rs_expires_at_ms := 0, rs_state := PD_RECEIVER_SESSION_INACTIVE\<rparr>"

lemma session_inv_blank: "session_inv (session_blank s)"
  by (simp add: session_inv_def session_blank_def session_live_def)

lemma overflow_iff:
  fixes now ttl :: u64
  shows "- 1 - now < ttl \<longleftrightarrow> 2 ^ 64 \<le> unat now + unat ttl"
proof -
  have "unat (- 1 - now) = unat (- 1 :: u64) - unat now"
    by (rule unat_sub) (simp add: word_order.extremum)
  moreover have "unat (- 1 :: u64) = 2 ^ 64 - 1"
    by (simp add: unsigned_minus_1_eq_mask mask_eq_exp_minus_1)
  moreover have "unat now < 2 ^ 64"
    using unsigned_less [of now, where ?'a = nat] by simp
  ultimately show ?thesis by (simp add: word_less_nat_alt) linarith
qed

lemma no_wrap_less:
  fixes now ttl :: u64
  assumes "ttl \<noteq> 0" and "\<not> - 1 - now < ttl"
  shows "now < now + ttl" and "unat (now + ttl) = unat now + unat ttl"
proof -
  show s: "unat (now + ttl) = unat now + unat ttl"
    using assms(2) by (simp add: overflow_iff unat_word_ariths)
  show "now < now + ttl"
    using assms(1) by (simp add: word_less_nat_alt s unat_gt_0)
qed

context random_source
begin

text \<open>Creation on every branch, for a well-formed session object.\<close>

lemma create_eq:
  assumes "session_object s" and "ttl \<noteq> 0"
  shows "pd_receiver_session_create (Some s) now ttl (Some random_fill) w =
    (if - 1 - now < ttl then Some (PD_RECEIVER_SESSION_CLOCK_OVERFLOW, Some (session_blank s), w)
     else (case random_fill w 48 of (ok, entropy, w') \<Rightarrow>
       Some (if ok then (PD_RECEIVER_SESSION_OK, Some (session_created s now ttl entropy), w')
             else (PD_RECEIVER_SESSION_ENTROPY_FAILURE, Some (session_blank s), w'))))"
proof -
  have r: "pd_receiver_session_reset s = Some (session_blank s)"
    using assms(1) by (simp add: pd_receiver_session_reset_eq session_object_def session_blank_def)
  obtain ok entropy w' where f: "random_fill w 48 = (ok, entropy, w')"
    by (cases "random_fill w 48") auto
  have len: "length entropy = 48" by (rule fills_buffer [OF f])
  have t: "pd_encode_hex entropy 16 (rs_token (session_blank s)) = Some (hex_of (take 16 entropy) @ [0])"
    by (simp add: pd_encode_hex_eq len session_blank_def)
  have k: "pd_encode_hex (drop 16 entropy) 32 (rs_receiver_secret (session_blank s)) =
      Some (hex_of (drop 16 entropy) @ [0])"
    by (simp add: pd_encode_hex_eq len session_blank_def)
  show ?thesis
    using assms(2) by (simp add: pd_receiver_session_create_def r f t k len)
      (simp add: session_created_def session_blank_def)
qed

lemma created_inv:
  assumes "session_object s" and "ttl \<noteq> 0" and "\<not> - 1 - now < ttl"
    and "random_fill w 48 = (ok, entropy, w')"
  shows "session_inv (session_created s now ttl entropy)"
proof -
  have len: "length entropy = 48" by (rule fills_buffer [OF assms(4)])
  have "lower_hex 32 (hex_of (take 16 entropy))" "lower_hex 64 (hex_of (drop 16 entropy))"
    using lower_hex_hex_of [of "take 16 entropy"] lower_hex_hex_of [of "drop 16 entropy"] len by simp_all
  then show ?thesis
    using no_wrap_less(1) [OF assms(2,3)]
    by (auto simp: session_inv_def session_created_def session_live_def)
qed

lemma create_inv:
  assumes "session_object s" and "session_inv s \<or> ttl \<noteq> 0"
    and "pd_receiver_session_create (Some s) now ttl (Some random_fill) w = Some (r, Some s', w')"
  shows "session_inv s'"
proof (cases "ttl = 0")
  case True
  then show ?thesis using assms by (simp add: pd_receiver_session_create_def)
next
  case False
  obtain ok entropy w'' where f: "random_fill w 48 = (ok, entropy, w'')"
    by (cases "random_fill w 48") auto
  show ?thesis
    using assms(3) created_inv [OF assms(1) False _ f] session_inv_blank
    by (auto simp: create_eq [OF assms(1) False] f split: if_splits)
qed

end


section \<open>Runs\<close>

text \<open>
  One call on a session object, with its result where the call has one, and the sessions calls
  can reach from the first creation. The clock readings are arbitrary: nothing below relies on
  them growing.
\<close>

datatype session_call =
    Created pd_receiver_session_result
  | Begun pd_receiver_session_result
  | Expiry bool
  | Closed

inductive session_step :: "'w pd_random_fill_fn \<Rightarrow> pd_receiver_session \<Rightarrow> session_call \<Rightarrow> pd_receiver_session \<Rightarrow> bool"
  for random_fill :: "'w pd_random_fill_fn" where
  create: "pd_receiver_session_create (Some s) now ttl (Some random_fill) w = Some (r, Some s', w') \<Longrightarrow>
    session_step random_fill s (Created r) s'"
| start_transfer: "0 \<in> set c \<Longrightarrow> pd_receiver_session_begin_transfer (Some s) (Some c) now = Some (r, Some s') \<Longrightarrow>
    session_step random_fill s (Begun r) s'"
| expire: "pd_receiver_session_expire_if_due (Some s) now = Some (b, Some s') \<Longrightarrow>
    session_step random_fill s (Expiry b) s'"
| close: "pd_receiver_session_close (Some s) = Some (Some s') \<Longrightarrow> session_step random_fill s Closed s'"

inductive session_reachable :: "'w pd_random_fill_fn \<Rightarrow> pd_receiver_session \<Rightarrow> bool"
  for random_fill :: "'w pd_random_fill_fn" where
  start: "session_object s \<Longrightarrow> ttl \<noteq> 0 \<Longrightarrow>
    pd_receiver_session_create (Some s) now ttl (Some random_fill) w = Some (r, Some s', w') \<Longrightarrow>
    session_reachable random_fill s'"
| step: "session_reachable random_fill s \<Longrightarrow> session_step random_fill s call s' \<Longrightarrow>
    session_reachable random_fill s'"

text \<open>The operations on a session that satisfies the invariant.\<close>

lemma clear_inv:
  assumes "session_object s" and "st \<notin> {PD_RECEIVER_SESSION_WAITING, PD_RECEIVER_SESSION_TRANSFERRING}"
  shows "\<exists>s'. pd_receiver_session_clear_credentials s = Some s' \<and>
    session_inv (s'\<lparr>rs_state := st\<rparr>)"
  using assms by (simp add: pd_receiver_session_clear_credentials_eq session_object_def session_inv_def session_live_def)

lemma expire_cases:
  assumes "session_inv s"
  shows "pd_receiver_session_expire_if_due (Some s) now =
    (if session_live s \<and> rs_expires_at_ms s \<le> now
     then Some (True, Some (s\<lparr>rs_token := replicate 33 0, rs_receiver_secret := replicate 65 0,
             rs_state := PD_RECEIVER_SESSION_EXPIRED\<rparr>))
     else Some (False, Some s))"
  using session_inv_object [OF assms]
  by (cases "rs_state s") (auto simp: pd_receiver_session_expire_if_due_def session_live_def session_object_def
    pd_receiver_session_clear_credentials_eq not_less)

lemma token_matches_eq:
  assumes "session_inv s" and "0 \<in> set c"
  shows "pd_receiver_session_token_matches (Some s) (Some c) =
    Some (session_live s \<and> c_str c = c_str (rs_token s))"
proof -
  have "length (rs_token s) = 33"
    using session_inv_object [OF assms(1)] by (simp add: session_object_def)
  then have m: "pd_receiver_session_token_matches (Some s) (Some c) = Some (c_str c = take 32 (rs_token s))"
    using assms(2) by (simp add: pd_receiver_session_token_matches_def pd_constant_time_text_equal_eq)
  show ?thesis
  proof (cases "session_live s")
    case True
    with assms(1) obtain t where "lower_hex 32 t" "rs_token s = t @ [0]"
      by (auto simp: session_inv_def)
    then show ?thesis
      using True by (auto simp: m lower_hex_def dest: lower_hex_char_nonzero)
  next
    case False
    then have "take 32 (rs_token s) = replicate 32 0"
      using assms(1) by (simp add: session_inv_def)
    moreover have "c_str c \<noteq> replicate 32 0"
      using c_str_no_nul [of c] by (metis in_set_replicate zero_neq_numeral)
    ultimately show ?thesis using False by (simp add: m)
  qed
qed

lemma begin_cases:
  assumes "session_inv s" and "0 \<in> set c"
  shows "pd_receiver_session_begin_transfer (Some s) (Some c) now = Some (
    if rs_state s = PD_RECEIVER_SESSION_EXPIRED then (PD_RECEIVER_SESSION_EXPIRED_RESULT, Some s)
    else if rs_state s \<noteq> PD_RECEIVER_SESSION_WAITING then (PD_RECEIVER_SESSION_INVALID_STATE, Some s)
    else if rs_expires_at_ms s \<le> now
    then (PD_RECEIVER_SESSION_EXPIRED_RESULT, Some (s\<lparr>rs_token := replicate 33 0,
           rs_receiver_secret := replicate 65 0, rs_state := PD_RECEIVER_SESSION_EXPIRED\<rparr>))
    else if c_str c \<noteq> c_str (rs_token s) then (PD_RECEIVER_SESSION_TOKEN_MISMATCH, Some s)
    else (PD_RECEIVER_SESSION_OK, Some (s\<lparr>rs_state := PD_RECEIVER_SESSION_TRANSFERRING\<rparr>)))"
  using expire_cases [OF assms(1), of now] token_matches_eq [OF assms]
  by (auto simp: pd_receiver_session_begin_transfer_def session_live_def)

lemma dead_inv: "st \<notin> {PD_RECEIVER_SESSION_WAITING, PD_RECEIVER_SESSION_TRANSFERRING} \<Longrightarrow>
    session_inv (s\<lparr>rs_token := replicate 33 0, rs_receiver_secret := replicate 65 0, rs_state := st\<rparr>)"
  by (simp add: session_inv_def session_live_def)

context random_source
begin

lemma step_inv: "session_step random_fill s call s' \<Longrightarrow> session_inv s \<Longrightarrow> session_inv s'"
proof (induction rule: session_step.induct)
  case (create s now ttl w r s' w')
  then show ?case using create_inv [OF session_inv_object] by blast
next
  case (start_transfer c s now r s')
  have "session_live s \<Longrightarrow> session_inv (s\<lparr>rs_state := PD_RECEIVER_SESSION_TRANSFERRING\<rparr>)"
    using start_transfer.prems by (simp add: session_inv_def session_live_def)
  then show ?case
    using start_transfer dead_inv [of PD_RECEIVER_SESSION_EXPIRED s]
    by (auto simp: begin_cases session_live_def split: if_splits)
next
  case (expire s now b s')
  then show ?case
    using dead_inv [of PD_RECEIVER_SESSION_EXPIRED s] by (auto simp: expire_cases split: if_splits)
next
  case (close s s')
  then show ?case
    using clear_inv [OF session_inv_object, of s PD_RECEIVER_SESSION_CLOSED]
    by (auto simp: pd_receiver_session_close_def split: if_splits)
qed

lemma reachable_inv: "session_reachable random_fill s \<Longrightarrow> session_inv s"
proof (induction rule: session_reachable.induct)
  case (start s ttl now w r s' w')
  then show ?case using create_inv by blast
next
  case (step s call s')
  then show ?case using step_inv by blast
qed

end


text \<open>A run is the sequence of calls made on one session object.\<close>

inductive session_run :: "'w pd_random_fill_fn \<Rightarrow> pd_receiver_session \<Rightarrow> session_call list \<Rightarrow> pd_receiver_session \<Rightarrow> bool"
  for random_fill :: "'w pd_random_fill_fn" where
  none: "session_run random_fill s [] s"
| call: "session_run random_fill s calls s' \<Longrightarrow> session_step random_fill s' c s'' \<Longrightarrow>
    session_run random_fill s (calls @ [c]) s''"

definition waiting :: "pd_receiver_session \<Rightarrow> nat" where
  "waiting s = (if rs_state s = PD_RECEIVER_SESSION_WAITING then 1 else 0)"

context random_source
begin

text \<open>A transfer consumes the waiting state, and only a successful creation gives it back.\<close>

lemma step_tokens:
  assumes "session_step random_fill s c s'" and "session_inv s"
  shows "count_list [c] (Begun PD_RECEIVER_SESSION_OK) + waiting s' \<le>
    count_list [c] (Created PD_RECEIVER_SESSION_OK) + waiting s"
  using assms
proof (induction rule: session_step.induct)
  case (create s now ttl w r s' w')
  then show ?case
    using create_eq [OF session_inv_object, of s ttl now w]
    by (cases "ttl = 0") (auto simp: pd_receiver_session_create_def [of _ _ 0] waiting_def session_blank_def
      split: if_splits prod.splits)
next
  case (start_transfer c s now r s')
  then show ?case by (auto simp: begin_cases waiting_def split: if_splits)
next
  case (expire s now b s')
  then show ?case by (auto simp: expire_cases waiting_def split: if_splits)
next
  case (close s s')
  then show ?case
    using pd_receiver_session_clear_credentials_eq [of s] session_inv_object [of s]
    by (auto simp: pd_receiver_session_close_def waiting_def session_object_def split: if_splits)
qed

lemma run_tokens:
  assumes "session_run random_fill s calls s'" and "session_inv s"
  shows "session_inv s' \<and> count_list calls (Begun PD_RECEIVER_SESSION_OK) + waiting s' \<le>
    count_list calls (Created PD_RECEIVER_SESSION_OK) + waiting s"
  using assms
proof (induction rule: session_run.induct)
  case (none s)
  then show ?case by simp
next
  case (call s calls s' c s'')
  then show ?case
    using step_inv [OF call.hyps(2)] step_tokens [OF call.hyps(2)] by (auto split: if_splits)
qed

end

section \<open>Job identifiers\<close>

definition PD_JOB_ID_BYTES :: nat where "PD_JOB_ID_BYTES = 16"
definition PD_JOB_ID_HEX_CHARS :: nat where "PD_JOB_ID_HEX_CHARS = PD_JOB_ID_BYTES * 2"
definition PD_JOB_ID_CAPACITY :: nat where "PD_JOB_ID_CAPACITY = PD_JOB_ID_HEX_CHARS + 1"

lemmas job_id_sizes [simp] = PD_JOB_ID_BYTES_def PD_JOB_ID_HEX_CHARS_def PD_JOB_ID_CAPACITY_def

datatype pd_job_id_result = PD_JOB_ID_OK | PD_JOB_ID_INVALID_ARGUMENT | PD_JOB_ID_ENTROPY_FAILURE

definition pd_job_hex_digit :: "u8 \<Rightarrow> u8 option" where
  "pd_job_hex_digit v = rd (c_lit ''0123456789abcdef'') (unat (v AND 0x0f))"

definition pd_job_id_create ::
  "u8 list option \<Rightarrow> 'w pd_random_fill_fn option \<Rightarrow> 'w \<Rightarrow> (pd_job_id_result \<times> u8 list option \<times> 'w) option" where
  "pd_job_id_create output random_fill w =
     (case (output, random_fill) of
        (Some out, Some fill) \<Rightarrow> do {
          out \<leftarrow> wr out 0 0;
          (case fill w PD_JOB_ID_BYTES of (ok, random_bytes, w') \<Rightarrow>
            if \<not> ok then Some (PD_JOB_ID_ENTROPY_FAILURE, Some out, w')
            else do {
              m \<leftarrow> for_n 0 PD_JOB_ID_BYTES (\<lambda>index m. do {
                     b \<leftarrow> rd random_bytes index;
                     hi \<leftarrow> pd_job_hex_digit (drop_bit 4 b);
                     m \<leftarrow> wr m (index * 2) hi;
                     lo \<leftarrow> pd_job_hex_digit b;
                     wr m (index * 2 + 1) lo }) out;
              m \<leftarrow> wr m PD_JOB_ID_HEX_CHARS 0;
              Some (PD_JOB_ID_OK, Some m, w') }) }
      | _ \<Rightarrow> Some (PD_JOB_ID_INVALID_ARGUMENT, output, w))"

definition pd_job_id_is_valid :: "u8 list option \<Rightarrow> bool option" where
  "pd_job_id_is_valid value =
     (case value of
        None \<Rightarrow> Some False
      | Some v \<Rightarrow> do {
          n \<leftarrow> strlen v;
          if n \<noteq> PD_JOB_ID_HEX_CHARS then Some False
          else do {
            r \<leftarrow> for_ret 0 PD_JOB_ID_HEX_CHARS (\<lambda>index u. do {
                   character \<leftarrow> rd v index;
                   let digit = (48 \<le> character \<and> character \<le> 57);
                       lower_hex = (97 \<le> character \<and> character \<le> 102)
                   in if \<not> digit \<and> \<not> lower_hex then Some (Inl False) else Some (Inr ()) }) ();
            Some (case r of Inl b \<Rightarrow> b | Inr _ \<Rightarrow> True) } })"

lemma pd_job_hex_digit_eq: "pd_job_hex_digit = pd_hex_digit"
  unfolding pd_job_hex_digit_def pd_hex_digit_def ..

lemma pd_job_id_is_valid_eq:
  assumes "0 \<in> set v"
  shows "pd_job_id_is_valid (Some v) = Some (lower_hex 32 (c_str v))"
proof -
  have body: "(\<lambda>index u. rd v index \<bind> (\<lambda>c. let digit = (48 \<le> c \<and> c \<le> 57); lower_hex = (97 \<le> c \<and> c \<le> 102)
      in if \<not> digit \<and> \<not> lower_hex then Some (Inl False) else Some (Inr ()))) = lower_hex_step v"
    by (simp add: fun_eq_iff lower_hex_step_def Let_def)
  have "pd_job_id_is_valid (Some v) = lower_hex_check (Some v) 32"
    unfolding pd_job_id_is_valid_def lower_hex_check_def option.case body
    by (cases "strlen v"; simp add: map_conv_bind_option returned_def comp_def)
  then show ?thesis by (simp add: lower_hex_check_eq assms)
qed

context random_source
begin

lemma job_id_create_eq:
  assumes "length out = 33"
  shows "pd_job_id_create (Some out) (Some random_fill) w =
    (case random_fill w 16 of (ok, bytes, w') \<Rightarrow>
       Some (if ok then (PD_JOB_ID_OK, Some (hex_of bytes @ [0]), w')
             else (PD_JOB_ID_ENTROPY_FAILURE, Some (0 # tl out), w')))"
proof -
  obtain ok bytes w' where f: "random_fill w 16 = (ok, bytes, w')"
    by (cases "random_fill w 16") auto
  have len: "length bytes = 16" by (rule fills_buffer [OF f])
  have o: "wr out 0 0 = Some (0 # tl out)"
    using assms by (cases out) (simp_all add: wr_def)
  have "pd_job_id_create (Some out) (Some random_fill) w = (if ok then
      pd_encode_hex bytes 16 (0 # tl out) \<bind> (\<lambda>m. Some (PD_JOB_ID_OK, Some m, w'))
      else Some (PD_JOB_ID_ENTROPY_FAILURE, Some (0 # tl out), w'))"
    by (simp add: pd_job_id_create_def pd_job_hex_digit_eq f o pd_encode_hex_def)
  also have "pd_encode_hex bytes 16 (0 # tl out) = Some (hex_of bytes @ [0])"
    using assms len by (simp add: pd_encode_hex_eq)
  finally show ?thesis by (simp add: f)
qed

end

section \<open>The advertised link\<close>

datatype pd_session_url_result =
    PD_SESSION_URL_OK
  | PD_SESSION_URL_INVALID_ARGUMENT
  | PD_SESSION_URL_SESSION_UNAVAILABLE
  | PD_SESSION_URL_BUFFER_TOO_SMALL

text \<open>
  The pointer to the required capacity may be absent; \<open>store_size\<close> is an assignment through it
  behind a test for \<^verbatim>\<open>NULL\<close>. \<open>size_max\<close> is \<^verbatim>\<open>SIZE_MAX\<close> of the target, at least 65535.
\<close>

definition store_size :: "nat option \<Rightarrow> nat \<Rightarrow> nat option" where
  "store_size p n = map_option (\<lambda>_. n) p"

definition pd_receiver_session_build_url ::
  "nat \<Rightarrow> pd_receiver_session option \<Rightarrow> u8 list option \<Rightarrow> u8 list option \<Rightarrow> nat \<Rightarrow> nat option \<Rightarrow>
   (pd_session_url_result \<times> u8 list option \<times> nat option) option" where
  "pd_receiver_session_build_url size_max session session_prefix output output_capacity required_capacity =
     (let rc = store_size required_capacity 0 in
      case (session, session_prefix, output) of
        (Some s, Some prefix, Some out) \<Rightarrow> do {
          unavailable \<leftarrow> c_or (Some (rs_state s \<noteq> PD_RECEIVER_SESSION_WAITING \<and>
                                    rs_state s \<noteq> PD_RECEIVER_SESSION_TRANSFERRING))
                             (do { c \<leftarrow> rd (rs_token s) 0; Some (c = 0) });
          if unavailable then Some (PD_SESSION_URL_SESSION_UNAVAILABLE, output, rc)
          else do {
            prefix_length \<leftarrow> strlen prefix;
            token_length \<leftarrow> strlen (rs_token s);
            if prefix_length = 0 \<or> token_length \<noteq> PD_SESSION_TOKEN_HEX_CHARS \<or>
               size_max - token_length - 1 < prefix_length
            then Some (PD_SESSION_URL_INVALID_ARGUMENT, output, rc)
            else let required = prefix_length + token_length + 1;
                     rc = store_size required_capacity required in
              if output_capacity < required
              then do {
                out \<leftarrow> (if 0 < output_capacity then wr out 0 0 else Some out);
                Some (PD_SESSION_URL_BUFFER_TOO_SMALL, Some out, rc) }
              else do {
                out \<leftarrow> memcpy out 0 prefix 0 prefix_length;
                out \<leftarrow> memcpy out prefix_length (rs_token s) 0 token_length;
                out \<leftarrow> wr out (prefix_length + token_length) 0;
                Some (PD_SESSION_URL_OK, Some out, rc) } } }
      | _ \<Rightarrow> Some (PD_SESSION_URL_INVALID_ARGUMENT, output, rc))"

lemma c_str_slice: "0 \<in> set m \<Longrightarrow> mem_slice m 0 (length (c_str m)) = Some (c_str m)"
  using length_c_str_less [of m] by (simp add: mem_slice_def)

lemma build_url_live:
  assumes "session_inv s" and "session_live s" and "0 \<in> set prefix" and "c_str prefix \<noteq> []"
    and "length (c_str prefix) + 33 \<le> size_max" and "cap \<le> length out"
  defines "url \<equiv> c_str prefix @ c_str (rs_token s)"
  shows "pd_receiver_session_build_url size_max (Some s) (Some prefix) (Some out) cap rc = Some (
    if cap < length url + 1
    then (PD_SESSION_URL_BUFFER_TOO_SMALL, Some (if cap = 0 then out else 0 # tl out), store_size rc (length url + 1))
    else (PD_SESSION_URL_OK, Some (url @ 0 # drop (length url + 1) out), store_size rc (length url + 1)))"
proof -
  from assms(1,2) obtain t where t: "lower_hex 32 t" "rs_token s = t @ [0]"
    by (auto simp: session_inv_def)
  then have nz: "0 \<notin> set t" and len: "length t = 32"
    by (auto simp: lower_hex_def dest: lower_hex_char_nonzero)
  then have first: "t ! 0 \<noteq> 0" by (metis nth_mem zero_less_numeral)
  have cs: "c_str (rs_token s) = t" "strlen (rs_token s) = Some 32"
    using nz len by (simp_all add: t(2))
  have tok: "rd (rs_token s) 0 = Some (t ! 0)" "mem_slice (rs_token s) 0 32 = Some t"
    using len by (simp_all add: t(2) rd_def nth_append)
  have pre: "strlen prefix = Some (length (c_str prefix))" "mem_slice prefix 0 (length (c_str prefix)) = Some (c_str prefix)"
    using assms(3) by (simp_all add: strlen_def c_str_slice)
  have w: "0 < cap \<Longrightarrow> wr out 0 0 = Some (0 # tl out)"
    using assms(6) by (cases out) (simp_all add: wr_def)
  have fused: "put out 0 (c_str prefix) \<bind> (\<lambda>m. put m (length (c_str prefix)) t \<bind>
      (\<lambda>m. put m (length (c_str prefix) + 32) [0] \<bind> k)) = put out 0 (c_str prefix @ t @ [0]) \<bind> k" for k
    by (simp add: mem_simps len)
  have "cap \<ge> length url + 1 \<Longrightarrow> put out 0 (c_str prefix @ t @ [0]) = Some (url @ 0 # drop (length url + 1) out)"
    using assms(6) by (simp add: put_0 url_def cs(1) len add.commute)
  then show ?thesis
    using assms(2,4,5) first w
    by (auto simp: pd_receiver_session_build_url_def cs tok pre memcpy_def wr_put fused url_def len
      session_live_def Let_def store_size_def not_less)
qed

section \<open>Properties\<close>

text \<open>A random source for the witnesses: it counts its calls and hands out that counter.\<close>

definition counting_fill :: "u8 pd_random_fill_fn" where
  "counting_fill w n = (True, replicate n w, w + 1)"

lemma counting_fill_source: "random_source counting_fill"
  by unfold_locales (simp add: counting_fill_def)

definition fresh_session :: pd_receiver_session where
  "fresh_session = \<lparr>rs_token = replicate 33 7, rs_receiver_secret = replicate 65 7,
     rs_created_at_ms = 9, rs_expires_at_ms = 9, rs_state = PD_RECEIVER_SESSION_CLOSED\<rparr>"

lemma fresh_session_object: "session_object fresh_session"
  by (simp add: session_object_def fresh_session_def)

lemma fresh_created_reachable: "session_reachable counting_fill (session_created fresh_session 5 10 (replicate 48 171))"
proof (rule session_reachable.start [OF fresh_session_object, of 10])
  show "pd_receiver_session_create (Some fresh_session) 5 10 (Some counting_fill) 171 =
      Some (PD_RECEIVER_SESSION_OK, Some (session_created fresh_session 5 10 (replicate 48 171)), 172)"
    using random_source.create_eq [OF counting_fill_source fresh_session_object, of 10 5 171]
    by (simp add: counting_fill_def word_less_def)
qed simp

text \<open>C23: Creating a session never reads or writes out of bounds. With a zero lifetime it is refused
  and nothing changes; a lifetime that would carry the expiry past the 64-bit clock is refused before
  any entropy is drawn; a failing random source leaves a blank session; otherwise the token and the
  secret are the hexadecimal text of the first 16 and the other 32 random bytes, and the expiry is the
  true sum of the clock and the lifetime.\<close>

theorem session_create_correct:
  assumes "random_source random_fill" and "session_object s"
  shows "pd_receiver_session_create (Some s) now ttl (Some random_fill) w =
    (if ttl = 0 then Some (PD_RECEIVER_SESSION_INVALID_ARGUMENT, Some s, w)
     else if 2 ^ 64 \<le> unat now + unat ttl
     then Some (PD_RECEIVER_SESSION_CLOCK_OVERFLOW, Some (session_blank s), w)
     else (case random_fill w 48 of (ok, entropy, w') \<Rightarrow>
       Some (if ok then (PD_RECEIVER_SESSION_OK, Some (session_created s now ttl entropy), w')
             else (PD_RECEIVER_SESSION_ENTROPY_FAILURE, Some (session_blank s), w'))))"
proof (cases "ttl = 0")
  case True
  then show ?thesis by (simp add: pd_receiver_session_create_def)
next
  case False
  then show ?thesis
    using random_source.create_eq [OF assms False] by (simp add: overflow_iff)
qed

theorem session_create_correct_witness:
  "pd_receiver_session_create (Some fresh_session) (- 4) 3 (Some counting_fill) 171 =
     Some (PD_RECEIVER_SESSION_OK, Some (session_created fresh_session (- 4) 3 (replicate 48 171)), 172)"
  using session_create_correct [OF counting_fill_source fresh_session_object, of "- 4" 3 171]
  by (simp add: counting_fill_def)

text \<open>C21: A session that is not waiting or transferring holds no credential: after any sequence of
  creations, transfer attempts, expiries and closings, an inactive, expired or closed session has only
  zero bytes in both credential buffers and no candidate token matches it.\<close>

theorem session_dead_has_no_credentials:
  assumes "random_source random_fill" and "session_reachable random_fill s" and "\<not> session_live s"
    and "0 \<in> set candidate"
  shows "rs_token s = replicate 33 0 \<and> rs_receiver_secret s = replicate 65 0 \<and>
    pd_receiver_session_token_matches (Some s) (Some candidate) = Some False"
  using random_source.reachable_inv [OF assms(1,2)] assms(3,4)
  by (simp add: session_inv_def token_matches_eq)

theorem session_dead_has_no_credentials_witness:
  "\<exists>s. pd_receiver_session_close (Some (session_created fresh_session 5 10 (replicate 48 171))) = Some (Some s) \<and>
     rs_token s = replicate 33 0 \<and> rs_receiver_secret s = replicate 65 0 \<and>
     pd_receiver_session_token_matches (Some s) (Some (replicate 32 97 @ [0])) = Some False"
proof -
  let ?s = "session_created fresh_session 5 10 (replicate 48 171)"
  let ?d = "?s\<lparr>rs_token := replicate 33 0, rs_receiver_secret := replicate 65 0, rs_state := PD_RECEIVER_SESSION_CLOSED\<rparr>"
  have c: "pd_receiver_session_close (Some ?s) = Some (Some ?d)"
    by (simp add: pd_receiver_session_close_def pd_receiver_session_clear_credentials_eq session_created_def)
  have "session_reachable counting_fill ?d"
    by (rule session_reachable.step [OF fresh_created_reachable session_step.close [OF c]])
  from session_dead_has_no_credentials [OF counting_fill_source this, of "replicate 32 97 @ [0]"] c
  show ?thesis by (simp add: session_live_def)
qed

text \<open>C22: A sender may start a transfer exactly when the session is waiting, has not reached its expiry
  and the presented token is the session's; on every other input the attempt is refused with the
  matching result, an expiry wipes the credentials, and nothing else changes.\<close>

theorem session_begin_transfer_exact:
  assumes "random_source random_fill" and "session_reachable random_fill s" and "0 \<in> set c"
  shows "pd_receiver_session_begin_transfer (Some s) (Some c) now = Some (
    if rs_state s = PD_RECEIVER_SESSION_EXPIRED then (PD_RECEIVER_SESSION_EXPIRED_RESULT, Some s)
    else if rs_state s \<noteq> PD_RECEIVER_SESSION_WAITING then (PD_RECEIVER_SESSION_INVALID_STATE, Some s)
    else if rs_expires_at_ms s \<le> now
    then (PD_RECEIVER_SESSION_EXPIRED_RESULT, Some (s\<lparr>rs_token := replicate 33 0,
           rs_receiver_secret := replicate 65 0, rs_state := PD_RECEIVER_SESSION_EXPIRED\<rparr>))
    else if c_str c \<noteq> c_str (rs_token s) then (PD_RECEIVER_SESSION_TOKEN_MISMATCH, Some s)
    else (PD_RECEIVER_SESSION_OK, Some (s\<lparr>rs_state := PD_RECEIVER_SESSION_TRANSFERRING\<rparr>)))"
  by (rule begin_cases [OF random_source.reachable_inv [OF assms(1,2)] assms(3)])

theorem session_begin_transfer_exact_witness:
  "let s = session_created fresh_session 5 10 (replicate 48 171) in
   pd_receiver_session_begin_transfer (Some s) (Some (hex_of (replicate 16 171) @ [0])) 14 =
     Some (PD_RECEIVER_SESSION_OK, Some (s\<lparr>rs_state := PD_RECEIVER_SESSION_TRANSFERRING\<rparr>)) \<and>
   fst (the (pd_receiver_session_begin_transfer (Some s) (Some (hex_of (replicate 16 171) @ [0])) 15)) =
     PD_RECEIVER_SESSION_EXPIRED_RESULT"
  using session_begin_transfer_exact [OF counting_fill_source fresh_created_reachable, of "hex_of (replicate 16 171) @ [0]" 14]
    session_begin_transfer_exact [OF counting_fill_source fresh_created_reachable, of "hex_of (replicate 16 171) @ [0]" 15]
  by (simp add: session_created_def word_le_def word_less_def)

text \<open>C12: A token is used once: over any run of calls on a session, transfers start at most as often as
  sessions are created (plus one if the run starts with a waiting session).\<close>

theorem session_token_single_use:
  assumes "random_source random_fill" and "session_reachable random_fill s"
    and "session_run random_fill s calls s'"
  shows "count_list calls (Begun PD_RECEIVER_SESSION_OK) \<le>
    count_list calls (Created PD_RECEIVER_SESSION_OK) + waiting s"
  using random_source.run_tokens [OF assms(1,3) random_source.reachable_inv [OF assms(1,2)]] by simp

theorem session_token_single_use_witness:
  "\<exists>s'. session_run counting_fill (session_created fresh_session 5 10 (replicate 48 171))
      [Begun PD_RECEIVER_SESSION_OK] s' \<and>
    count_list [Begun PD_RECEIVER_SESSION_OK] (Begun PD_RECEIVER_SESSION_OK) \<le>
    count_list [Begun PD_RECEIVER_SESSION_OK] (Created PD_RECEIVER_SESSION_OK) +
      waiting (session_created fresh_session 5 10 (replicate 48 171))"
proof -
  let ?s = "session_created fresh_session 5 10 (replicate 48 171)"
  let ?c = "hex_of (replicate 16 171) @ [0 :: u8]"
  let ?t = "?s\<lparr>rs_state := PD_RECEIVER_SESSION_TRANSFERRING\<rparr>"
  have inv: "session_inv ?s"
    by (rule random_source.reachable_inv [OF counting_fill_source fresh_created_reachable])
  have "pd_receiver_session_begin_transfer (Some ?s) (Some ?c) 14 = Some (PD_RECEIVER_SESSION_OK, Some ?t)"
    by (subst begin_cases [OF inv]) (simp_all add: session_created_def word_le_def word_less_def)
  then have "session_step counting_fill ?s (Begun PD_RECEIVER_SESSION_OK) ?t"
    by (intro session_step.start_transfer) simp_all
  then have run: "session_run counting_fill ?s [Begun PD_RECEIVER_SESSION_OK] ?t"
    using session_run.call [OF session_run.none] by force
  with session_token_single_use [OF counting_fill_source fresh_created_reachable run] show ?thesis by blast
qed

text \<open>C37: The link of a live session is the prefix followed by its token. When the buffer is too small
  the required size, terminator included, is still reported and the buffer holds an empty string;
  otherwise the buffer holds the terminated link. No access leaves the buffers.\<close>

theorem session_url_correct:
  assumes "session_inv s" and "session_live s" and "0 \<in> set prefix" and "c_str prefix \<noteq> []"
    and "length (c_str prefix) + 33 \<le> size_max" and "cap \<le> length out"
  shows "let url = c_str prefix @ c_str (rs_token s) in
    pd_receiver_session_build_url size_max (Some s) (Some prefix) (Some out) cap rc = Some (
      if cap < length url + 1
      then (PD_SESSION_URL_BUFFER_TOO_SMALL, Some (if cap = 0 then out else 0 # tl out), store_size rc (length url + 1))
      else (PD_SESSION_URL_OK, Some (url @ 0 # drop (length url + 1) out), store_size rc (length url + 1)))"
  unfolding Let_def by (rule build_url_live [OF assms])

theorem session_url_correct_witness:
  "pd_receiver_session_build_url 65535 (Some (session_created fresh_session 5 10 (replicate 48 171)))
     (Some (c_lit ''p/'' @ [0])) (Some (replicate 40 1)) 40 (Some 3) =
   Some (PD_SESSION_URL_OK, Some (c_lit ''p/'' @ hex_of (replicate 16 171) @ 0 # replicate 5 1), Some 35)"
proof -
  let ?s = "session_created fresh_session 5 10 (replicate 48 171)"
  have inv: "session_inv ?s"
    by (rule random_source.reachable_inv [OF counting_fill_source fresh_created_reachable])
  have t: "c_str (rs_token ?s) = hex_of (replicate 16 171)"
    using hex_of_no_nul [of "replicate 16 171"] by (simp add: session_created_def)
  have p: "c_str (c_lit ''p/'' @ [0]) = c_lit ''p/''"
    by (simp add: c_lit_def c_str_def)
  show ?thesis
    using session_url_correct [OF inv, of "c_lit ''p/'' @ [0]" 65535 40 "replicate 40 1" "Some 3"]
    unfolding p t Let_def by (simp add: session_live_def session_created_def store_size_def c_lit_def)
qed

text \<open>C38: A job identifier is the hexadecimal text of 16 random bytes, is accepted by the validator, and
  the validator accepts exactly the strings of 32 lower-case hexadecimal digits.\<close>

theorem job_id_correct:
  assumes "random_source random_fill" and "random_fill w 16 = (True, bytes, w')" and "length out = 33"
    and "0 \<in> set v"
  shows "pd_job_id_create (Some out) (Some random_fill) w = Some (PD_JOB_ID_OK, Some (hex_of bytes @ [0]), w') \<and>
    pd_job_id_is_valid (Some (hex_of bytes @ [0])) = Some True \<and>
    pd_job_id_is_valid (Some v) = Some (lower_hex 32 (c_str v))"
proof -
  have "length bytes = 16" by (rule random_source.fills_buffer [OF assms(1,2)])
  then have "lower_hex 32 (hex_of bytes)" using lower_hex_hex_of [of bytes] by simp
  then show ?thesis
    using assms(2) by (simp add: random_source.job_id_create_eq [OF assms(1,3)] pd_job_id_is_valid_eq assms(4)
      hex_of_no_nul)
qed

theorem job_id_correct_witness:
  "pd_job_id_create (Some (replicate 33 9)) (Some counting_fill) 1 =
     Some (PD_JOB_ID_OK, Some (hex_of (replicate 16 1) @ [0]), 2) \<and>
   pd_job_id_is_valid (Some (c_lit ''xyz'' @ [0])) = Some False"
  using job_id_correct [OF counting_fill_source, of 1 "replicate 16 1" 2 "replicate 33 9" "c_lit ''xyz'' @ [0]"]
  by (simp add: counting_fill_def lower_hex_def c_lit_def c_str_def)

end
