(* ===== verification/PD_Filename.thy ===== *)
theory PD_Filename
  imports PD_Prelude
begin

text \<open>
  Filename sanitisation (\<^verbatim>\<open>filename.c\<close>). The first part is the routine as written, over the
  memory model; the second states what it computes as a function on strings (\<open>sanitized\<close>)
  and shows that the routine implements it without leaving its buffers; the third proves that
  the resulting names are safe for the Windows file system and that sanitising is idempotent,
  which the file sink relies on when it re-checks the name.
\<close>

definition PD_FILENAME_MAX_BYTES :: nat where "PD_FILENAME_MAX_BYTES = 120"
definition PD_FILENAME_CAPACITY :: nat where "PD_FILENAME_CAPACITY = PD_FILENAME_MAX_BYTES + 1"

lemma PD_FILENAME_sizes [simp]: "PD_FILENAME_MAX_BYTES = 120" "PD_FILENAME_CAPACITY = 121"
  by (simp_all add: PD_FILENAME_MAX_BYTES_def PD_FILENAME_CAPACITY_def)

datatype pd_filename_result =
    PD_FILENAME_OK
  | PD_FILENAME_INVALID_ARGUMENT
  | PD_FILENAME_TOO_LONG
  | PD_FILENAME_BUFFER_TOO_SMALL

section \<open>The routine\<close>

definition pd_ascii_is_control :: "u8 \<Rightarrow> bool" where
  "pd_ascii_is_control value \<longleftrightarrow> value < 0x20 \<or> value = 0x7f"

definition pd_is_windows_forbidden :: "u8 \<Rightarrow> bool" where
  "pd_is_windows_forbidden value \<longleftrightarrow>
     value = of_char (CHR ''<'') \<or> value = of_char (CHR ''>'') \<or> value = of_char (CHR '':'') \<or>
     value = of_char (CHR 0x22) \<or> value = of_char (CHR ''/'') \<or> value = of_char (CHR 0x5C) \<or>
     value = of_char (CHR ''|'') \<or> value = of_char (CHR ''?'') \<or> value = of_char (CHR ''*'')"

definition pd_ascii_upper :: "u8 \<Rightarrow> u8" where
  "pd_ascii_upper value =
     (if of_char (CHR ''a'') \<le> value \<and> value \<le> of_char (CHR ''z'')
      then value - (of_char (CHR ''a'') - of_char (CHR ''A'')) else value)"

definition pd_ascii_equal_prefix :: "u8 list \<Rightarrow> nat \<Rightarrow> u8 list \<Rightarrow> bool option" where
  "pd_ascii_equal_prefix value value_length literal =
     (if value_length \<noteq> length literal then Some False
      else do {
        r \<leftarrow> for_ret 0 value_length (\<lambda>index u. do {
               c \<leftarrow> rd value index; l \<leftarrow> rd literal index;
               if pd_ascii_upper c \<noteq> l then Some (Inl False) else Some (Inr ()) }) ();
        Some (case r of Inl b \<Rightarrow> b | Inr _ \<Rightarrow> True) })"

text \<open>\<^verbatim>\<open>while (base_length < filename_length && filename[base_length] != '.')\<close>\<close>

function base_length_loop :: "u8 list \<Rightarrow> nat \<Rightarrow> nat \<Rightarrow> nat option" where
  "base_length_loop filename filename_length base_length =
     (if base_length < filename_length then do {
        c \<leftarrow> rd filename base_length;
        if c \<noteq> of_char (CHR ''.'') then base_length_loop filename filename_length (base_length + 1)
        else Some base_length }
      else Some base_length)"
  by pat_completeness auto
termination
  by (relation "measure (\<lambda>(filename, filename_length, base_length). filename_length - base_length)") auto

declare base_length_loop.simps [simp del]

definition pd_is_windows_reserved_device_name :: "u8 list \<Rightarrow> nat \<Rightarrow> bool option" where
  "pd_is_windows_reserved_device_name filename filename_length = do {
     base_length \<leftarrow> base_length_loop filename filename_length 0;
     named \<leftarrow> c_or (pd_ascii_equal_prefix filename base_length (c_lit ''CON''))
             (c_or (pd_ascii_equal_prefix filename base_length (c_lit ''PRN''))
             (c_or (pd_ascii_equal_prefix filename base_length (c_lit ''AUX''))
                   (pd_ascii_equal_prefix filename base_length (c_lit ''NUL''))));
     if named then Some True
     else if base_length = 4 then do {
       c0 \<leftarrow> rd filename 0; c1 \<leftarrow> rd filename 1; c2 \<leftarrow> rd filename 2; digit \<leftarrow> rd filename 3;
       let prefix0 = pd_ascii_upper c0; prefix1 = pd_ascii_upper c1; prefix2 = pd_ascii_upper c2;
           is_com = (prefix0 = of_char (CHR ''C'') \<and> prefix1 = of_char (CHR ''O'') \<and> prefix2 = of_char (CHR ''M''));
           is_lpt = (prefix0 = of_char (CHR ''L'') \<and> prefix1 = of_char (CHR ''P'') \<and> prefix2 = of_char (CHR ''T''))
       in Some ((is_com \<or> is_lpt) \<and> of_char (CHR ''1'') \<le> digit \<and> digit \<le> of_char (CHR ''9'')) }
     else Some False }"

text \<open>
  The stages of \<^verbatim>\<open>pd_filename_sanitize\<close> in its order: the replacement loop, the trimming loop,
  the fallback name, the checks and copies that produce the result, and the whole routine. The local array \<^verbatim>\<open>candidate\<close> starts out uninitialised in C; it is only read
  below \<^verbatim>\<open>target_length\<close>, where it has been written, so its initial contents do not matter
  and are zero here.
\<close>

definition sanitize_step :: "u8 list \<Rightarrow> nat \<Rightarrow> u8 list \<times> nat \<Rightarrow> (u8 list \<times> nat) option" where
  "sanitize_step input source_index st = (case st of (candidate, target_length) \<Rightarrow> do {
     value \<leftarrow> rd input source_index;
     m \<leftarrow> wr candidate target_length
            (if pd_ascii_is_control value \<or> pd_is_windows_forbidden value then of_char (CHR ''_'') else value);
     Some (m, target_length + 1) })"

fun trim_loop :: "u8 list \<Rightarrow> nat \<Rightarrow> nat option" where
  "trim_loop candidate 0 = Some 0"
| "trim_loop candidate (Suc n) = do {
     c \<leftarrow> rd candidate n;
     if c = of_char (CHR '' '') \<or> c = of_char (CHR ''.'') then trim_loop candidate n else Some (Suc n) }"

definition sanitize_fallback :: "u8 list \<Rightarrow> nat \<Rightarrow> (u8 list \<times> nat) option" where
  "sanitize_fallback candidate target_length = do {
     empty \<leftarrow> c_or (Some (target_length = 0))
             (c_or (c_and (Some (target_length = 1)) (map_option Not (rd_ne candidate 0 (of_char (CHR ''.'')))))
                   (c_and (Some (target_length = 2))
                     (c_and (map_option Not (rd_ne candidate 0 (of_char (CHR ''.''))))
                            (map_option Not (rd_ne candidate 1 (of_char (CHR ''.'')))))));
     if empty then do { m \<leftarrow> put candidate 0 (c_lit ''file''); Some (m, length ''file'') }
     else Some (candidate, target_length) }"

definition sanitize_emit ::
  "u8 list \<Rightarrow> nat \<Rightarrow> u8 list \<Rightarrow> nat \<Rightarrow> nat option \<Rightarrow>
     (pd_filename_result \<times> u8 list option \<times> nat option) option" where
  "sanitize_emit candidate target_length out output_capacity required_capacity = do {
     candidate \<leftarrow> wr candidate target_length 0;
     reserved \<leftarrow> pd_is_windows_reserved_device_name candidate target_length;
     let prefix_length = (if reserved then 1 else 0) in
     if PD_FILENAME_MAX_BYTES - prefix_length < target_length
     then Some (PD_FILENAME_TOO_LONG, Some out, map_option (\<lambda>_. 0) required_capacity)
     else
       let required = map_option (\<lambda>_. target_length + prefix_length + 1) required_capacity in
       if output_capacity < target_length + prefix_length + 1 then do {
         m \<leftarrow> (if 0 < output_capacity then wr out 0 0 else Some out);
         Some (PD_FILENAME_BUFFER_TOO_SMALL, Some m, required) }
       else do {
         m \<leftarrow> (if prefix_length \<noteq> 0 then wr out 0 (of_char (CHR ''_'')) else Some out);
         m \<leftarrow> memcpy m prefix_length candidate 0 target_length;
         m \<leftarrow> wr m (prefix_length + target_length) 0;
         Some (PD_FILENAME_OK, Some m, required) } }"

definition pd_filename_sanitize ::
  "u8 list option \<Rightarrow> u8 list option \<Rightarrow> nat \<Rightarrow> nat option \<Rightarrow>
     (pd_filename_result \<times> u8 list option \<times> nat option) option" where
  "pd_filename_sanitize input output output_capacity required_capacity =
     (case (input, output) of
        (Some inp, Some out) \<Rightarrow> do {
          input_length \<leftarrow> strlen inp;
          if PD_FILENAME_MAX_BYTES < input_length
          then Some (PD_FILENAME_TOO_LONG, output, map_option (\<lambda>_. 0) required_capacity)
          else do {
            (candidate, target_length) \<leftarrow>
              for_n 0 input_length (sanitize_step inp) (replicate PD_FILENAME_CAPACITY 0, 0);
            target_length \<leftarrow> trim_loop candidate target_length;
            (candidate, target_length) \<leftarrow> sanitize_fallback candidate target_length;
            sanitize_emit candidate target_length out output_capacity required_capacity } }
      | _ \<Rightarrow> Some (PD_FILENAME_INVALID_ARGUMENT, output, map_option (\<lambda>_. 0) required_capacity))"

section \<open>What it computes\<close>

definition clean_char :: "u8 \<Rightarrow> u8" where
  "clean_char c = (if pd_ascii_is_control c \<or> pd_is_windows_forbidden c then 95 else c)"

definition trim_right :: "u8 list \<Rightarrow> u8 list" where
  "trim_right s = rev (dropWhile (\<lambda>c. c = 32 \<or> c = 46) (rev s))"

definition base_name :: "u8 list \<Rightarrow> u8 list" where
  "base_name s = takeWhile (\<lambda>c. c \<noteq> 46) s"

definition upper_byte :: "u8 \<Rightarrow> u8" where
  "upper_byte c = (if 97 \<le> c \<and> c \<le> 122 then c - 32 else c)"

lemma pd_ascii_upper_eq: "pd_ascii_upper = upper_byte"
  by (rule ext) (simp add: pd_ascii_upper_def upper_byte_def)

definition reserved_name :: "u8 list \<Rightarrow> bool" where
  "reserved_name s \<longleftrightarrow> (let b = map upper_byte (base_name s) in
     b \<in> {c_lit ''CON'', c_lit ''PRN'', c_lit ''AUX'', c_lit ''NUL''} \<or>
     (length b = 4 \<and> (take 3 b = c_lit ''COM'' \<or> take 3 b = c_lit ''LPT'') \<and>
      49 \<le> base_name s ! 3 \<and> base_name s ! 3 \<le> 57))"

definition sanitized :: "u8 list \<Rightarrow> u8 list" where
  "sanitized s = (let t = trim_right (map clean_char s); u = (if t = [] then c_lit ''file'' else t) in
     if reserved_name u then 95 # u else u)"

subsection \<open>The loops\<close>

lemma sanitize_loop:
  assumes "n \<le> length inp" and "n < length cand"
  shows "for_n 0 n (sanitize_step inp) (cand, 0) = Some (map clean_char (take n inp) @ drop n cand, n)"
proof -
  have "\<exists>s'. for_n 0 n (sanitize_step inp) (cand, 0) = Some s' \<and>
      s' = (map clean_char (take (0 + n) inp) @ drop (0 + n) cand, 0 + n)"
    by (rule for_n_invariant [where P = "\<lambda>i s. s = (map clean_char (take i inp) @ drop i cand, i)"])
      (use assms in \<open>auto simp: sanitize_step_def mem_simps put_def clean_char_def
          take_Suc_conv_app_nth Cons_nth_drop_Suc\<close>)
  then show ?thesis by simp
qed

lemma trim_right_snoc: "trim_right (s @ [c]) = (if c = 32 \<or> c = 46 then trim_right s else s @ [c])"
  by (simp add: trim_right_def)

lemma trim_right_Nil [simp]: "trim_right [] = []"
  by (simp add: trim_right_def)

lemma trim_loop_eq: "n \<le> length m \<Longrightarrow> trim_loop m n = Some (length (trim_right (take n m)))"
  by (induction n) (auto simp: mem_simps take_Suc_conv_app_nth trim_right_snoc)

lemma length_trim_right [simp]: "length (trim_right s) \<le> length s"
  using length_dropWhile_le [of _ "rev s"] by (simp add: trim_right_def)

lemma trim_right_prefix: "trim_right s = take (length (trim_right s)) s"
  by (induction s rule: rev_induct) (auto simp: trim_right_snoc)

lemma base_length_loop_eq:
  "i \<le> n \<Longrightarrow> n \<le> length m \<Longrightarrow>
    base_length_loop m n i = Some (i + length (base_name (take (n - i) (drop i m))))"
proof (induction m n i rule: base_length_loop.induct)
  case (1 m n i)
  show ?case
  proof (cases "i < n")
    case True
    with 1 have "take (n - i) (drop i m) = m ! i # take (n - Suc i) (drop (Suc i) m)"
      by (metis Cons_nth_drop_Suc Suc_diff_Suc order_less_le_trans take_Suc_Cons)
    with True 1 show ?thesis
      by (subst base_length_loop.simps) (simp add: mem_simps base_name_def)
  next
    case False
    with 1 show ?thesis by (subst base_length_loop.simps) (simp add: base_name_def)
  qed
qed

lemma pd_ascii_equal_prefix_eq:
  assumes "n \<le> length m"
  shows "pd_ascii_equal_prefix m n lit = Some (map pd_ascii_upper (take n m) = lit)"
proof (cases "n = length lit")
  case True
  let ?body = "\<lambda>index u. do { c \<leftarrow> rd m index; l \<leftarrow> rd lit index;
      if pd_ascii_upper c \<noteq> l then Some (Inl False) else Some (Inr ()) }"
  have "for_ret 0 n ?body () =
      Some (if \<forall>j. 0 \<le> j \<and> j < 0 + n \<longrightarrow> pd_ascii_upper (m ! j) = lit ! j then Inr () else Inl False)"
    by (rule for_ret_check) (use assms True in \<open>simp add: mem_simps\<close>)
  moreover have "(\<forall>j < n. pd_ascii_upper (m ! j) = lit ! j) \<longleftrightarrow> map pd_ascii_upper (take n m) = lit"
    using assms True by (auto simp: list_eq_iff_nth_eq)
  ultimately show ?thesis using True by (simp add: pd_ascii_equal_prefix_def)
next
  case False
  then show ?thesis using assms by (auto simp: pd_ascii_equal_prefix_def)
qed

lemma base_name_take: "take (length (base_name s)) s = base_name s"
  unfolding base_name_def by (rule takeWhile_eq_take [symmetric])

lemma length_base_name: "length (base_name s) \<le> length s"
  unfolding base_name_def by (rule length_takeWhile_le)

lemma pd_is_windows_reserved_device_name_eq:
  "pd_is_windows_reserved_device_name (s @ rest) (length s) = Some (reserved_name s)"
proof -
  let ?b = "base_name s"
  have bl: "base_length_loop (s @ rest) (length s) 0 = Some (length ?b)"
    by (simp add: base_length_loop_eq)
  have pre: "pd_ascii_equal_prefix (s @ rest) (length ?b) lit = Some (map pd_ascii_upper ?b = lit)" for lit
    using length_base_name [of s] by (simp add: pd_ascii_equal_prefix_eq base_name_take)
  show ?thesis
  proof (cases "length ?b = 4")
    case True
    then obtain a b c d where abcd: "?b = [a, b, c, d]"
      by (auto simp: numeral_eq_Suc length_Suc_conv)
    have "take 4 s = [a, b, c, d]" using base_name_take [of s] by (simp only: True) (simp add: abcd)
    then obtain t where s: "s = a # b # c # d # t"
      by (metis append_take_drop_id append_Cons append_Nil)
    have named: "map pd_ascii_upper ?b \<noteq> c_lit ''CON''" "map pd_ascii_upper ?b \<noteq> c_lit ''PRN''"
        "map pd_ascii_upper ?b \<noteq> c_lit ''AUX''" "map pd_ascii_upper ?b \<noteq> c_lit ''NUL''"
      by (simp_all add: abcd c_lit_def)
    have rds: "rd (s @ rest) 0 = Some a" "rd (s @ rest) (Suc 0) = Some b" "rd (s @ rest) 2 = Some c"
        "rd (s @ rest) 3 = Some d"
      by (simp_all add: s rd_def)
    show ?thesis
      by (simp add: pd_is_windows_reserved_device_name_def bl pre [unfolded True] named rds True reserved_name_def pd_ascii_upper_eq [symmetric] Let_def)
        (simp add: abcd c_lit_def)
  next
    case False
    then show ?thesis
      by (simp add: pd_is_windows_reserved_device_name_def bl pre reserved_name_def pd_ascii_upper_eq [symmetric] Let_def)
  qed
qed

lemma trim_right_last: "trim_right s \<noteq> [] \<Longrightarrow> last (trim_right s) \<noteq> 32 \<and> last (trim_right s) \<noteq> 46"
  by (induction s rule: rev_induct) (auto simp: trim_right_snoc)

text \<open>
  The tests for the names \<^verbatim>\<open>.\<close> and \<^verbatim>\<open>..\<close> in the routine can never succeed: they come after the
  trailing dots have been removed.
\<close>

lemma trimmed_not_dots:
  assumes "t = trim_right s"
  shows "\<not> (length t = 1 \<and> t ! 0 = 46)" and "\<not> (length t = 2 \<and> t ! 0 = 46 \<and> t ! 1 = 46)"
  using trim_right_last [of s] assms by (cases "trim_right s = []"; auto simp: last_conv_nth)+

lemma sanitize_fallback_eq:
  assumes t: "t = trim_right s" and len: "length t + length r = 121"
  shows "\<exists>r'. sanitize_fallback (t @ r) (length t) =
      Some ((if t = [] then c_lit ''file'' else t) @ r', length (if t = [] then c_lit ''file'' else t)) \<and>
    length (if t = [] then c_lit ''file'' else t) + length r' = 121"
proof -
  have "rd_ne (t @ r) i 46 = Some ((t @ r) ! i \<noteq> 46)" if "i < 2" for i
    using that len by (intro rd_ne_Some) simp
  then have "c_or (Some (length t = 0)) (c_or (c_and (Some (length t = 1)) (map_option Not (rd_ne (t @ r) 0 46)))
      (c_and (Some (length t = 2)) (c_and (map_option Not (rd_ne (t @ r) 0 46)) (map_option Not (rd_ne (t @ r) 1 46)))))
      = Some (t = [])"
    using trimmed_not_dots [OF t] by (auto simp: nth_append)
  then show ?thesis
    using len by (auto simp: sanitize_fallback_def put_def)
qed

lemma sanitize_emit_eq:
  fixes u r :: "u8 list"
  defines "v \<equiv> (if reserved_name u then 95 # u else u)"
  assumes len: "length u + length r = 121" "length u \<le> 120" and cap: "cap \<le> length out"
  shows "sanitize_emit (u @ r) (length u) out cap req = Some
    (if 120 < length v then (PD_FILENAME_TOO_LONG, Some out, map_option (\<lambda>_. 0) req)
     else if cap < length v + 1
     then (PD_FILENAME_BUFFER_TOO_SMALL, Some (if 0 < cap then 0 # drop 1 out else out),
           map_option (\<lambda>_. length v + 1) req)
     else (PD_FILENAME_OK, Some (v @ 0 # drop (length v + 1) out), map_option (\<lambda>_. length v + 1) req))"
proof -
  have nul: "put (u @ r) (length u) [0] = Some (u @ 0 # tl r)"
    using len by (cases r) (simp_all add: put_def)
  have slice: "mem_slice (u @ 0 # tl r) 0 (length u) = Some u" by simp
  have wrote: "put out 0 [95] \<bind> (\<lambda>m. put m (Suc 0) u \<bind> (\<lambda>m. put m (Suc (length u)) [0] \<bind> k)) =
      put out 0 (95 # u @ [0]) \<bind> k"
    "put out 0 u \<bind> (\<lambda>m. put m (length u) [0] \<bind> k) = put out 0 (u @ [0]) \<bind> k"
    for k :: "u8 list \<Rightarrow> (pd_filename_result \<times> u8 list option \<times> nat option) option"
    by (simp_all add: put_put_bind)
  have fill: "put out 0 (95 # u @ [0]) = Some (95 # u @ 0 # drop (length u + 2) out)"
    if "length u + 2 \<le> length out" using that by (simp add: put_def)
  have fill': "put out 0 (u @ [0]) = Some (u @ 0 # drop (length u + 1) out)"
    if "length u + 1 \<le> length out" using that by (simp add: put_def)
  have first: "put out 0 [0] = Some (0 # drop 1 out)" if "0 < cap"
    using that cap by (simp add: put_def)
  show ?thesis
    using cap fill fill' first
    by (cases "reserved_name u")
      (simp_all add: sanitize_emit_def nul pd_is_windows_reserved_device_name_eq memcpy_def slice wr_put
        wrote v_def Let_def)
qed

subsection \<open>The routine computes \<open>sanitized\<close>\<close>

text \<open>
  Its result on a terminated input and an output buffer of at least the stated capacity: never
  undefined, and in each case exactly these values.
\<close>

lemma pd_filename_sanitize_eq:
  assumes nul: "0 \<in> set inp" and cap: "cap \<le> length out"
  shows "pd_filename_sanitize (Some inp) (Some out) cap req = Some
    (let s = c_str inp; t = sanitized s in
     if 120 < length s \<or> 120 < length t then (PD_FILENAME_TOO_LONG, Some out, map_option (\<lambda>_. 0) req)
     else if cap < length t + 1
     then (PD_FILENAME_BUFFER_TOO_SMALL, Some (if 0 < cap then 0 # drop 1 out else out),
           map_option (\<lambda>_. length t + 1) req)
     else (PD_FILENAME_OK, Some (t @ 0 # drop (length t + 1) out), map_option (\<lambda>_. length t + 1) req))"
proof (cases "120 < length (c_str inp)")
  case True
  then show ?thesis using nul by (simp add: pd_filename_sanitize_def strlen_def)
next
  case False
  define s where "s = c_str inp"
  define t where "t = trim_right (map clean_char s)"
  have n: "length s \<le> 120" and take: "take (length s) inp = s" and lt: "length s < length inp"
    using False length_c_str_less [OF nul] by (simp_all add: s_def)
  have loop: "for_n 0 (length s) (sanitize_step inp) (replicate 121 0, 0) =
      Some (map clean_char s @ replicate (121 - length s) 0, length s)"
    using n lt by (simp add: sanitize_loop take)
  have trim: "trim_loop (map clean_char s @ replicate (121 - length s) 0) (length s) = Some (length t)"
    by (subst trim_loop_eq) (simp_all add: t_def)
  obtain w where w: "map clean_char s @ replicate (121 - length s) 0 = t @ w"
    by (metis append.assoc append_take_drop_id t_def trim_right_prefix)
  have "length (t @ w) = 121" using n by (simp add: w [symmetric])
  then have "length t + length w = 121" by simp
  from sanitize_fallback_eq [OF t_def this] obtain u r where
    fb: "sanitize_fallback (t @ w) (length t) = Some (u @ r, length u)" and ur: "length u + length r = 121"
    and u: "u = (if t = [] then c_lit ''file'' else t)" by blast
  have lu: "length u \<le> 120"
    using n length_trim_right [of "map clean_char s"] by (auto simp: u t_def intro: order_trans)
  have san: "sanitized s = (if reserved_name u then 95 # u else u)"
    by (simp add: sanitized_def Let_def t_def u)
  show ?thesis
    using nul n trim fb unfolding w
    by (simp add: pd_filename_sanitize_def strlen_def s_def [symmetric] loop w
        sanitize_emit_eq [OF ur lu cap] Let_def san)
qed

section \<open>Safe names\<close>

text \<open>
  A name that the Windows file system takes as one path component with no special meaning: it
  has no control or forbidden character (so no path separator, no drive or stream colon and no
  NUL), does not end in a space or dot, and is not a device name.
\<close>

definition windows_name_byte :: "u8 \<Rightarrow> bool" where
  "windows_name_byte c \<longleftrightarrow> 32 \<le> c \<and> c \<noteq> 127 \<and> c \<notin> set (c_lit [CHR 0x22, CHR ''*'', CHR ''/'', CHR '':'', CHR ''<'', CHR ''>'', CHR ''?'', CHR 0x5C, CHR ''|''])"

definition safe_name :: "u8 list \<Rightarrow> bool" where
  "safe_name s \<longleftrightarrow> s \<noteq> [] \<and> length s \<le> PD_FILENAME_MAX_BYTES \<and>
     (\<forall>c \<in> set s. windows_name_byte c) \<and>
     last s \<noteq> 32 \<and> last s \<noteq> 46 \<and> \<not> reserved_name s"

lemma windows_name_byte_iff: "windows_name_byte c \<longleftrightarrow> \<not> pd_ascii_is_control c \<and> \<not> pd_is_windows_forbidden c"
  by (auto simp: windows_name_byte_def pd_ascii_is_control_def pd_is_windows_forbidden_def c_lit_def)

lemma clean_char_clean: "\<not> pd_ascii_is_control (clean_char c) \<and> \<not> pd_is_windows_forbidden (clean_char c)"
  by (simp add: clean_char_def pd_ascii_is_control_def pd_is_windows_forbidden_def)

lemma set_trim_right: "set (trim_right s) \<subseteq> set s"
  unfolding trim_right_def by (auto dest: set_dropWhileD)

lemma not_reserved_prefixed: "\<not> reserved_name (95 # u)"
  by (simp add: reserved_name_def pd_ascii_upper_eq [symmetric] base_name_def Let_def pd_ascii_upper_def c_lit_def)

lemma file_safe: "safe_name (c_lit ''file'')"
  by (simp add: safe_name_def windows_name_byte_iff c_lit_def pd_ascii_is_control_def pd_is_windows_forbidden_def
      reserved_name_def base_name_def pd_ascii_upper_def)

lemma sanitized_safe:
  assumes "length (sanitized s) \<le> 120"
  shows "safe_name (sanitized s)"
proof -
  define t where "t = trim_right (map clean_char s)"
  have clean: "\<forall>c \<in> set t. \<not> pd_ascii_is_control c \<and> \<not> pd_is_windows_forbidden c"
    using set_trim_right [of "map clean_char s"] clean_char_clean by (force simp: t_def)
  show ?thesis
  proof (cases "t = []")
    case True
    then have "sanitized s = c_lit ''file''"
      using file_safe by (simp add: sanitized_def t_def safe_name_def windows_name_byte_iff)
    then show ?thesis by (simp add: file_safe)
  next
    case False
    then have "last t \<noteq> 32" "last t \<noteq> 46"
      using trim_right_last [of "map clean_char s"] by (simp_all add: t_def)
    then show ?thesis
      using assms False clean not_reserved_prefixed
      by (auto simp: sanitized_def t_def [symmetric] Let_def safe_name_def windows_name_byte_iff pd_ascii_is_control_def
          pd_is_windows_forbidden_def)
  qed
qed

lemma trim_right_id: "s \<noteq> [] \<Longrightarrow> last s \<noteq> 32 \<Longrightarrow> last s \<noteq> 46 \<Longrightarrow> trim_right s = s"
  by (cases s rule: rev_cases) (auto simp: trim_right_snoc)

lemma sanitized_id: "safe_name s \<Longrightarrow> sanitized s = s"
proof -
  assume a: "safe_name s"
  then have "map clean_char s = s"
    by (intro map_idI) (simp add: safe_name_def windows_name_byte_iff clean_char_def)
  with a show ?thesis
    by (simp add: sanitized_def trim_right_id safe_name_def)
qed

lemma safe_name_no_nul: "safe_name s \<Longrightarrow> 0 \<notin> set s"
  by (auto simp: safe_name_def windows_name_byte_iff pd_ascii_is_control_def)

text \<open>C11: On any terminated input, with an output buffer of at least the stated capacity,
  sanitising never accesses memory outside its buffers, and it succeeds only with a safe name
  (one path component without forbidden characters, not a device name, at most 120 bytes),
  terminated inside the buffer, reporting its exact size.\<close>

theorem filename_sanitize_safe:
  assumes "0 \<in> set inp" and "cap \<le> length out"
  shows "\<exists>result out' req'.
    pd_filename_sanitize (Some inp) (Some out) cap req = Some (result, Some out', req') \<and>
    length out' = length out \<and>
    (result = PD_FILENAME_OK \<longrightarrow>
       safe_name (c_str out') \<and> length (c_str out') < cap \<and>
       req' = map_option (\<lambda>_. length (c_str out') + 1) req)"
proof -
  have "safe_name (sanitized (c_str inp)) \<and> c_str (sanitized (c_str inp) @ 0 # r) = sanitized (c_str inp)"
    if "length (sanitized (c_str inp)) \<le> 120" for r
    using sanitized_safe [OF that] safe_name_no_nul by simp
  then show ?thesis
    using assms by (simp add: pd_filename_sanitize_eq Let_def) auto
qed

theorem filename_sanitize_safe_witness:
  "\<exists>result out' req'.
    pd_filename_sanitize (Some (c_lit ''a/b'' @ [0])) (Some (replicate 8 1)) 8 (Some 0) =
      Some (result, Some out', req') \<and>
    length out' = length (replicate 8 (1 :: u8)) \<and>
    (result = PD_FILENAME_OK \<longrightarrow>
       safe_name (c_str out') \<and> length (c_str out') < 8 \<and>
       req' = map_option (\<lambda>_. length (c_str out') + 1) (Some (0 :: nat)))"
  by (rule filename_sanitize_safe) simp_all

text \<open>Sanitising is idempotent: the name it produced, given to it again, is accepted
  unchanged (the file sink re-sanitises and compares before it builds a path).\<close>

lemma filename_sanitize_idempotent:
  assumes "0 \<in> set inp" and "cap \<le> length out"
    and "pd_filename_sanitize (Some inp) (Some out) cap req = Some (PD_FILENAME_OK, Some out1, req1)"
    and "121 \<le> length buf"
  shows "\<exists>out2. pd_filename_sanitize (Some out1) (Some buf) 121 None = Some (PD_FILENAME_OK, Some out2, None) \<and>
    c_str out2 = c_str out1"
proof -
  define t where "t = sanitized (c_str inp)"
  from assms(1-3) have t: "length t \<le> 120" and out1: "out1 = t @ 0 # drop (length t + 1) out"
    by (auto simp: pd_filename_sanitize_eq Let_def t_def split: if_splits)
  have safe: "safe_name t" using t unfolding t_def by (rule sanitized_safe)
  then have "c_str out1 = t" "0 \<in> set out1" "sanitized t = t" "0 \<notin> set t"
    by (simp_all add: out1 safe_name_no_nul sanitized_id)
  then show ?thesis
    using t assms(4) by (simp add: pd_filename_sanitize_eq Let_def)
qed

end
