(* ===== verification/PD_Wire.thy ===== *)
theory PD_Wire
  imports PD_Prelude
begin

unbundle bit_operations_syntax

text \<open>
  The wire vocabulary: the message types (\<^verbatim>\<open>protocol.c\<close>), the big-endian field accessors that
  \<^verbatim>\<open>frame.c\<close>, \<^verbatim>\<open>file_begin.c\<close> and \<^verbatim>\<open>ack.c\<close> each carry, and the frame header codec (\<^verbatim>\<open>frame.c\<close>).

  A C enum object can hold values outside its enumerators, and this code relies on that: it
  casts an unchecked byte to \<^verbatim>\<open>pd_message_type\<close> and validates it afterwards. The message type
  is therefore kept as the 32-bit integer it is, with the enumerators as named values, and
  \<^verbatim>\<open>(uint8_t)header->type\<close> is the truncation \<open>ucast\<close>.
\<close>

section \<open>protocol.h, protocol.c\<close>

type_synonym pd_message_type = u32

definition PD_MSG_HELLO :: pd_message_type where "PD_MSG_HELLO = 1"
definition PD_MSG_JOB :: pd_message_type where "PD_MSG_JOB = 2"
definition PD_MSG_FILE_BEGIN :: pd_message_type where "PD_MSG_FILE_BEGIN = 3"
definition PD_MSG_CHUNK :: pd_message_type where "PD_MSG_CHUNK = 4"
definition PD_MSG_FILE_END :: pd_message_type where "PD_MSG_FILE_END = 5"
definition PD_MSG_ACK :: pd_message_type where "PD_MSG_ACK = 6"
definition PD_MSG_ERROR :: pd_message_type where "PD_MSG_ERROR = 7"

lemmas PD_MSG_defs = PD_MSG_HELLO_def PD_MSG_JOB_def PD_MSG_FILE_BEGIN_def PD_MSG_CHUNK_def
  PD_MSG_FILE_END_def PD_MSG_ACK_def PD_MSG_ERROR_def

definition PD_PROTOCOL_VERSION :: u8 where "PD_PROTOCOL_VERSION = 1"

definition pd_message_type_is_valid :: "u8 \<Rightarrow> bool" where
  "pd_message_type_is_valid value \<longleftrightarrow> ucast PD_MSG_HELLO \<le> value \<and> value \<le> ucast PD_MSG_ERROR"

definition pd_message_type_name :: "pd_message_type \<Rightarrow> string" where
  "pd_message_type_name type =
     (if type = PD_MSG_HELLO then ''HELLO''
      else if type = PD_MSG_JOB then ''JOB''
      else if type = PD_MSG_FILE_BEGIN then ''FILE_BEGIN''
      else if type = PD_MSG_CHUNK then ''CHUNK''
      else if type = PD_MSG_FILE_END then ''FILE_END''
      else if type = PD_MSG_ACK then ''ACK''
      else if type = PD_MSG_ERROR then ''ERROR''
      else ''UNKNOWN'')"

lemma pd_message_type_is_valid_iff: "pd_message_type_is_valid v \<longleftrightarrow> 1 \<le> v \<and> v \<le> 7"
  by (simp add: pd_message_type_is_valid_def PD_MSG_defs)

section \<open>Big-endian fields\<close>

definition pd_write_u16_be :: "u8 list \<Rightarrow> nat \<Rightarrow> u16 \<Rightarrow> u8 list option" where
  "pd_write_u16_be output off value = do {
     m \<leftarrow> wr output off (ucast (drop_bit 8 value));
     wr m (off + 1) (ucast value) }"

definition pd_write_u32_be :: "u8 list \<Rightarrow> nat \<Rightarrow> u32 \<Rightarrow> u8 list option" where
  "pd_write_u32_be output off value = do {
     m \<leftarrow> wr output off (ucast (drop_bit 24 value));
     m \<leftarrow> wr m (off + 1) (ucast (drop_bit 16 value));
     m \<leftarrow> wr m (off + 2) (ucast (drop_bit 8 value));
     wr m (off + 3) (ucast value) }"

definition pd_write_u64_be :: "u8 list \<Rightarrow> nat \<Rightarrow> u64 \<Rightarrow> u8 list option" where
  "pd_write_u64_be output off value = do {
     m \<leftarrow> wr output off (ucast (drop_bit 56 value));
     m \<leftarrow> wr m (off + 1) (ucast (drop_bit 48 value));
     m \<leftarrow> wr m (off + 2) (ucast (drop_bit 40 value));
     m \<leftarrow> wr m (off + 3) (ucast (drop_bit 32 value));
     m \<leftarrow> wr m (off + 4) (ucast (drop_bit 24 value));
     m \<leftarrow> wr m (off + 5) (ucast (drop_bit 16 value));
     m \<leftarrow> wr m (off + 6) (ucast (drop_bit 8 value));
     wr m (off + 7) (ucast value) }"

definition pd_read_u16_be :: "u8 list \<Rightarrow> nat \<Rightarrow> u16 option" where
  "pd_read_u16_be input off = do {
     b0 \<leftarrow> rd input off; b1 \<leftarrow> rd input (off + 1);
     Some (push_bit 8 (ucast b0) OR ucast b1) }"

definition pd_read_u32_be :: "u8 list \<Rightarrow> nat \<Rightarrow> u32 option" where
  "pd_read_u32_be input off = do {
     b0 \<leftarrow> rd input off; b1 \<leftarrow> rd input (off + 1);
     b2 \<leftarrow> rd input (off + 2); b3 \<leftarrow> rd input (off + 3);
     Some (push_bit 24 (ucast b0) OR push_bit 16 (ucast b1) OR push_bit 8 (ucast b2) OR ucast b3) }"

definition pd_read_u64_be :: "u8 list \<Rightarrow> nat \<Rightarrow> u64 option" where
  "pd_read_u64_be input off = do {
     b0 \<leftarrow> rd input off; b1 \<leftarrow> rd input (off + 1);
     b2 \<leftarrow> rd input (off + 2); b3 \<leftarrow> rd input (off + 3);
     b4 \<leftarrow> rd input (off + 4); b5 \<leftarrow> rd input (off + 5);
     b6 \<leftarrow> rd input (off + 6); b7 \<leftarrow> rd input (off + 7);
     Some (push_bit 56 (ucast b0) OR push_bit 48 (ucast b1) OR push_bit 40 (ucast b2) OR
           push_bit 32 (ucast b3) OR push_bit 24 (ucast b4) OR push_bit 16 (ucast b5) OR
           push_bit 8 (ucast b6) OR ucast b7) }"

subsection \<open>The byte sequences they denote\<close>

definition be16 :: "u16 \<Rightarrow> u8 list" where
  "be16 v = [ucast (drop_bit 8 v), ucast v]"

definition be32 :: "u32 \<Rightarrow> u8 list" where
  "be32 v = [ucast (drop_bit 24 v), ucast (drop_bit 16 v), ucast (drop_bit 8 v), ucast v]"

definition be64 :: "u64 \<Rightarrow> u8 list" where
  "be64 v = [ucast (drop_bit 56 v), ucast (drop_bit 48 v), ucast (drop_bit 40 v),
     ucast (drop_bit 32 v), ucast (drop_bit 24 v), ucast (drop_bit 16 v),
     ucast (drop_bit 8 v), ucast v]"

lemma length_be [simp]: "length (be16 a) = 2" "length (be32 b) = 4" "length (be64 c) = 8"
  by (simp_all add: be16_def be32_def be64_def)

lemma pd_write_u16_be_put [mem_simps]: "pd_write_u16_be out off v = put out off (be16 v)"
  by (simp add: pd_write_u16_be_def be16_def mem_simps)

lemma pd_write_u32_be_put [mem_simps]: "pd_write_u32_be out off v = put out off (be32 v)"
  by (simp add: pd_write_u32_be_def be32_def mem_simps)

lemma pd_write_u64_be_put [mem_simps]: "pd_write_u64_be out off v = put out off (be64 v)"
  by (simp add: pd_write_u64_be_def be64_def mem_simps)

subsection \<open>Reading back what was written\<close>

lemma be16_join: "push_bit 8 (ucast (ucast (drop_bit 8 v) :: u8)) OR ucast (ucast v :: u8) = (v :: u16)"
  by (rule bit_word_eqI) (simp add: bit_or_iff bit_byte_of bit_low_byte_of, linarith)

lemma be32_join:
  "push_bit 24 (ucast (ucast (drop_bit 24 v) :: u8)) OR push_bit 16 (ucast (ucast (drop_bit 16 v) :: u8))
   OR push_bit 8 (ucast (ucast (drop_bit 8 v) :: u8)) OR ucast (ucast v :: u8) = (v :: u32)"
  by (rule bit_word_eqI) (simp add: bit_or_iff bit_byte_of bit_low_byte_of, linarith)

lemma be64_join:
  "push_bit 56 (ucast (ucast (drop_bit 56 v) :: u8)) OR push_bit 48 (ucast (ucast (drop_bit 48 v) :: u8))
   OR push_bit 40 (ucast (ucast (drop_bit 40 v) :: u8)) OR push_bit 32 (ucast (ucast (drop_bit 32 v) :: u8))
   OR push_bit 24 (ucast (ucast (drop_bit 24 v) :: u8)) OR push_bit 16 (ucast (ucast (drop_bit 16 v) :: u8))
   OR push_bit 8 (ucast (ucast (drop_bit 8 v) :: u8)) OR ucast (ucast v :: u8) = (v :: u64)"
  by (rule bit_word_eqI) (simp add: bit_or_iff bit_byte_of bit_low_byte_of, linarith)

lemma rd_append_right: "off = length pre + i \<Longrightarrow> i < length xs \<Longrightarrow> rd (pre @ xs @ post) off = Some (xs ! i)"
  by (simp add: rd_def nth_append)

lemma rd_append_right0: "off = length pre \<Longrightarrow> 0 < length xs \<Longrightarrow> rd (pre @ xs @ post) off = Some (xs ! 0)"
  by (rule rd_append_right) simp_all

lemma pd_read_u16_be_at [be_simps]:
  "off = length pre \<Longrightarrow> pd_read_u16_be (pre @ be16 v @ post) off = Some v"
  by (simp add: pd_read_u16_be_def rd_append_right rd_append_right0) (simp add: be16_def be16_join)

lemma pd_read_u32_be_at [be_simps]:
  "off = length pre \<Longrightarrow> pd_read_u32_be (pre @ be32 v @ post) off = Some v"
  by (simp add: pd_read_u32_be_def rd_append_right rd_append_right0) (simp add: be32_def be32_join)

lemma pd_read_u64_be_at [be_simps]:
  "off = length pre \<Longrightarrow> pd_read_u64_be (pre @ be64 v @ post) off = Some v"
  by (simp add: pd_read_u64_be_def rd_append_right rd_append_right0) (simp add: be64_def be64_join)

subsection \<open>Writing back what was read\<close>

lemma be16_split: "be16 (push_bit 8 (ucast a) OR ucast b) = [a, b]"
  unfolding be16_def by (intro arg_cong2 [where f = Cons] refl; rule bit_word_eqI;
    auto simp: bit_simps dest: bit_imp_le_length)

lemma be32_split:
  "be32 (push_bit 24 (ucast a) OR push_bit 16 (ucast b) OR push_bit 8 (ucast c) OR ucast d) = [a, b, c, d]"
  unfolding be32_def by (intro arg_cong2 [where f = Cons] refl; rule bit_word_eqI;
    auto simp: bit_simps dest: bit_imp_le_length)

lemma be64_split:
  "be64 (push_bit 56 (ucast a) OR push_bit 48 (ucast b) OR push_bit 40 (ucast c) OR push_bit 32 (ucast d) OR
     push_bit 24 (ucast e) OR push_bit 16 (ucast f) OR push_bit 8 (ucast g) OR ucast h) =
   [a, b, c, d, e, f, g, h]"
  unfolding be64_def by (intro arg_cong2 [where f = Cons] refl; rule bit_word_eqI;
    auto simp: bit_simps dest: bit_imp_le_length)

lemma be16_inject: "be16 v = be16 w \<longleftrightarrow> v = w"
  by (metis pd_read_u16_be_at option.inject)

lemma be32_inject: "be32 v = be32 w \<longleftrightarrow> v = w"
  by (metis pd_read_u32_be_at option.inject)

lemma be64_inject: "be64 v = be64 w \<longleftrightarrow> v = w"
  by (metis pd_read_u64_be_at option.inject)

lemma be16_eq_iff: "be16 v = [a, b] \<longleftrightarrow> v = push_bit 8 (ucast a) OR ucast b"
  unfolding be16_split [symmetric] be16_inject ..

lemma be32_eq_iff:
  "be32 v = [a, b, c, d] \<longleftrightarrow>
     v = push_bit 24 (ucast a) OR push_bit 16 (ucast b) OR push_bit 8 (ucast c) OR ucast d"
  unfolding be32_split [symmetric] be32_inject ..

lemma be64_eq_iff:
  "be64 v = [a, b, c, d, e, f, g, h] \<longleftrightarrow>
     v = push_bit 56 (ucast a) OR push_bit 48 (ucast b) OR push_bit 40 (ucast c) OR push_bit 32 (ucast d) OR
       push_bit 24 (ucast e) OR push_bit 16 (ucast f) OR push_bit 8 (ucast g) OR ucast h"
  unfolding be64_split [symmetric] be64_inject ..

lemma mem_slice_upt: "off + n \<le> length m \<Longrightarrow> mem_slice m off n = Some (map (\<lambda>i. m ! (off + i)) [0..<n])"
  by (auto simp: mem_slice_def intro: nth_equalityI)

lemma upt_small: "[0..<2] = [0, 1::nat]" "[0..<4] = [0, 1, 2, 3::nat]"
    "[0..<8] = [0, 1, 2, 3, 4, 5, 6, 7::nat]"
  by code_simp+

lemma be16_of_read: "pd_read_u16_be m off = Some v \<Longrightarrow> mem_slice m off 2 = Some (be16 v)"
  by (auto simp: pd_read_u16_be_def rd_def bind_eq_Some_conv be16_split mem_slice_upt upt_small
      split: if_splits)

lemma be32_of_read: "pd_read_u32_be m off = Some v \<Longrightarrow> mem_slice m off 4 = Some (be32 v)"
  by (auto simp: pd_read_u32_be_def rd_def bind_eq_Some_conv be32_split mem_slice_upt upt_small
      split: if_splits)

lemma be64_of_read: "pd_read_u64_be m off = Some v \<Longrightarrow> mem_slice m off 8 = Some (be64 v)"
  by (auto simp: pd_read_u64_be_def rd_def bind_eq_Some_conv be64_split mem_slice_upt upt_small
      split: if_splits)

lemma pd_read_defined:
  "off + 2 \<le> length m \<Longrightarrow> \<exists>v. pd_read_u16_be m off = Some v"
  "off + 4 \<le> length m \<Longrightarrow> \<exists>v. pd_read_u32_be m off = Some v"
  "off + 8 \<le> length m \<Longrightarrow> \<exists>v. pd_read_u64_be m off = Some v"
  by (simp_all add: pd_read_u16_be_def pd_read_u32_be_def pd_read_u64_be_def rd_def)

end
