(* ===== verification/PD_Frame.thy ===== *)
theory PD_Frame
  imports PD_Wire
begin

unbundle bit_operations_syntax

text \<open>
  The 12-byte frame header codec of \<^verbatim>\<open>frame.c\<close>: \<^verbatim>\<open>PDRP\<close>, the version, the message type, the
  flags and the payload length. \<open>frame_wire\<close> is the layout as one byte sequence; the encoder
  is shown to produce it and the decoder to accept exactly the images of valid headers.
\<close>

definition PD_FRAME_HEADER_SIZE :: nat where "PD_FRAME_HEADER_SIZE = 12"
definition PD_FRAME_MAX_PAYLOAD :: nat where "PD_FRAME_MAX_PAYLOAD = 1024 * 1024"

lemma PD_FRAME_HEADER_SIZE_12 [simp]: "PD_FRAME_HEADER_SIZE = 12"
  by (simp add: PD_FRAME_HEADER_SIZE_def)

lemma PD_FRAME_MAX_PAYLOAD_val [simp]: "PD_FRAME_MAX_PAYLOAD = 1048576"
  by (simp add: PD_FRAME_MAX_PAYLOAD_def)

datatype pd_frame_result =
    PD_FRAME_OK
  | PD_FRAME_INVALID_ARGUMENT
  | PD_FRAME_BAD_MAGIC
  | PD_FRAME_UNSUPPORTED_VERSION
  | PD_FRAME_INVALID_TYPE
  | PD_FRAME_UNSUPPORTED_FLAGS
  | PD_FRAME_PAYLOAD_TOO_LARGE

record pd_frame_header =
  fh_type :: pd_message_type
  fh_flags :: u16
  fh_payload_length :: u32

definition PD_MAGIC_0 :: u8 where "PD_MAGIC_0 = 0x50"
definition PD_MAGIC_1 :: u8 where "PD_MAGIC_1 = 0x44"
definition PD_MAGIC_2 :: u8 where "PD_MAGIC_2 = 0x52"
definition PD_MAGIC_3 :: u8 where "PD_MAGIC_3 = 0x50"

lemmas PD_MAGIC_defs = PD_MAGIC_0_def PD_MAGIC_1_def PD_MAGIC_2_def PD_MAGIC_3_def

definition pd_frame_encode_header ::
  "pd_frame_header option \<Rightarrow> u8 list option \<Rightarrow> (pd_frame_result \<times> u8 list option) option" where
  "pd_frame_encode_header header output =
     (case (header, output) of
        (Some h, Some out) \<Rightarrow>
          if \<not> pd_message_type_is_valid (ucast (fh_type h))
          then Some (PD_FRAME_INVALID_TYPE, output)
          else if fh_flags h \<noteq> 0
          then Some (PD_FRAME_UNSUPPORTED_FLAGS, output)
          else if word_of_nat PD_FRAME_MAX_PAYLOAD < fh_payload_length h
          then Some (PD_FRAME_PAYLOAD_TOO_LARGE, output)
          else do {
            m \<leftarrow> wr out 0 PD_MAGIC_0;
            m \<leftarrow> wr m 1 PD_MAGIC_1;
            m \<leftarrow> wr m 2 PD_MAGIC_2;
            m \<leftarrow> wr m 3 PD_MAGIC_3;
            m \<leftarrow> wr m 4 PD_PROTOCOL_VERSION;
            m \<leftarrow> wr m 5 (ucast (fh_type h));
            m \<leftarrow> pd_write_u16_be m 6 (fh_flags h);
            m \<leftarrow> pd_write_u32_be m 8 (fh_payload_length h);
            Some (PD_FRAME_OK, Some m) }
      | _ \<Rightarrow> Some (PD_FRAME_INVALID_ARGUMENT, output))"

definition pd_frame_decode_header ::
  "u8 list option \<Rightarrow> pd_frame_header option \<Rightarrow> (pd_frame_result \<times> pd_frame_header option) option" where
  "pd_frame_decode_header input header =
     (case (input, header) of
        (Some inp, Some _) \<Rightarrow> do {
          bad_magic \<leftarrow> c_or (rd_ne inp 0 PD_MAGIC_0) (c_or (rd_ne inp 1 PD_MAGIC_1)
                       (c_or (rd_ne inp 2 PD_MAGIC_2) (rd_ne inp 3 PD_MAGIC_3)));
          if bad_magic then Some (PD_FRAME_BAD_MAGIC, header) else do {
          version \<leftarrow> rd inp 4;
          if version \<noteq> PD_PROTOCOL_VERSION then Some (PD_FRAME_UNSUPPORTED_VERSION, header) else do {
          type \<leftarrow> rd inp 5;
          if \<not> pd_message_type_is_valid type then Some (PD_FRAME_INVALID_TYPE, header) else do {
          flags \<leftarrow> pd_read_u16_be inp 6;
          if flags \<noteq> 0 then Some (PD_FRAME_UNSUPPORTED_FLAGS, header) else do {
          payload_length \<leftarrow> pd_read_u32_be inp 8;
          if word_of_nat PD_FRAME_MAX_PAYLOAD < payload_length
          then Some (PD_FRAME_PAYLOAD_TOO_LARGE, header)
          else Some (PD_FRAME_OK, Some \<lparr>fh_type = ucast type, fh_flags = flags,
                                        fh_payload_length = payload_length\<rparr>) }}}}}
      | _ \<Rightarrow> Some (PD_FRAME_INVALID_ARGUMENT, header))"

section \<open>The header layout\<close>

text \<open>A header the codec carries: a message type of the vocabulary, no flags, a bounded length.\<close>

definition frame_header_valid :: "pd_frame_header \<Rightarrow> bool" where
  "frame_header_valid h \<longleftrightarrow>
     1 \<le> fh_type h \<and> fh_type h \<le> 7 \<and> fh_flags h = 0 \<and> unat (fh_payload_length h) \<le> PD_FRAME_MAX_PAYLOAD"

definition frame_wire :: "pd_frame_header \<Rightarrow> u8 list" where
  "frame_wire h = [0x50, 0x44, 0x52, 0x50, 1, ucast (fh_type h)] @ be16 (fh_flags h) @
     be32 (fh_payload_length h)"

lemma length_frame_wire [simp]: "length (frame_wire h) = 12"
  by (simp add: frame_wire_def)

lemma max_payload_less_iff: "word_of_nat PD_FRAME_MAX_PAYLOAD < (w :: u32) \<longleftrightarrow> PD_FRAME_MAX_PAYLOAD < unat w"
  by (simp add: word_less_nat_alt unat_of_nat)

lemma ucast_small:
  fixes t :: u32
  assumes "unat t < 256"
  shows "unat (ucast t :: u8) = unat t" and "ucast (ucast t :: u8) = t"
proof -
  show "unat (ucast t :: u8) = unat t"
    using assms by (simp add: unsigned_ucast_eq take_bit_nat_eq_self)
  then show "ucast (ucast t :: u8) = t"
    by (simp add: word_unat_eq_iff unsigned_ucast_eq unsigned_take_bit_eq take_bit_nat_eq_self assms)
qed

lemma valid_type_iff:
  fixes t :: u32
  assumes "unat t < 256"
  shows "pd_message_type_is_valid (ucast t) \<longleftrightarrow> 1 \<le> t \<and> t \<le> 7"
  by (simp add: pd_message_type_is_valid_iff word_le_nat_alt ucast_small [OF assms])

text \<open>What the encoder accepts: it looks at the message type through its low byte only.\<close>

definition frame_encodable :: "pd_frame_header \<Rightarrow> bool" where
  "frame_encodable h \<longleftrightarrow>
     (ucast (fh_type h) :: u8) \<in> {1..7} \<and> fh_flags h = 0 \<and>
     unat (fh_payload_length h) \<le> PD_FRAME_MAX_PAYLOAD"

lemma frame_encodable_iff: "frame_encodable h \<longleftrightarrow> pd_message_type_is_valid (ucast (fh_type h)) \<and> fh_flags h = 0 \<and>
    unat (fh_payload_length h) \<le> PD_FRAME_MAX_PAYLOAD"
  by (simp only: frame_encodable_def pd_message_type_is_valid_iff atLeastAtMost_iff)

lemma frame_header_valid_encodable: "frame_header_valid h \<Longrightarrow> frame_encodable h"
  unfolding frame_header_valid_def frame_encodable_iff
  by (subst valid_type_iff) (auto simp: word_le_nat_alt)

lemma frame_encodable_valid:
  "unat (fh_type h) < 256 \<Longrightarrow> frame_encodable h \<longleftrightarrow> frame_header_valid h"
  by (simp add: frame_header_valid_def frame_encodable_iff valid_type_iff)

lemma pd_frame_encode_header_wire:
  assumes "frame_encodable h" and "12 \<le> length out"
  shows "pd_frame_encode_header (Some h) (Some out) = Some (PD_FRAME_OK, Some (frame_wire h @ drop 12 out))"
  using assms
  by (simp add: pd_frame_encode_header_def frame_encodable_iff max_payload_less_iff mem_simps
      frame_wire_def PD_MAGIC_defs PD_PROTOCOL_VERSION_def del: PD_FRAME_MAX_PAYLOAD_val)
    (simp add: put_0)

lemma pd_frame_encode_header_reject:
  assumes "\<not> frame_encodable h"
  shows "\<exists>r. r \<noteq> PD_FRAME_OK \<and> pd_frame_encode_header (Some h) (Some out) = Some (r, Some out)"
  using assms
  by (auto simp: pd_frame_encode_header_def frame_encodable_iff max_payload_less_iff
      simp del: PD_FRAME_MAX_PAYLOAD_val)

section \<open>The decoder\<close>

lemma pd_frame_decode_header_bytes:
  fixes b0 b1 b2 b3 b4 b5 b6 b7 b8 b9 b10 b11 :: u8
  defines "f \<equiv> push_bit 8 (ucast b6) OR ucast b7 :: u16"
    and "l \<equiv> push_bit 24 (ucast b8) OR push_bit 16 (ucast b9) OR push_bit 8 (ucast b10) OR ucast b11 :: u32"
  shows "pd_frame_decode_header
      (Some (b0 # b1 # b2 # b3 # b4 # b5 # b6 # b7 # b8 # b9 # b10 # b11 # rest)) (Some h0) = Some
     (if [b0, b1, b2, b3] \<noteq> [0x50, 0x44, 0x52, 0x50] then (PD_FRAME_BAD_MAGIC, Some h0)
      else if b4 \<noteq> 1 then (PD_FRAME_UNSUPPORTED_VERSION, Some h0)
      else if \<not> pd_message_type_is_valid b5 then (PD_FRAME_INVALID_TYPE, Some h0)
      else if f \<noteq> 0 then (PD_FRAME_UNSUPPORTED_FLAGS, Some h0)
      else if PD_FRAME_MAX_PAYLOAD < unat l then (PD_FRAME_PAYLOAD_TOO_LARGE, Some h0)
      else (PD_FRAME_OK, Some \<lparr>fh_type = ucast b5, fh_flags = f, fh_payload_length = l\<rparr>))"
proof -
  have reads: "pd_read_u16_be (c0 # c1 # c2 # c3 # c4 # c5 # b6 # b7 # xs) 6 = Some f"
    "pd_read_u32_be (c0 # c1 # c2 # c3 # c4 # c5 # c6 # c7 # b8 # b9 # b10 # b11 # xs) 8 = Some l"
    for c0 c1 c2 c3 c4 c5 c6 c7 :: u8 and xs
    by (simp_all add: f_def l_def pd_read_u16_be_def pd_read_u32_be_def rd_def)
  show ?thesis
    by (simp add: pd_frame_decode_header_def reads mem_simps PD_MAGIC_defs PD_PROTOCOL_VERSION_def
        max_payload_less_iff del: PD_FRAME_MAX_PAYLOAD_val)
qed

lemma valid_byte_type:
  "pd_message_type_is_valid b \<and> t = ucast b \<longleftrightarrow> b = ucast (t :: u32) \<and> 1 \<le> t \<and> t \<le> 7" for b :: u8
proof -
  have "ucast (ucast b :: u32) = b"
    by (rule bit_word_eqI) (simp add: bit_simps)
  moreover have "unat (ucast b :: u32) < 256"
    using unsigned_less [of b, where ?'a = nat] by (simp add: unsigned_ucast_eq take_bit_nat_eq_self)
  ultimately show ?thesis
    using valid_type_iff [of t] ucast_small [of t] by (auto simp: word_le_nat_alt)
qed

lemma pd_frame_decode_header_ok_iff:
  assumes "12 \<le> length inp"
  shows "pd_frame_decode_header (Some inp) (Some h0) = Some (PD_FRAME_OK, Some h) \<longleftrightarrow>
    frame_header_valid h \<and> take 12 inp = frame_wire h"
proof -
  obtain b0 b1 b2 b3 b4 b5 b6 b7 b8 b9 b10 b11 rest
    where inp: "inp = b0 # b1 # b2 # b3 # b4 # b5 # b6 # b7 # b8 # b9 # b10 # b11 # rest"
    using assms by (rule length_ge_12)
  obtain t f l where h: "h = \<lparr>fh_type = t, fh_flags = f, fh_payload_length = l\<rparr>"
    by (cases h)
  define F :: u16 where "F = push_bit 8 (ucast b6) OR ucast b7"
  define L :: u32 where
    "L = push_bit 24 (ucast b8) OR push_bit 16 (ucast b9) OR push_bit 8 (ucast b10) OR ucast b11"
  have be: "be16 f = [b6, b7] \<longleftrightarrow> f = F" "be32 l = [b8, b9, b10, b11] \<longleftrightarrow> l = L"
    unfolding F_def L_def by (rule be16_eq_iff, rule be32_eq_iff)
  have "take 12 inp = [b0, b1, b2, b3, b4, b5] @ [b6, b7] @ [b8, b9, b10, b11]"
    by (simp add: inp)
  then have wire: "take 12 inp = frame_wire h \<longleftrightarrow> [b0, b1, b2, b3] = [0x50, 0x44, 0x52, 0x50] \<and> b4 = 1 \<and>
      b5 = ucast t \<and> f = F \<and> l = L"
    unfolding be [symmetric] by (simp add: h frame_wire_def be16_def be32_def) blast
  have dec: "pd_frame_decode_header (Some inp) (Some h0) = Some (PD_FRAME_OK, Some h) \<longleftrightarrow>
      [b0, b1, b2, b3] = [0x50, 0x44, 0x52, 0x50] \<and> b4 = 1 \<and> pd_message_type_is_valid b5 \<and> F = 0 \<and>
      unat L \<le> PD_FRAME_MAX_PAYLOAD \<and> t = ucast b5 \<and> f = F \<and> l = L"
    unfolding inp h pd_frame_decode_header_bytes F_def [symmetric] L_def [symmetric] by auto
  show ?thesis
    unfolding wire dec using valid_byte_type [of b5 t] by (auto simp: frame_header_valid_def h)
qed

end
