(* ===== verification/PD_Integrity.thy ===== *)
theory PD_Integrity
  imports PD_Hex
begin

unbundle bit_operations_syntax

text \<open>
  SHA-256 digests as the program handles them (\<^verbatim>\<open>integrity.c\<close>): the comparison that never exits
  early, and the conversion from and to hexadecimal text.
\<close>

definition PD_SHA256_BYTES :: nat where "PD_SHA256_BYTES = 32"
definition PD_SHA256_HEX_CHARS :: nat where "PD_SHA256_HEX_CHARS = PD_SHA256_BYTES * 2"

lemma PD_SHA256_sizes [simp]: "PD_SHA256_BYTES = 32" "PD_SHA256_HEX_CHARS = 64"
  by (simp_all add: PD_SHA256_BYTES_def PD_SHA256_HEX_CHARS_def)

datatype pd_integrity_status = PD_INTEGRITY_OK | PD_INTEGRITY_ERROR

datatype pd_digest_result = PD_DIGEST_OK | PD_DIGEST_INVALID_ARGUMENT | PD_DIGEST_INVALID_HEX

definition pd_hex_value :: "u8 \<Rightarrow> int" where
  "pd_hex_value character =
     (if 48 \<le> character \<and> character \<le> 57 then uint character - 48
      else if 97 \<le> character \<and> character \<le> 102 then 10 + (uint character - 97)
      else if 65 \<le> character \<and> character \<le> 70 then 10 + (uint character - 65)
      else - 1)"

definition pd_digest_equal :: "u8 list option \<Rightarrow> u8 list option \<Rightarrow> bool option" where
  "pd_digest_equal left right =
     (case (left, right) of
        (Some l, Some r) \<Rightarrow> do {
          difference \<leftarrow> for_n 0 PD_SHA256_BYTES
            (\<lambda>index difference. do {
               a \<leftarrow> rd l index; b \<leftarrow> rd r index;
               Some (difference OR (a XOR b)) }) (0 :: u8);
          Some (difference = 0) }
      | _ \<Rightarrow> Some False)"

definition from_hex_step ::
  "u8 list \<Rightarrow> nat \<Rightarrow> u8 list \<Rightarrow> ((pd_digest_result \<times> u8 list) + u8 list) option" where
  "from_hex_step hex index digest = do {
     hc \<leftarrow> rd hex (index * 2);
     lc \<leftarrow> rd hex (index * 2 + 1);
     let high = pd_hex_value hc; low = pd_hex_value lc in
     if high < 0 \<or> low < 0 then Some (Inl (PD_DIGEST_INVALID_HEX, digest))
     else map_option Inr
       (wr digest index (ucast (push_bit 4 (word_of_int high :: u32) OR word_of_int low))) }"

definition pd_sha256_from_hex ::
  "u8 list option \<Rightarrow> u8 list option \<Rightarrow> (pd_digest_result \<times> u8 list option) option" where
  "pd_sha256_from_hex hex digest =
     (case (hex, digest) of
        (Some h, Some d) \<Rightarrow> do {
          n \<leftarrow> strlen h;
          if n \<noteq> PD_SHA256_HEX_CHARS then Some (PD_DIGEST_INVALID_HEX, digest)
          else do {
            r \<leftarrow> for_ret 0 PD_SHA256_BYTES (from_hex_step h) d;
            case r of Inl (e, d') \<Rightarrow> Some (e, Some d') | Inr d' \<Rightarrow> Some (PD_DIGEST_OK, Some d') } }
      | _ \<Rightarrow> Some (PD_DIGEST_INVALID_ARGUMENT, digest))"

definition to_hex_step :: "u8 list \<Rightarrow> nat \<Rightarrow> u8 list \<Rightarrow> u8 list option" where
  "to_hex_step digest index output = do {
     b \<leftarrow> rd digest index;
     hi \<leftarrow> rd (c_lit ''0123456789abcdef'') (unat (drop_bit 4 b));
     m \<leftarrow> wr output (index * 2) hi;
     lo \<leftarrow> rd (c_lit ''0123456789abcdef'') (unat (b AND 0x0f));
     wr m (index * 2 + 1) lo }"

definition pd_sha256_to_hex :: "u8 list option \<Rightarrow> u8 list option \<Rightarrow> u8 list option option" where
  "pd_sha256_to_hex digest output =
     (case (digest, output) of
        (Some d, Some out) \<Rightarrow> do {
          m \<leftarrow> for_n 0 PD_SHA256_BYTES (to_hex_step d) out;
          m \<leftarrow> wr m PD_SHA256_HEX_CHARS 0;
          Some (Some m) }
      | _ \<Rightarrow> Some output)"

section \<open>Comparison\<close>

text \<open>The comparison decides equality of the two 32-byte digests.\<close>

lemma pd_digest_equal_iff:
  assumes "32 \<le> length l" and "32 \<le> length r"
  shows "pd_digest_equal (Some l) (Some r) = Some (take 32 l = take 32 r)"
proof -
  let ?body = "\<lambda>index difference. do { a \<leftarrow> rd l index; b \<leftarrow> rd r index; Some (difference OR (a XOR b)) }"
  obtain d where d: "for_n 0 32 ?body (0 :: u8) = Some d" "d = 0 \<longleftrightarrow> (\<forall>j < 32. l ! j XOR r ! j = 0)"
    using or_loop [of 32 ?body "\<lambda>j. l ! j XOR r ! j" "0 :: u8"] assms by (auto simp: mem_simps)
  have "(\<forall>j < 32. l ! j XOR r ! j = 0) \<longleftrightarrow> take 32 l = take 32 r"
    using assms by (auto simp: list_eq_iff_nth_eq xor_zero_iff)
  with d show ?thesis by (simp add: pd_digest_equal_def)
qed

section \<open>Hexadecimal text\<close>

text \<open>The high digit is looked up without a mask: a byte shifted right by four is below 16.\<close>

lemma to_hex_step_eq: "to_hex_step digest = hex_step digest"
proof -
  have "drop_bit 4 b AND 0x0f = drop_bit 4 b" for b :: u8
    by (rule bit_eqI) (auto simp: mask_15 bit_simps dest: bit_imp_le_length)
  then have "rd (c_lit ''0123456789abcdef'') (unat (drop_bit 4 b)) = Some (hex_digit (drop_bit 4 b))"
    "rd (c_lit ''0123456789abcdef'') (unat (b AND 0x0f)) = Some (hex_digit b)" for b
    using and_15_less [of "drop_bit 4 b"] and_15_less [of b]
    by (simp_all add: hex_digit_def hex_digits_def [symmetric] rd_def)
  then show ?thesis by (simp add: fun_eq_iff to_hex_step_def hex_step_def)
qed

lemma pd_sha256_to_hex_eq:
  assumes "length d = 32" and "65 \<le> length out"
  shows "pd_sha256_to_hex (Some d) (Some out) = Some (Some (hex_of d @ 0 # drop 65 out))"
  using assms by (simp add: pd_sha256_to_hex_def to_hex_step_eq hex_loop mem_simps put_def)

lemma pd_hex_value_digit: "pd_hex_value (hex_digit v) = uint (v AND 0x0f)"
proof -
  have "list_all (\<lambda>n. pd_hex_value (hex_digits ! n) = int n) [0..<16]"
    by code_simp
  then have "\<forall>n < 16. pd_hex_value (hex_digits ! n) = int n"
    by (simp add: list_all_iff)
  then have "pd_hex_value (hex_digits ! unat (v AND 0x0f)) = int (unat (v AND 0x0f))"
    using and_15_less [of v] by blast
  then show ?thesis by (simp add: hex_digit_def)
qed

lemma hex_byte_value:
  "ucast (push_bit 4 (ucast (drop_bit 4 b AND 0x0f :: u8) :: u32) OR ucast (b AND 0x0f :: u8)) = b"
  unfolding mask_15
  by (rule bit_word_eqI) (auto simp: bit_simps)

text \<open>
  The decoder on text of 64 characters: it rejects at the first pair with a character that is
  not a hexadecimal digit of either case and otherwise fills the digest.
\<close>

definition is_hex_char :: "u8 \<Rightarrow> bool" where
  "is_hex_char c \<longleftrightarrow> (48 \<le> c \<and> c \<le> 57) \<or> (97 \<le> c \<and> c \<le> 102) \<or> (65 \<le> c \<and> c \<le> 70)"

definition hex_pair :: "u8 \<Rightarrow> u8 \<Rightarrow> u8" where
  "hex_pair h l = ucast (push_bit 4 (word_of_int (pd_hex_value h) :: u32) OR word_of_int (pd_hex_value l))"

definition unhex :: "nat \<Rightarrow> u8 list \<Rightarrow> u8 list" where
  "unhex n s = map (\<lambda>i. hex_pair (s ! (2 * i)) (s ! (2 * i + 1))) [0..<n]"

lemma pd_hex_value_neg: "pd_hex_value c < 0 \<longleftrightarrow> \<not> is_hex_char c"
proof -
  have "48 \<le> c \<Longrightarrow> 48 \<le> uint c" "97 \<le> c \<Longrightarrow> 97 \<le> uint c" "65 \<le> c \<Longrightarrow> 65 \<le> uint c"
    by (simp_all add: word_le_def)
  then show ?thesis by (auto simp: pd_hex_value_def is_hex_char_def)
qed

lemma pairs_all: "(\<forall>j < n. P (2 * j) \<and> P (2 * j + 1)) \<longleftrightarrow> (\<forall>i < 2 * n. P i)" for n :: nat
proof
  assume a: "\<forall>j < n. P (2 * j) \<and> P (2 * j + 1)"
  show "\<forall>i < 2 * n. P i"
  proof (intro allI impI)
    fix i assume "i < 2 * n"
    then have "P (2 * (i div 2)) \<and> P (2 * (i div 2) + 1)" using a by simp
    then show "P i" by (cases "even i") auto
  qed
qed auto

lemma pd_sha256_from_hex_spec:
  assumes nul: "0 \<in> set h" and d: "32 \<le> length d" and n: "length (c_str h) = 64"
  shows "if \<forall>c \<in> set (c_str h). is_hex_char c
    then pd_sha256_from_hex (Some h) (Some d) = Some (PD_DIGEST_OK, Some (unhex 32 (c_str h) @ drop 32 d))
    else \<exists>d'. pd_sha256_from_hex (Some h) (Some d) = Some (PD_DIGEST_INVALID_HEX, Some d')"
proof -
  let ?good = "\<lambda>j. is_hex_char (h ! (j * 2)) \<and> is_hex_char (h ! (j * 2 + 1))"
  let ?P = "\<lambda>i m. m = unhex i h @ drop i d"
  have len: "64 < length h" using length_c_str_less [OF nul] n by simp
  have step: "from_hex_step h j m = (if ?good j then map_option Inr (wr m j (hex_pair (h ! (j * 2)) (h ! (j * 2 + 1))))
      else Some (Inl (PD_DIGEST_INVALID_HEX, m)))" if "j < 32" for j m
    using len that by (auto simp: from_hex_step_def mem_simps hex_pair_def pd_hex_value_neg Let_def)
  have loop: "if \<forall>j. 0 \<le> j \<and> j < 0 + 32 \<longrightarrow> ?good j
    then \<exists>s'. for_ret 0 32 (from_hex_step h) d = Some (Inr s') \<and> ?P (0 + 32) s'
    else \<exists>r. for_ret 0 32 (from_hex_step h) d = Some (Inl r) \<and> fst r = PD_DIGEST_INVALID_HEX"
  proof (rule for_ret_invariant [where P = ?P])
    show "d = unhex 0 h @ drop 0 d" by (simp add: unhex_def)
  next
    fix j m
    assume j: "j < 0 + 32" and m: "?P j m" and g: "?good j"
    show "\<exists>t'. from_hex_step h j m = Some (Inr t') \<and> ?P (Suc j) t'"
      using j d g by (simp add: step m mem_simps put_def unhex_def mult.commute Cons_nth_drop_Suc)
  qed (simp add: step)
  have good: "(\<forall>j. 0 \<le> j \<and> j < 0 + 32 \<longrightarrow> ?good j) \<longleftrightarrow> (\<forall>c \<in> set (c_str h). is_hex_char c)"
    using pairs_all [of 32 "\<lambda>i. is_hex_char (h ! i)"] n
    by (simp add: all_set_conv_all_nth c_str_nth mult.commute)
  have "unhex 32 h = unhex 32 (c_str h)"
    unfolding unhex_def using n by (auto simp: c_str_nth)
  then show ?thesis
    using loop nul n unfolding good by (auto simp: pd_sha256_from_hex_def strlen_def split: if_splits)
qed

text \<open>Reading back the text that \<^verbatim>\<open>pd_sha256_to_hex\<close> writes gives the digest.\<close>

lemma hex_of_nth:
  "i < length bs \<Longrightarrow> hex_of bs ! (2 * i) = hex_digit (drop_bit 4 (bs ! i)) \<and>
    hex_of bs ! (2 * i + 1) = hex_digit (bs ! i)"
proof (induction bs arbitrary: i)
  case Nil
  then show ?case by simp
next
  case (Cons b bs)
  then show ?case by (cases i) (auto simp: hex_of_def hex_byte_def)
qed

lemma unhex_hex_of: "unhex (length d) (hex_of d) = d"
  by (rule nth_equalityI) (simp_all add: unhex_def hex_of_nth [simplified] hex_pair_def pd_hex_value_digit hex_byte_value)

lemma lower_hex_char_is_hex: "lower_hex_char c \<Longrightarrow> is_hex_char c"
  by (auto simp: lower_hex_char_def is_hex_char_def)

lemma hex_of_is_hex: "\<forall>c \<in> set (hex_of d). is_hex_char c"
  using lower_hex_hex_of [of d] lower_hex_char_is_hex by (auto simp: lower_hex_def)

section \<open>Properties\<close>

text \<open>Writing a digest as text and reading it back gives the digest: the text is 64 lower-case
  hexadecimal digits and a terminator, and neither direction accesses memory outside its buffers.\<close>

lemma sha256_hex_roundtrip:
  assumes "length d = 32" and "65 \<le> length out" and "length buf = 32"
  shows "\<exists>text. pd_sha256_to_hex (Some d) (Some out) = Some (Some text) \<and> lower_hex 64 (c_str text) \<and>
    pd_sha256_from_hex (Some text) (Some buf) = Some (PD_DIGEST_OK, Some d)"
proof -
  let ?t = "hex_of d @ 0 # drop 65 out"
  have c: "c_str ?t = hex_of d" by (simp add: hex_of_no_nul)
  have "pd_sha256_from_hex (Some ?t) (Some buf) = Some (PD_DIGEST_OK, Some (unhex 32 (hex_of d) @ drop 32 buf))"
    using pd_sha256_from_hex_spec [of ?t buf] assms hex_of_is_hex [of d] unfolding c by simp
  also have "unhex 32 (hex_of d) = d" using unhex_hex_of [of d] assms(1) by simp
  finally show ?thesis
    using assms lower_hex_hex_of [of d] by (simp add: pd_sha256_to_hex_eq hex_of_no_nul)
qed

end
