(* ===== verification/PD_FileReceive.thy ===== *)
theory PD_FileReceive
  imports PD_Frame PD_Integrity
begin

text \<open>
  The file receiver (\<^verbatim>\<open>file_receive.c\<close>): it forwards chunks to a file sink and to an integrity
  backend through two tables of callbacks, counts them against the announced size and publishes
  the file only when the count and the digest are right.

  A callback works on the object behind its context pointer and on whatever that object reaches.
  The two contexts of a receiver are separate objects, so the model threads two states: \<open>'s\<close> for
  the sink and \<open>'h\<close> for the integrity backend. A callback returns \<open>None\<close> when it has undefined
  behaviour, and so does a call through an absent function pointer. The contracts a receiver
  relies on are the locales \<open>file_sink\<close> and \<open>integrity_hash\<close>.
\<close>

section \<open>Callback tables\<close>

datatype pd_file_sink_status = PD_FILE_SINK_OK | PD_FILE_SINK_IO_ERROR

record 's pd_file_sink_ops =
  snk_begin :: "('s \<Rightarrow> u64 \<Rightarrow> (pd_file_sink_status \<times> 's) option) option"
  snk_write :: "('s \<Rightarrow> u8 list option \<Rightarrow> nat \<Rightarrow> (pd_file_sink_status \<times> nat \<times> 's) option) option"
  snk_commit :: "('s \<Rightarrow> (pd_file_sink_status \<times> 's) option) option"
  snk_abort :: "('s \<Rightarrow> 's option) option"

record 'h pd_integrity_ops =
  int_begin :: "('h \<Rightarrow> (pd_integrity_status \<times> 'h) option) option"
  int_update :: "('h \<Rightarrow> u8 list option \<Rightarrow> nat \<Rightarrow> (pd_integrity_status \<times> 'h) option) option"
  int_finish :: "('h \<Rightarrow> (pd_integrity_status \<times> u8 list \<times> 'h) option) option"
  int_abort :: "('h \<Rightarrow> 'h option) option"

section \<open>Data\<close>

datatype pd_file_receive_state =
    PD_FILE_RECEIVE_IDLE
  | PD_FILE_RECEIVE_RECEIVING
  | PD_FILE_RECEIVE_COMPLETE
  | PD_FILE_RECEIVE_FAILED
  | PD_FILE_RECEIVE_ABORTED

datatype pd_file_receive_result =
    PD_FILE_RECEIVE_OK
  | PD_FILE_RECEIVE_INVALID_ARGUMENT
  | PD_FILE_RECEIVE_INVALID_STATE
  | PD_FILE_RECEIVE_CHUNK_TOO_LARGE
  | PD_FILE_RECEIVE_EXCEEDS_EXPECTED_SIZE
  | PD_FILE_RECEIVE_INCOMPLETE
  | PD_FILE_RECEIVE_SINK_ERROR
  | PD_FILE_RECEIVE_INTEGRITY_ERROR
  | PD_FILE_RECEIVE_INTEGRITY_MISMATCH

record ('s, 'h) pd_file_receiver =
  fr_sink_ops :: "'s pd_file_sink_ops option"
  fr_integrity_ops :: "'h pd_integrity_ops option"
  fr_expected_sha256 :: "u8 list"
  fr_expected_bytes :: u64
  fr_received_bytes :: u64
  fr_state :: pd_file_receive_state
  fr_sink_started :: bool
  fr_integrity_configured :: bool
  fr_integrity_started :: bool

section \<open>Operations\<close>

definition pd_file_sink_is_configured :: "'s pd_file_sink_ops option \<Rightarrow> bool" where
  "pd_file_sink_is_configured ops =
     (case ops of
        None \<Rightarrow> False
      | Some t \<Rightarrow> snk_begin t \<noteq> None \<and> snk_write t \<noteq> None \<and> snk_commit t \<noteq> None \<and> snk_abort t \<noteq> None)"

definition pd_integrity_is_configured :: "'h pd_integrity_ops option \<Rightarrow> bool" where
  "pd_integrity_is_configured ops =
     (case ops of
        None \<Rightarrow> False
      | Some t \<Rightarrow> int_begin t \<noteq> None \<and> int_update t \<noteq> None \<and> int_finish t \<noteq> None \<and> int_abort t \<noteq> None)"

definition pd_file_receiver_abort_resources ::
  "('s, 'h) pd_file_receiver \<Rightarrow> 's \<Rightarrow> 'h \<Rightarrow> (('s, 'h) pd_file_receiver \<times> 's \<times> 'h) option" where
  "pd_file_receiver_abort_resources receiver sw hw = do {
     (receiver, hw) \<leftarrow>
       (if fr_integrity_started receiver
        then do {
          ops \<leftarrow> fr_integrity_ops receiver;
          f \<leftarrow> int_abort ops;
          hw \<leftarrow> f hw;
          Some (receiver\<lparr>fr_integrity_started := False\<rparr>, hw) }
        else Some (receiver, hw));
     (receiver, sw) \<leftarrow>
       (if fr_sink_started receiver
        then do {
          ops \<leftarrow> fr_sink_ops receiver;
          f \<leftarrow> snk_abort ops;
          sw \<leftarrow> f sw;
          Some (receiver\<lparr>fr_sink_started := False\<rparr>, sw) }
        else Some (receiver, sw));
     Some (receiver, sw, hw) }"

definition pd_file_receiver_fail ::
  "('s, 'h) pd_file_receiver \<Rightarrow> pd_file_receive_result \<Rightarrow> 's \<Rightarrow> 'h \<Rightarrow>
   (pd_file_receive_result \<times> ('s, 'h) pd_file_receiver option \<times> 's \<times> 'h) option" where
  "pd_file_receiver_fail receiver result sw hw = do {
     (receiver, sw, hw) \<leftarrow> pd_file_receiver_abort_resources receiver sw hw;
     Some (result, Some (receiver\<lparr>fr_state := PD_FILE_RECEIVE_FAILED\<rparr>), sw, hw) }"

definition pd_file_receiver_init ::
  "('s, 'h) pd_file_receiver option \<Rightarrow> 's pd_file_sink_ops option \<Rightarrow> u64 \<Rightarrow>
   pd_file_receive_result \<times> ('s, 'h) pd_file_receiver option" where
  "pd_file_receiver_init receiver sink_ops expected_bytes =
     (if receiver = None \<or> \<not> pd_file_sink_is_configured sink_ops
      then (PD_FILE_RECEIVE_INVALID_ARGUMENT, receiver)
      else (PD_FILE_RECEIVE_OK, Some \<lparr>
        fr_sink_ops = sink_ops, fr_integrity_ops = None,
        fr_expected_sha256 = replicate PD_SHA256_BYTES 0, fr_expected_bytes = expected_bytes,
        fr_received_bytes = 0, fr_state = PD_FILE_RECEIVE_IDLE, fr_sink_started = False,
        fr_integrity_configured = False, fr_integrity_started = False\<rparr>))"

definition pd_file_receiver_configure_integrity ::
  "('s, 'h) pd_file_receiver option \<Rightarrow> 'h pd_integrity_ops option \<Rightarrow> u8 list option \<Rightarrow>
   (pd_file_receive_result \<times> ('s, 'h) pd_file_receiver option) option" where
  "pd_file_receiver_configure_integrity receiver integrity_ops expected_sha256 =
     (case (receiver, expected_sha256) of
        (Some r, Some sha) \<Rightarrow>
          if \<not> pd_integrity_is_configured integrity_ops then Some (PD_FILE_RECEIVE_INVALID_ARGUMENT, receiver)
          else if fr_state r \<noteq> PD_FILE_RECEIVE_IDLE \<or> fr_sink_started r
          then Some (PD_FILE_RECEIVE_INVALID_STATE, receiver)
          else do {
            sha' \<leftarrow> memcpy (fr_expected_sha256 r) 0 sha 0 PD_SHA256_BYTES;
            Some (PD_FILE_RECEIVE_OK, Some (r\<lparr>fr_integrity_ops := integrity_ops,
              fr_expected_sha256 := sha', fr_integrity_configured := True\<rparr>)) }
      | _ \<Rightarrow> Some (PD_FILE_RECEIVE_INVALID_ARGUMENT, receiver))"

definition pd_file_receiver_begin ::
  "('s, 'h) pd_file_receiver option \<Rightarrow> 's \<Rightarrow> 'h \<Rightarrow>
   (pd_file_receive_result \<times> ('s, 'h) pd_file_receiver option \<times> 's \<times> 'h) option" where
  "pd_file_receiver_begin receiver sw hw =
     (case receiver of
        None \<Rightarrow> Some (PD_FILE_RECEIVE_INVALID_ARGUMENT, receiver, sw, hw)
      | Some r \<Rightarrow>
          if \<not> pd_file_sink_is_configured (fr_sink_ops r)
          then Some (PD_FILE_RECEIVE_INVALID_ARGUMENT, receiver, sw, hw)
          else if fr_state r \<noteq> PD_FILE_RECEIVE_IDLE then Some (PD_FILE_RECEIVE_INVALID_STATE, receiver, sw, hw)
          else do {
            ops \<leftarrow> fr_sink_ops r;
            f \<leftarrow> snk_begin ops;
            (status, sw) \<leftarrow> f sw (fr_expected_bytes r);
            if status \<noteq> PD_FILE_SINK_OK
            then Some (PD_FILE_RECEIVE_SINK_ERROR, Some (r\<lparr>fr_state := PD_FILE_RECEIVE_FAILED\<rparr>), sw, hw)
            else let r = r\<lparr>fr_sink_started := True\<rparr> in
              if fr_integrity_configured r
              then do {
                iops \<leftarrow> fr_integrity_ops r;
                g \<leftarrow> int_begin iops;
                (istatus, hw) \<leftarrow> g hw;
                if istatus \<noteq> PD_INTEGRITY_OK then pd_file_receiver_fail r PD_FILE_RECEIVE_INTEGRITY_ERROR sw hw
                else Some (PD_FILE_RECEIVE_OK,
                       Some (r\<lparr>fr_integrity_started := True, fr_state := PD_FILE_RECEIVE_RECEIVING\<rparr>), sw, hw) }
              else Some (PD_FILE_RECEIVE_OK, Some (r\<lparr>fr_state := PD_FILE_RECEIVE_RECEIVING\<rparr>), sw, hw) })"

definition pd_file_receiver_write ::
  "('s, 'h) pd_file_receiver option \<Rightarrow> u8 list option \<Rightarrow> nat \<Rightarrow> 's \<Rightarrow> 'h \<Rightarrow>
   (pd_file_receive_result \<times> ('s, 'h) pd_file_receiver option \<times> 's \<times> 'h) option" where
  "pd_file_receiver_write receiver data data_size sw hw =
     (case receiver of
        None \<Rightarrow> Some (PD_FILE_RECEIVE_INVALID_ARGUMENT, receiver, sw, hw)
      | Some r \<Rightarrow>
          if data = None \<and> data_size \<noteq> 0 then Some (PD_FILE_RECEIVE_INVALID_ARGUMENT, receiver, sw, hw)
          else if fr_state r \<noteq> PD_FILE_RECEIVE_RECEIVING then Some (PD_FILE_RECEIVE_INVALID_STATE, receiver, sw, hw)
          else if data_size = 0 then Some (PD_FILE_RECEIVE_INVALID_ARGUMENT, receiver, sw, hw)
          else if PD_FRAME_MAX_PAYLOAD < data_size then Some (PD_FILE_RECEIVE_CHUNK_TOO_LARGE, receiver, sw, hw)
          else let data_size_u64 = word_of_nat data_size :: u64 in
            if fr_expected_bytes r < fr_received_bytes r \<or>
               fr_expected_bytes r - fr_received_bytes r < data_size_u64
            then Some (PD_FILE_RECEIVE_EXCEEDS_EXPECTED_SIZE, receiver, sw, hw)
            else do {
              ops \<leftarrow> fr_sink_ops r;
              f \<leftarrow> snk_write ops;
              (status, bytes_written, sw) \<leftarrow> f sw data data_size;
              if status \<noteq> PD_FILE_SINK_OK \<or> bytes_written \<noteq> data_size
              then pd_file_receiver_fail r PD_FILE_RECEIVE_SINK_ERROR sw hw
              else do {
                (istatus, hw) \<leftarrow>
                  (if fr_integrity_configured r
                   then do {
                     iops \<leftarrow> fr_integrity_ops r;
                     g \<leftarrow> int_update iops;
                     g hw data data_size }
                   else Some (PD_INTEGRITY_OK, hw));
                if istatus \<noteq> PD_INTEGRITY_OK then pd_file_receiver_fail r PD_FILE_RECEIVE_INTEGRITY_ERROR sw hw
                else Some (PD_FILE_RECEIVE_OK,
                       Some (r\<lparr>fr_received_bytes := fr_received_bytes r + data_size_u64\<rparr>), sw, hw) } })"

text \<open>The tail of \<^verbatim>\<open>pd_file_receiver_finish\<close>, reached without integrity or with a matching digest.\<close>

definition finish_commit ::
  "('s, 'h) pd_file_receiver \<Rightarrow> 's \<Rightarrow> 'h \<Rightarrow>
   (pd_file_receive_result \<times> ('s, 'h) pd_file_receiver option \<times> 's \<times> 'h) option" where
  "finish_commit r sw hw = do {
     ops \<leftarrow> fr_sink_ops r;
     f \<leftarrow> snk_commit ops;
     (status, sw) \<leftarrow> f sw;
     if status \<noteq> PD_FILE_SINK_OK then pd_file_receiver_fail r PD_FILE_RECEIVE_SINK_ERROR sw hw
     else Some (PD_FILE_RECEIVE_OK,
            Some (r\<lparr>fr_sink_started := False, fr_state := PD_FILE_RECEIVE_COMPLETE\<rparr>), sw, hw) }"

definition pd_file_receiver_finish ::
  "('s, 'h) pd_file_receiver option \<Rightarrow> 's \<Rightarrow> 'h \<Rightarrow>
   (pd_file_receive_result \<times> ('s, 'h) pd_file_receiver option \<times> 's \<times> 'h) option" where
  "pd_file_receiver_finish receiver sw hw =
     (case receiver of
        None \<Rightarrow> Some (PD_FILE_RECEIVE_INVALID_ARGUMENT, receiver, sw, hw)
      | Some r \<Rightarrow>
          if fr_state r \<noteq> PD_FILE_RECEIVE_RECEIVING then Some (PD_FILE_RECEIVE_INVALID_STATE, receiver, sw, hw)
          else if fr_received_bytes r \<noteq> fr_expected_bytes r then Some (PD_FILE_RECEIVE_INCOMPLETE, receiver, sw, hw)
          else if \<not> fr_integrity_configured r then finish_commit r sw hw
          else if \<not> fr_integrity_started r then pd_file_receiver_fail r PD_FILE_RECEIVE_INTEGRITY_ERROR sw hw
          else do {
            iops \<leftarrow> fr_integrity_ops r;
            g \<leftarrow> int_finish iops;
            (istatus, actual_sha256, hw) \<leftarrow> g hw;
            if istatus \<noteq> PD_INTEGRITY_OK then pd_file_receiver_fail r PD_FILE_RECEIVE_INTEGRITY_ERROR sw hw
            else do {
              let r = r\<lparr>fr_integrity_started := False\<rparr>;
              same \<leftarrow> pd_digest_equal (Some actual_sha256) (Some (fr_expected_sha256 r));
              if \<not> same
              then do {
                (r, sw) \<leftarrow>
                  (if fr_sink_started r
                   then do {
                     ops \<leftarrow> fr_sink_ops r;
                     f \<leftarrow> snk_abort ops;
                     sw \<leftarrow> f sw;
                     Some (r\<lparr>fr_sink_started := False\<rparr>, sw) }
                   else Some (r, sw));
                Some (PD_FILE_RECEIVE_INTEGRITY_MISMATCH, Some (r\<lparr>fr_state := PD_FILE_RECEIVE_FAILED\<rparr>), sw, hw) }
              else finish_commit r sw hw } })"

definition pd_file_receiver_abort ::
  "('s, 'h) pd_file_receiver option \<Rightarrow> 's \<Rightarrow> 'h \<Rightarrow> (('s, 'h) pd_file_receiver option \<times> 's \<times> 'h) option" where
  "pd_file_receiver_abort receiver sw hw =
     (case receiver of
        None \<Rightarrow> Some (receiver, sw, hw)
      | Some r \<Rightarrow>
          if fr_state r \<noteq> PD_FILE_RECEIVE_RECEIVING then Some (receiver, sw, hw)
          else do {
            (r, sw, hw) \<leftarrow> pd_file_receiver_abort_resources r sw hw;
            Some (Some (r\<lparr>fr_state := PD_FILE_RECEIVE_ABORTED\<rparr>), sw, hw) })"

section \<open>Contracts of the callbacks\<close>

definition sink_table where
  "sink_table begin_op write_op commit_op abort_op =
     \<lparr>snk_begin = Some begin_op, snk_write = Some write_op, snk_commit = Some commit_op, snk_abort = Some abort_op\<rparr>"

definition integrity_table where
  "integrity_table begin_op update_op finish_op abort_op =
     \<lparr>int_begin = Some begin_op, int_update = Some update_op, int_finish = Some finish_op, int_abort = Some abort_op\<rparr>"

text \<open>
  What a receiver relies on in a sink. \<open>staged\<close> is the contents written so far while a file is
  open and \<open>published\<close> the contents under the final name. Staging never touches the published file,
  a successful commit publishes exactly what was staged, and aborting always ends staging.
\<close>

locale file_sink =
  fixes begin_op :: "'s \<Rightarrow> u64 \<Rightarrow> (pd_file_sink_status \<times> 's) option"
    and write_op :: "'s \<Rightarrow> u8 list option \<Rightarrow> nat \<Rightarrow> (pd_file_sink_status \<times> nat \<times> 's) option"
    and commit_op :: "'s \<Rightarrow> (pd_file_sink_status \<times> 's) option"
    and abort_op :: "'s \<Rightarrow> 's option"
    and sink_inv :: "'s \<Rightarrow> bool"
    and staged :: "'s \<Rightarrow> u8 list option"
    and published :: "'s \<Rightarrow> u8 list option"
  assumes sink_begin: "sink_inv w \<Longrightarrow> staged w = None \<Longrightarrow>
      \<exists>st w'. begin_op w expected = Some (st, w') \<and> sink_inv w' \<and> published w' = published w \<and>
        staged w' = (if st = PD_FILE_SINK_OK then Some [] else None)"
    and sink_write: "sink_inv w \<Longrightarrow> staged w = Some bs \<Longrightarrow> n \<le> length d \<Longrightarrow>
      \<exists>st k w'. write_op w (Some d) n = Some (st, k, w') \<and> sink_inv w' \<and> published w' = published w \<and>
        (st = PD_FILE_SINK_OK \<and> k = n \<longrightarrow> staged w' = Some (bs @ take n d))"
    and sink_commit: "sink_inv w \<Longrightarrow> staged w = Some bs \<Longrightarrow>
      \<exists>st w'. commit_op w = Some (st, w') \<and> sink_inv w' \<and>
        (if st = PD_FILE_SINK_OK then published w' = Some bs \<and> staged w' = None
         else published w' = published w)"
    and sink_abort: "sink_inv w \<Longrightarrow>
      \<exists>w'. abort_op w = Some w' \<and> sink_inv w' \<and> published w' = published w \<and> staged w' = None"

text \<open>
  What it relies on in an integrity backend: \<open>absorbed\<close> is the data hashed so far while a
  computation is open, and a successful finish yields the digest \<open>hash\<close> of exactly that data.
\<close>

locale integrity_hash =
  fixes ibegin_op :: "'h \<Rightarrow> (pd_integrity_status \<times> 'h) option"
    and update_op :: "'h \<Rightarrow> u8 list option \<Rightarrow> nat \<Rightarrow> (pd_integrity_status \<times> 'h) option"
    and finish_op :: "'h \<Rightarrow> (pd_integrity_status \<times> u8 list \<times> 'h) option"
    and iabort_op :: "'h \<Rightarrow> 'h option"
    and hash_inv :: "'h \<Rightarrow> bool"
    and absorbed :: "'h \<Rightarrow> u8 list option"
    and hash :: "u8 list \<Rightarrow> u8 list"
  assumes hash_length: "length (hash bs) = 32"
    and hash_begin: "hash_inv w \<Longrightarrow> absorbed w = None \<Longrightarrow>
      \<exists>st w'. ibegin_op w = Some (st, w') \<and> hash_inv w' \<and>
        absorbed w' = (if st = PD_INTEGRITY_OK then Some [] else None)"
    and hash_update: "hash_inv w \<Longrightarrow> absorbed w = Some bs \<Longrightarrow> n \<le> length d \<Longrightarrow>
      \<exists>st w'. update_op w (Some d) n = Some (st, w') \<and> hash_inv w' \<and>
        (st = PD_INTEGRITY_OK \<longrightarrow> absorbed w' = Some (bs @ take n d))"
    and hash_finish: "hash_inv w \<Longrightarrow> absorbed w = Some bs \<Longrightarrow>
      \<exists>st dg w'. finish_op w = Some (st, dg, w') \<and> hash_inv w' \<and>
        (st = PD_INTEGRITY_OK \<longrightarrow> dg = hash bs \<and> absorbed w' = None)"
    and hash_abort: "hash_inv w \<Longrightarrow>
      \<exists>w'. iabort_op w = Some w' \<and> hash_inv w' \<and> absorbed w' = None"

section \<open>The invariant\<close>

text \<open>
  The invariant of a receiver over its two backends, whose views are arguments. While receiving,
  the staged bytes and the hashed bytes are the same list, as long as the received count, which
  has not passed the announced size. In every other state both backends are at rest.
\<close>

definition recv_inv where
  "recv_inv stab itab sink_inv staged hash_inv absorbed r sw hw \<longleftrightarrow>
     sink_inv sw \<and> hash_inv hw \<and> fr_sink_ops r = Some stab \<and> length (fr_expected_sha256 r) = 32 \<and>
     (fr_integrity_configured r \<longrightarrow> fr_integrity_ops r = Some itab) \<and>
     (if fr_state r = PD_FILE_RECEIVE_RECEIVING
      then fr_sink_started r \<and> fr_integrity_started r = fr_integrity_configured r \<and>
           fr_received_bytes r \<le> fr_expected_bytes r \<and>
           (\<exists>bs. staged sw = Some bs \<and> absorbed hw = (if fr_integrity_configured r then Some bs else None) \<and>
              length bs = unat (fr_received_bytes r))
      else \<not> fr_sink_started r \<and> \<not> fr_integrity_started r \<and> staged sw = None \<and> absorbed hw = None \<and>
           (fr_state r = PD_FILE_RECEIVE_IDLE \<longrightarrow> fr_received_bytes r = 0))"

definition failed :: "('s, 'h) pd_file_receiver \<Rightarrow> ('s, 'h) pd_file_receiver" where
  "failed r = r\<lparr>fr_sink_started := False, fr_integrity_started := False, fr_state := PD_FILE_RECEIVE_FAILED\<rparr>"

locale receive_env =
  file_sink begin_op write_op commit_op abort_op sink_inv staged published +
  integrity_hash ibegin_op update_op finish_op iabort_op hash_inv absorbed hash
  for begin_op :: "'s \<Rightarrow> u64 \<Rightarrow> (pd_file_sink_status \<times> 's) option"
    and write_op commit_op abort_op sink_inv staged published
    and ibegin_op :: "'h \<Rightarrow> (pd_integrity_status \<times> 'h) option"
    and update_op finish_op iabort_op hash_inv absorbed hash
begin

abbreviation "stab \<equiv> sink_table begin_op write_op commit_op abort_op"

abbreviation "itab \<equiv> integrity_table ibegin_op update_op finish_op iabort_op"

abbreviation "rinv \<equiv> recv_inv stab itab sink_inv staged hash_inv absorbed"

lemma tables [simp]:
  "snk_begin stab = Some begin_op" "snk_write stab = Some write_op"
  "snk_commit stab = Some commit_op" "snk_abort stab = Some abort_op"
  "int_begin itab = Some ibegin_op" "int_update itab = Some update_op"
  "int_finish itab = Some finish_op" "int_abort itab = Some iabort_op"
  by (simp_all add: sink_table_def integrity_table_def)

lemma tables_configured [simp]:
  "pd_file_sink_is_configured (Some stab)" "pd_integrity_is_configured (Some itab)"
  by (simp_all add: pd_file_sink_is_configured_def pd_integrity_is_configured_def)

text \<open>Releasing the backends, from any state in which the started flags are truthful.\<close>

lemma abort_resources:
  assumes "sink_inv sw" and "hash_inv hw" and "fr_sink_ops r = Some stab"
    and "fr_integrity_started r \<Longrightarrow> fr_integrity_ops r = Some itab"
    and "\<not> fr_sink_started r \<Longrightarrow> staged sw = None" and "\<not> fr_integrity_started r \<Longrightarrow> absorbed hw = None"
  shows "\<exists>sw' hw'. pd_file_receiver_abort_resources r sw hw =
      Some (r\<lparr>fr_sink_started := False, fr_integrity_started := False\<rparr>, sw', hw') \<and>
    sink_inv sw' \<and> hash_inv hw' \<and> staged sw' = None \<and> absorbed hw' = None \<and> published sw' = published sw"
proof -
  obtain sw1 where s: "abort_op sw = Some sw1" "sink_inv sw1" "published sw1 = published sw" "staged sw1 = None"
    using sink_abort [OF assms(1)] by blast
  obtain hw1 where h: "iabort_op hw = Some hw1" "hash_inv hw1" "absorbed hw1 = None"
    using hash_abort [OF assms(2)] by blast
  show ?thesis
    using assms s h by (cases "fr_sink_started r"; cases "fr_integrity_started r")
      (simp_all add: pd_file_receiver_abort_resources_def)
qed

lemma fail_inv:
  assumes "sink_inv sw" and "hash_inv hw" and "fr_sink_ops r = Some stab" and "length (fr_expected_sha256 r) = 32"
    and "fr_integrity_configured r \<Longrightarrow> fr_integrity_ops r = Some itab"
    and "fr_sink_started r" and "fr_integrity_started r \<Longrightarrow> fr_integrity_configured r"
    and "\<not> fr_integrity_started r \<Longrightarrow> absorbed hw = None"
  shows "\<exists>sw' hw'. pd_file_receiver_fail r e sw hw = Some (e, Some (failed r), sw', hw') \<and>
    rinv (failed r) sw' hw' \<and> published sw' = published sw"
  using abort_resources [of sw hw r] assms
  by (fastforce simp: pd_file_receiver_fail_def recv_inv_def failed_def)

end

context receive_env
begin

text \<open>A receiver set up on the two tables, ready to begin.\<close>

lemma init_configure:
  assumes "sink_inv sw" and "hash_inv hw" and "staged sw = None" and "absorbed hw = None" and "length sha = 32"
  shows "\<exists>r1 r. pd_file_receiver_init (Some r0) (Some stab) n = (PD_FILE_RECEIVE_OK, Some r1) \<and>
    pd_file_receiver_configure_integrity (Some r1) (Some itab) (Some sha) = Some (PD_FILE_RECEIVE_OK, Some r) \<and>
    rinv r sw hw \<and> fr_state r = PD_FILE_RECEIVE_IDLE \<and> fr_expected_bytes r = n \<and>
    fr_expected_sha256 r = sha \<and> fr_integrity_configured r"
  using assms
  by (auto simp: pd_file_receiver_init_def pd_file_receiver_configure_integrity_def recv_inv_def
    memcpy_def mem_slice_def put_0)

lemma begin_spec:
  assumes "rinv r sw hw" and "fr_state r = PD_FILE_RECEIVE_IDLE"
  shows "\<exists>res r' sw' hw'. pd_file_receiver_begin (Some r) sw hw = Some (res, Some r', sw', hw') \<and>
    rinv r' sw' hw' \<and> published sw' = published sw \<and>
    (if res = PD_FILE_RECEIVE_OK
     then fr_state r' = PD_FILE_RECEIVE_RECEIVING \<and> staged sw' = Some [] \<and> fr_expected_bytes r' = fr_expected_bytes r \<and>
       fr_expected_sha256 r' = fr_expected_sha256 r \<and> fr_integrity_configured r' = fr_integrity_configured r \<and>
       fr_received_bytes r' = 0
     else fr_state r' = PD_FILE_RECEIVE_FAILED)"
proof -
  have r: "sink_inv sw" "hash_inv hw" "staged sw = None" "absorbed hw = None" "fr_sink_ops r = Some stab"
    "\<not> fr_sink_started r" "\<not> fr_integrity_started r" "length (fr_expected_sha256 r) = 32"
    "fr_received_bytes r = 0" "fr_integrity_configured r \<Longrightarrow> fr_integrity_ops r = Some itab"
    using assms by (auto simp: recv_inv_def)
  obtain st sw1 where s: "begin_op sw (fr_expected_bytes r) = Some (st, sw1)" "sink_inv sw1"
    "published sw1 = published sw" "staged sw1 = (if st = PD_FILE_SINK_OK then Some [] else None)"
    using sink_begin [OF r(1,3)] by blast
  obtain ist hw1 where h: "ibegin_op hw = Some (ist, hw1)" "hash_inv hw1"
    "absorbed hw1 = (if ist = PD_INTEGRITY_OK then Some [] else None)"
    using hash_begin [OF r(2,4)] by blast
  let ?r = "r\<lparr>fr_sink_started := True\<rparr>"
  have body: "pd_file_receiver_begin (Some r) sw hw =
    (if st \<noteq> PD_FILE_SINK_OK then Some (PD_FILE_RECEIVE_SINK_ERROR, Some (r\<lparr>fr_state := PD_FILE_RECEIVE_FAILED\<rparr>), sw1, hw)
     else if \<not> fr_integrity_configured r then Some (PD_FILE_RECEIVE_OK, Some (?r\<lparr>fr_state := PD_FILE_RECEIVE_RECEIVING\<rparr>), sw1, hw)
     else if ist \<noteq> PD_INTEGRITY_OK then pd_file_receiver_fail ?r PD_FILE_RECEIVE_INTEGRITY_ERROR sw1 hw1
     else Some (PD_FILE_RECEIVE_OK, Some (?r\<lparr>fr_integrity_started := True, fr_state := PD_FILE_RECEIVE_RECEIVING\<rparr>), sw1, hw1))"
    using r(5,10) assms(2) s(1) h(1) by (auto simp: pd_file_receiver_begin_def Let_def)
  show ?thesis
  proof (cases "st = PD_FILE_SINK_OK \<and> fr_integrity_configured r \<and> ist \<noteq> PD_INTEGRITY_OK")
    case True
    then obtain sw2 hw2 where "pd_file_receiver_fail ?r PD_FILE_RECEIVE_INTEGRITY_ERROR sw1 hw1 =
        Some (PD_FILE_RECEIVE_INTEGRITY_ERROR, Some (failed ?r), sw2, hw2)"
      "rinv (failed ?r) sw2 hw2" "published sw2 = published sw1"
      using fail_inv [of sw1 hw1 ?r PD_FILE_RECEIVE_INTEGRITY_ERROR] r s h by auto
    then show ?thesis
      using True s(3) by (simp add: body) (simp add: failed_def)
  next
    case False
    then show ?thesis
      unfolding body using r s(2-) h(2-)
      by (cases "st = PD_FILE_SINK_OK"; cases "fr_integrity_configured r") (simp_all add: recv_inv_def)
  qed
qed

end

context receive_env
begin

text \<open>
  A write on a receiving receiver. It is accepted only if the chunk is not empty, not larger than a
  frame allows and fits in what is left; then the chunk is appended to what was staged. A refused
  chunk changes nothing, and a backend failure releases both backends.
\<close>

lemma write_spec:
  assumes "rinv r sw hw" and "fr_state r = PD_FILE_RECEIVE_RECEIVING" and "staged sw = Some bs" and "n \<le> length d"
  shows "\<exists>res r' sw' hw'. pd_file_receiver_write (Some r) (Some d) n sw hw = Some (res, Some r', sw', hw') \<and>
    rinv r' sw' hw' \<and> published sw' = published sw \<and>
    (case res of
       PD_FILE_RECEIVE_OK \<Rightarrow> r' = r\<lparr>fr_received_bytes := fr_received_bytes r + word_of_nat n\<rparr> \<and>
         staged sw' = Some (bs @ take n d) \<and> 0 < n \<and> n \<le> PD_FRAME_MAX_PAYLOAD \<and>
         length bs + n \<le> unat (fr_expected_bytes r)
     | PD_FILE_RECEIVE_SINK_ERROR \<Rightarrow> r' = failed r
     | PD_FILE_RECEIVE_INTEGRITY_ERROR \<Rightarrow> r' = failed r
     | _ \<Rightarrow> r' = r \<and> sw' = sw \<and> hw' = hw)"
proof -
  have r: "sink_inv sw" "hash_inv hw" "fr_sink_ops r = Some stab" "length (fr_expected_sha256 r) = 32"
    "fr_integrity_configured r \<Longrightarrow> fr_integrity_ops r = Some itab" "fr_sink_started r"
    "fr_integrity_started r = fr_integrity_configured r" "fr_received_bytes r \<le> fr_expected_bytes r"
    "absorbed hw = (if fr_integrity_configured r then Some bs else None)" "length bs = unat (fr_received_bytes r)"
    using assms(1-3) by (auto simp: recv_inv_def)
  let ?n = "word_of_nat n :: u64"
  consider (refused) "n = 0 \<or> PD_FRAME_MAX_PAYLOAD < n \<or> fr_expected_bytes r - fr_received_bytes r < ?n"
    | (fits) "0 < n" "n \<le> PD_FRAME_MAX_PAYLOAD" "?n \<le> fr_expected_bytes r - fr_received_bytes r"
    by force
  then show ?thesis
  proof cases
    case refused
    then show ?thesis using assms r(8) by (auto simp: pd_file_receiver_write_def)
  next
    case fits
    have un: "unat ?n = n" using fits(2) by (simp add: unat_of_nat take_bit_nat_eq_self_iff)
    have sum: "unat (fr_received_bytes r + ?n) = length bs + n" "fr_received_bytes r + ?n \<le> fr_expected_bytes r"
      using add_no_wrap [OF r(8) fits(3)] un r(10) by simp_all
    obtain st k sw1 where s: "write_op sw (Some d) n = Some (st, k, sw1)" "sink_inv sw1" "published sw1 = published sw"
      "st = PD_FILE_SINK_OK \<and> k = n \<Longrightarrow> staged sw1 = Some (bs @ take n d)"
      using sink_write [OF r(1) assms(3,4)] by blast
    have h: "\<exists>ist hw1. (if fr_integrity_configured r then update_op hw (Some d) n else Some (PD_INTEGRITY_OK, hw)) = Some (ist, hw1) \<and>
        hash_inv hw1 \<and> (\<not> fr_integrity_configured r \<longrightarrow> absorbed hw1 = None) \<and>
        (ist = PD_INTEGRITY_OK \<longrightarrow> absorbed hw1 = (if fr_integrity_configured r then Some (bs @ take n d) else None))"
      using r(2,9) hash_update [OF r(2) _ assms(4), of bs] by auto
    then obtain ist hw1 where h: "(if fr_integrity_configured r then update_op hw (Some d) n else Some (PD_INTEGRITY_OK, hw)) = Some (ist, hw1)"
      "hash_inv hw1" "\<not> fr_integrity_configured r \<Longrightarrow> absorbed hw1 = None"
      "ist = PD_INTEGRITY_OK \<Longrightarrow> absorbed hw1 = (if fr_integrity_configured r then Some (bs @ take n d) else None)"
      by blast
    have body: "pd_file_receiver_write (Some r) (Some d) n sw hw =
      (if st \<noteq> PD_FILE_SINK_OK \<or> k \<noteq> n then pd_file_receiver_fail r PD_FILE_RECEIVE_SINK_ERROR sw1 hw
       else if ist \<noteq> PD_INTEGRITY_OK then pd_file_receiver_fail r PD_FILE_RECEIVE_INTEGRITY_ERROR sw1 hw1
       else Some (PD_FILE_RECEIVE_OK, Some (r\<lparr>fr_received_bytes := fr_received_bytes r + ?n\<rparr>), sw1, hw1))"
      using assms(2) fits r(3,5,8) s(1) h(1) by (auto simp: pd_file_receiver_write_def not_less Let_def)
    have e1: "\<exists>sw' hw'. pd_file_receiver_fail r PD_FILE_RECEIVE_SINK_ERROR sw1 hw =
        Some (PD_FILE_RECEIVE_SINK_ERROR, Some (failed r), sw', hw') \<and> rinv (failed r) sw' hw' \<and> published sw' = published sw1"
      by (rule fail_inv) (use r s(2) in auto)
    have e2: "\<exists>sw' hw'. pd_file_receiver_fail r PD_FILE_RECEIVE_INTEGRITY_ERROR sw1 hw1 =
        Some (PD_FILE_RECEIVE_INTEGRITY_ERROR, Some (failed r), sw', hw') \<and> rinv (failed r) sw' hw' \<and> published sw' = published sw1"
      by (rule fail_inv) (use r s(2) h(2,3) in auto)
    have ok: "st = PD_FILE_SINK_OK \<and> k = n \<Longrightarrow> ist = PD_INTEGRITY_OK \<Longrightarrow>
        rinv (r\<lparr>fr_received_bytes := fr_received_bytes r + ?n\<rparr>) sw1 hw1"
      using assms(2,4) r s(2,4) h(2,4) sum by (auto simp: recv_inv_def)
    have "length bs + n \<le> unat (fr_expected_bytes r)"
      using sum by (metis word_le_nat_alt)
    then show ?thesis
      unfolding body using e1 e2 ok s(3,4) fits(1,2) by (cases "st = PD_FILE_SINK_OK \<and> k = n"; cases "ist = PD_INTEGRITY_OK") auto
  qed
qed

lemma commit_spec:
  assumes "sink_inv sw" and "hash_inv hw" and "staged sw = Some bs" and "absorbed hw = None"
    and "fr_sink_ops r = Some stab" and "length (fr_expected_sha256 r) = 32"
    and "fr_integrity_configured r \<Longrightarrow> fr_integrity_ops r = Some itab"
    and "fr_sink_started r" and "\<not> fr_integrity_started r"
  shows "\<exists>res r' sw' hw'. finish_commit r sw hw = Some (res, Some r', sw', hw') \<and> rinv r' sw' hw' \<and>
    (res = PD_FILE_RECEIVE_OK \<and> fr_state r' = PD_FILE_RECEIVE_COMPLETE \<and> published sw' = Some bs \<or>
     res = PD_FILE_RECEIVE_SINK_ERROR \<and> fr_state r' = PD_FILE_RECEIVE_FAILED \<and> published sw' = published sw)"
proof -
  obtain st sw1 where s: "commit_op sw = Some (st, sw1)" "sink_inv sw1"
    "if st = PD_FILE_SINK_OK then published sw1 = Some bs \<and> staged sw1 = None else published sw1 = published sw"
    using sink_commit [OF assms(1,3)] by blast
  show ?thesis
  proof (cases "st = PD_FILE_SINK_OK")
    case True
    then show ?thesis using assms s by (simp add: finish_commit_def recv_inv_def)
  next
    case False
    obtain sw2 hw2 where "pd_file_receiver_fail r PD_FILE_RECEIVE_SINK_ERROR sw1 hw =
        Some (PD_FILE_RECEIVE_SINK_ERROR, Some (failed r), sw2, hw2)"
      "rinv (failed r) sw2 hw2" "published sw2 = published sw1"
      using fail_inv [of sw1 hw r PD_FILE_RECEIVE_SINK_ERROR] assms s(2) by auto
    then show ?thesis using False s assms(5) by (simp add: finish_commit_def) (simp add: failed_def)
  qed
qed

end

context receive_env
begin

text \<open>
  Finishing a receiving receiver. Success publishes the staged bytes, and then their number is the
  announced size and their digest, where one was announced, the announced digest. An early finish is
  refused and changes nothing at all; every other failure releases both backends and leaves the
  published file as it was.
\<close>

lemma finish_spec:
  assumes "rinv r sw hw" and "fr_state r = PD_FILE_RECEIVE_RECEIVING" and "staged sw = Some bs"
  shows "\<exists>res r' sw' hw'. pd_file_receiver_finish (Some r) sw hw = Some (res, Some r', sw', hw') \<and>
    rinv r' sw' hw' \<and>
    (if res = PD_FILE_RECEIVE_OK
     then fr_state r' = PD_FILE_RECEIVE_COMPLETE \<and> published sw' = Some bs \<and>
       length bs = unat (fr_expected_bytes r) \<and> (fr_integrity_configured r \<longrightarrow> hash bs = fr_expected_sha256 r)
     else published sw' = published sw \<and>
       (if res = PD_FILE_RECEIVE_INCOMPLETE
        then fr_received_bytes r \<noteq> fr_expected_bytes r \<and> r' = r \<and> sw' = sw \<and> hw' = hw
        else fr_state r' = PD_FILE_RECEIVE_FAILED))"
proof -
  have r: "sink_inv sw" "hash_inv hw" "fr_sink_ops r = Some stab" "length (fr_expected_sha256 r) = 32"
    "fr_integrity_configured r \<Longrightarrow> fr_integrity_ops r = Some itab" "fr_sink_started r"
    "fr_integrity_started r = fr_integrity_configured r"
    "absorbed hw = (if fr_integrity_configured r then Some bs else None)" "length bs = unat (fr_received_bytes r)"
    using assms by (auto simp: recv_inv_def)
  consider (early) "fr_received_bytes r \<noteq> fr_expected_bytes r"
    | (plain) "fr_received_bytes r = fr_expected_bytes r" "\<not> fr_integrity_configured r"
    | (hashed) "fr_received_bytes r = fr_expected_bytes r" "fr_integrity_configured r"
    by blast
  then show ?thesis
  proof cases
    case early
    then show ?thesis using assms by (simp add: pd_file_receiver_finish_def)
  next
    case plain
    then have "pd_file_receiver_finish (Some r) sw hw = finish_commit r sw hw"
      using assms(2) by (simp add: pd_file_receiver_finish_def)
    then show ?thesis using commit_spec [of sw hw bs r] r plain assms(3) by auto
  next
    case hashed
    then obtain ist dg hw1 where h: "finish_op hw = Some (ist, dg, hw1)" "hash_inv hw1"
      "ist = PD_INTEGRITY_OK \<Longrightarrow> dg = hash bs" "ist = PD_INTEGRITY_OK \<Longrightarrow> absorbed hw1 = None"
      using hash_finish [OF r(2), of bs] r(8) by auto
    let ?r = "r\<lparr>fr_integrity_started := False\<rparr>"
    show ?thesis
    proof (cases "ist = PD_INTEGRITY_OK")
      case False
      then have body: "pd_file_receiver_finish (Some r) sw hw = pd_file_receiver_fail r PD_FILE_RECEIVE_INTEGRITY_ERROR sw hw1"
        using assms(2) hashed r(5,7) h(1) by (simp add: pd_file_receiver_finish_def)
      obtain sw2 hw2 where "pd_file_receiver_fail r PD_FILE_RECEIVE_INTEGRITY_ERROR sw hw1 =
          Some (PD_FILE_RECEIVE_INTEGRITY_ERROR, Some (failed r), sw2, hw2)"
        "rinv (failed r) sw2 hw2" "published sw2 = published sw"
        using fail_inv [of sw hw1 r PD_FILE_RECEIVE_INTEGRITY_ERROR] r h(2) hashed by auto
      then show ?thesis by (simp add: body) (simp add: failed_def)
    next
      case True
      obtain sw2 where a: "abort_op sw = Some sw2" "sink_inv sw2" "published sw2 = published sw" "staged sw2 = None"
        using sink_abort [OF r(1)] by blast
      have "pd_digest_equal (Some (hash bs)) (Some (fr_expected_sha256 r)) = Some (hash bs = fr_expected_sha256 r)"
        using r(4) hash_length [of bs] by (simp add: pd_digest_equal_iff)
      then have body: "pd_file_receiver_finish (Some r) sw hw =
        (if hash bs = fr_expected_sha256 r then finish_commit ?r sw hw1
         else Some (PD_FILE_RECEIVE_INTEGRITY_MISMATCH,
           Some (?r\<lparr>fr_sink_started := False, fr_state := PD_FILE_RECEIVE_FAILED\<rparr>), sw2, hw1))"
        using assms(2) hashed r(3,5,6,7) h(1) h(3) [OF True] True a(1)
        by (auto simp: pd_file_receiver_finish_def Let_def)
      have "\<exists>res r' sw' hw'. finish_commit ?r sw hw1 = Some (res, Some r', sw', hw') \<and> rinv r' sw' hw' \<and>
        (res = PD_FILE_RECEIVE_OK \<and> fr_state r' = PD_FILE_RECEIVE_COMPLETE \<and> published sw' = Some bs \<or>
         res = PD_FILE_RECEIVE_SINK_ERROR \<and> fr_state r' = PD_FILE_RECEIVE_FAILED \<and> published sw' = published sw)"
        by (rule commit_spec) (use r h(2,4) True hashed assms(3) in simp_all)
      moreover have "rinv (?r\<lparr>fr_sink_started := False, fr_state := PD_FILE_RECEIVE_FAILED\<rparr>) sw2 hw1"
        using r a h(2,4) True hashed by (simp add: recv_inv_def)
      ultimately show ?thesis
        unfolding body using a r(9) hashed by (cases "hash bs = fr_expected_sha256 r") auto
    qed
  qed
qed

lemma abort_spec:
  assumes "rinv r sw hw"
  shows "\<exists>r' sw' hw'. pd_file_receiver_abort (Some r) sw hw = Some (Some r', sw', hw') \<and> rinv r' sw' hw' \<and>
    published sw' = published sw \<and>
    (if fr_state r = PD_FILE_RECEIVE_RECEIVING then fr_state r' = PD_FILE_RECEIVE_ABORTED
     else r' = r \<and> sw' = sw \<and> hw' = hw)"
proof (cases "fr_state r = PD_FILE_RECEIVE_RECEIVING")
  case True
  then obtain sw' hw' where "pd_file_receiver_abort_resources r sw hw =
      Some (r\<lparr>fr_sink_started := False, fr_integrity_started := False\<rparr>, sw', hw')"
    "sink_inv sw'" "hash_inv hw'" "staged sw' = None" "absorbed hw' = None" "published sw' = published sw"
    using abort_resources [of sw hw r] assms by (auto simp: recv_inv_def)
  then show ?thesis using True assms by (simp add: pd_file_receiver_abort_def) (simp add: recv_inv_def)
next
  case False
  then show ?thesis using assms by (simp add: pd_file_receiver_abort_def)
qed

end

section \<open>Runs\<close>

text \<open>
  The states a receiver passes through between a successful begin and its end, with the chunks it
  has accepted so far in order.
\<close>

inductive receive_run ::
  "('s, 'h) pd_file_receiver \<Rightarrow> 's \<Rightarrow> 'h \<Rightarrow> u8 list list \<Rightarrow> ('s, 'h) pd_file_receiver \<Rightarrow> 's \<Rightarrow> 'h \<Rightarrow> bool"
  for r0 :: "('s, 'h) pd_file_receiver" and sw0 :: 's and hw0 :: 'h where
  begun: "pd_file_receiver_begin (Some r0) sw0 hw0 = Some (PD_FILE_RECEIVE_OK, Some r, sw, hw) \<Longrightarrow>
    receive_run r0 sw0 hw0 [] r sw hw"
| accepted: "receive_run r0 sw0 hw0 cs r sw hw \<Longrightarrow> n \<le> length d \<Longrightarrow>
    pd_file_receiver_write (Some r) (Some d) n sw hw = Some (PD_FILE_RECEIVE_OK, Some r', sw', hw') \<Longrightarrow>
    receive_run r0 sw0 hw0 (cs @ [take n d]) r' sw' hw'"
| refused: "receive_run r0 sw0 hw0 cs r sw hw \<Longrightarrow> n \<le> length d \<Longrightarrow>
    pd_file_receiver_write (Some r) (Some d) n sw hw = Some (res, Some r', sw', hw') \<Longrightarrow>
    res \<noteq> PD_FILE_RECEIVE_OK \<Longrightarrow> fr_state r' = PD_FILE_RECEIVE_RECEIVING \<Longrightarrow>
    receive_run r0 sw0 hw0 cs r' sw' hw'"

context receive_env
begin

lemma run_inv:
  assumes "receive_run r0 sw0 hw0 cs r sw hw" and "rinv r0 sw0 hw0" and "fr_state r0 = PD_FILE_RECEIVE_IDLE"
  shows "rinv r sw hw \<and> fr_state r = PD_FILE_RECEIVE_RECEIVING \<and> staged sw = Some (concat cs) \<and>
    published sw = published sw0 \<and> fr_expected_bytes r = fr_expected_bytes r0 \<and>
    fr_expected_sha256 r = fr_expected_sha256 r0 \<and> fr_integrity_configured r = fr_integrity_configured r0"
  using assms
proof (induction rule: receive_run.induct)
  case (begun r sw hw)
  then show ?case using begin_spec [of r0 sw0 hw0] by auto
next
  case (accepted cs r sw hw n d r' sw' hw')
  then show ?case using write_spec [of r sw hw "concat cs" n d] by auto
next
  case (refused cs r sw hw n d res r' sw' hw')
  then show ?case
    using write_spec [of r sw hw "concat cs" n d] by (cases res) (auto simp: failed_def)
qed

end

section \<open>A sink and a hash in memory\<close>

text \<open>
  The simplest backends that satisfy the contracts, on which the witnesses below are evaluated: a
  sink of two optional byte strings, and a 32-byte checksum. The Windows backends satisfy the same
  contracts in their own theories.
\<close>

type_synonym mem_sink = "u8 list option \<times> u8 list option"

definition mem_begin :: "mem_sink \<Rightarrow> u64 \<Rightarrow> (pd_file_sink_status \<times> mem_sink) option" where
  "mem_begin w n = Some (PD_FILE_SINK_OK, Some [], snd w)"

definition mem_write :: "mem_sink \<Rightarrow> u8 list option \<Rightarrow> nat \<Rightarrow> (pd_file_sink_status \<times> nat \<times> mem_sink) option" where
  "mem_write w data n = do {
     d \<leftarrow> data; xs \<leftarrow> mem_slice d 0 n;
     Some (case fst w of
       None \<Rightarrow> (PD_FILE_SINK_IO_ERROR, 0, w)
     | Some bs \<Rightarrow> (PD_FILE_SINK_OK, n, Some (bs @ xs), snd w)) }"

definition mem_commit :: "mem_sink \<Rightarrow> (pd_file_sink_status \<times> mem_sink) option" where
  "mem_commit w = Some (case fst w of
     None \<Rightarrow> (PD_FILE_SINK_IO_ERROR, w) | Some bs \<Rightarrow> (PD_FILE_SINK_OK, None, Some bs))"

definition mem_abort :: "mem_sink \<Rightarrow> mem_sink option" where
  "mem_abort w = Some (None, snd w)"

definition checksum :: "u8 list \<Rightarrow> u8 list" where
  "checksum bs = replicate 32 (sum_list bs)"

definition sum_begin :: "u8 list option \<Rightarrow> (pd_integrity_status \<times> u8 list option) option" where
  "sum_begin w = Some (PD_INTEGRITY_OK, Some [])"

definition sum_update :: "u8 list option \<Rightarrow> u8 list option \<Rightarrow> nat \<Rightarrow> (pd_integrity_status \<times> u8 list option) option" where
  "sum_update w data n = do { d \<leftarrow> data; xs \<leftarrow> mem_slice d 0 n; Some (PD_INTEGRITY_OK, map_option (\<lambda>bs. bs @ xs) w) }"

definition sum_finish :: "u8 list option \<Rightarrow> (pd_integrity_status \<times> u8 list \<times> u8 list option) option" where
  "sum_finish w = Some (case w of None \<Rightarrow> (PD_INTEGRITY_ERROR, [], w) | Some bs \<Rightarrow> (PD_INTEGRITY_OK, checksum bs, None))"

definition sum_abort :: "u8 list option \<Rightarrow> u8 list option option" where
  "sum_abort w = Some None"

lemmas memory_backend = mem_begin_def mem_write_def mem_commit_def mem_abort_def checksum_def
  sum_begin_def sum_update_def sum_finish_def sum_abort_def

interpretation memory: receive_env mem_begin mem_write mem_commit mem_abort "\<lambda>_. True" fst snd
  sum_begin sum_update sum_finish sum_abort "\<lambda>_. True" "\<lambda>w. w" checksum
  by unfold_locales (auto simp: memory_backend mem_slice_def)

section \<open>Properties\<close>

lemma recv_inv_released:
  "recv_inv stab itab sinv staged hinv absorbed r sw hw \<Longrightarrow> fr_state r \<noteq> PD_FILE_RECEIVE_RECEIVING \<Longrightarrow>
   staged sw = None \<and> absorbed hw = None"
  by (simp add: recv_inv_def)

text \<open>C3: For any sink and integrity backend that keep their contracts, finishing a transfer that
  accepted the chunks \<open>cs\<close> always returns. If it reports success, the published file is exactly the
  concatenation of the chunks, its length is the announced size and its digest the announced digest;
  otherwise the published file is what it was before the transfer. A receiver that has left the
  receiving state holds no open staging file and no open hash.\<close>

theorem file_published_intact:
  assumes "receive_env bo wo co ao sinv staged published ib up fi ia hinv absorbed hash"
    and "sinv sw0" and "hinv hw0" and "staged sw0 = None" and "absorbed hw0 = None" and "length sha = 32"
    and "pd_file_receiver_init (Some r) (Some (sink_table bo wo co ao)) fsize = (PD_FILE_RECEIVE_OK, Some r1)"
    and "pd_file_receiver_configure_integrity (Some r1) (Some (integrity_table ib up fi ia)) (Some sha) =
      Some (PD_FILE_RECEIVE_OK, Some r0)"
    and "receive_run r0 sw0 hw0 cs r2 sw hw"
  shows "\<exists>res r' sw' hw'. pd_file_receiver_finish (Some r2) sw hw = Some (res, Some r', sw', hw') \<and>
    (if res = PD_FILE_RECEIVE_OK
     then published sw' = Some (concat cs) \<and> length (concat cs) = unat fsize \<and> hash (concat cs) = sha
     else published sw' = published sw0) \<and>
    (fr_state r' \<noteq> PD_FILE_RECEIVE_RECEIVING \<longrightarrow> staged sw' = None \<and> absorbed hw' = None)"
proof -
  note env = assms(1)
  have r0: "recv_inv (sink_table bo wo co ao) (integrity_table ib up fi ia) sinv staged hinv absorbed r0 sw0 hw0"
    "fr_state r0 = PD_FILE_RECEIVE_IDLE" "fr_expected_bytes r0 = fsize" "fr_expected_sha256 r0 = sha" "fr_integrity_configured r0"
    using receive_env.init_configure [OF env assms(2-6), of r fsize] assms(7,8) by auto
  have run: "recv_inv (sink_table bo wo co ao) (integrity_table ib up fi ia) sinv staged hinv absorbed r2 sw hw"
    "fr_state r2 = PD_FILE_RECEIVE_RECEIVING" "staged sw = Some (concat cs)" "published sw = published sw0"
    "fr_expected_bytes r2 = fsize" "fr_expected_sha256 r2 = sha" "fr_integrity_configured r2"
    using receive_env.run_inv [OF env assms(9) r0(1,2)] r0 by auto
  show ?thesis
    using receive_env.finish_spec [OF env run(1-3)] run(4-7) recv_inv_released by (auto split: if_splits) fastforce+
qed

text \<open>C30: For any backends that keep their contracts, a write during a transfer always returns. It is
  accepted only for a non-empty chunk of at most 1 MiB that fits in the announced size, and then the
  chunk is appended to the staged file; in every case the published file is untouched, and a receiver
  that leaves the receiving state has released both backends.\<close>

theorem file_write_bounded:
  assumes "receive_env bo wo co ao sinv staged published ib up fi ia hinv absorbed hash"
    and "recv_inv (sink_table bo wo co ao) (integrity_table ib up fi ia) sinv staged hinv absorbed r sw hw"
    and "fr_state r = PD_FILE_RECEIVE_RECEIVING" and "staged sw = Some bs" and "n \<le> length d"
  shows "\<exists>res r' sw' hw'. pd_file_receiver_write (Some r) (Some d) n sw hw = Some (res, Some r', sw', hw') \<and>
    recv_inv (sink_table bo wo co ao) (integrity_table ib up fi ia) sinv staged hinv absorbed r' sw' hw' \<and>
    published sw' = published sw \<and>
    (res = PD_FILE_RECEIVE_OK \<longrightarrow> 0 < n \<and> n \<le> 1048576 \<and> length bs + n \<le> unat (fr_expected_bytes r) \<and>
       staged sw' = Some (bs @ take n d)) \<and>
    (fr_state r' \<noteq> PD_FILE_RECEIVE_RECEIVING \<longrightarrow> staged sw' = None \<and> absorbed hw' = None)"
  using receive_env.write_spec [OF assms] recv_inv_released by fastforce

definition example_receiver :: "(mem_sink, u8 list option) pd_file_receiver" where
  "example_receiver = \<lparr>fr_sink_ops = Some (sink_table mem_begin mem_write mem_commit mem_abort),
     fr_integrity_ops = Some (integrity_table sum_begin sum_update sum_finish sum_abort),
     fr_expected_sha256 = replicate 32 6, fr_expected_bytes = 3, fr_received_bytes = 0,
     fr_state = PD_FILE_RECEIVE_IDLE, fr_sink_started = False, fr_integrity_configured = True,
     fr_integrity_started = False\<rparr>"

definition example_receiving :: "u64 \<Rightarrow> (mem_sink, u8 list option) pd_file_receiver" where
  "example_receiving n = example_receiver\<lparr>fr_received_bytes := n, fr_state := PD_FILE_RECEIVE_RECEIVING,
     fr_sink_started := True, fr_integrity_started := True\<rparr>"

theorem file_write_bounded_witness:
  "\<exists>res r' sw' hw'. pd_file_receiver_write (Some (example_receiving 1)) (Some [2, 3]) 2 (Some [1], None) (Some [1]) =
     Some (res, Some r', sw', hw') \<and> snd sw' = None"
  using file_write_bounded [OF memory.receive_env_axioms, of "example_receiving 1" "(Some [1], None)" "Some [1]" "[1]" 2 "[2, 3]"]
  by (simp add: recv_inv_def example_receiving_def example_receiver_def) blast

theorem file_published_intact_witness:
  "\<exists>r' sw' hw'. pd_file_receiver_finish (Some (example_receiving 3)) (Some [1, 2, 3], None) (Some [1, 2, 3]) =
      Some (PD_FILE_RECEIVE_OK, Some r', sw', hw') \<and> snd sw' = Some [1, 2, 3] \<and> fst sw' = None"
proof -
  let ?ops = "Some (sink_table mem_begin mem_write mem_commit mem_abort)"
  let ?iops = "Some (integrity_table sum_begin sum_update sum_finish sum_abort)"
  let ?sha = "replicate 32 (6 :: u8)"
  let ?r1 = "snd (pd_file_receiver_init (Some example_receiver) ?ops 3)"
  note defs = example_receiving_def example_receiver_def sink_table_def integrity_table_def
  have i: "pd_file_receiver_init (Some example_receiver) ?ops 3 =
      (PD_FILE_RECEIVE_OK, Some (example_receiver\<lparr>fr_integrity_ops := None, fr_expected_sha256 := replicate 32 0,
        fr_integrity_configured := False\<rparr>))"
    by (simp add: pd_file_receiver_init_def pd_file_sink_is_configured_def defs)
  have c: "pd_file_receiver_configure_integrity (Some (example_receiver\<lparr>fr_integrity_ops := None,
        fr_expected_sha256 := replicate 32 0, fr_integrity_configured := False\<rparr>)) ?iops (Some ?sha) =
      Some (PD_FILE_RECEIVE_OK, Some example_receiver)"
    by (simp add: pd_file_receiver_configure_integrity_def pd_integrity_is_configured_def defs memcpy_def
      mem_slice_def put_0)
  have "receive_run example_receiver (None, None) None [] (example_receiving 0) (Some [], None) (Some [])"
    by (rule receive_run.begun) (simp add: pd_file_receiver_begin_def pd_file_sink_is_configured_def defs
      memory_backend)
  then have "receive_run example_receiver (None, None) None ([] @ [take 1 [1, 9]])
      (example_receiving 1) (Some [1], None) (Some [1])"
    by (rule receive_run.accepted) (simp_all add: pd_file_receiver_write_def defs memory_backend mem_slice_def Let_def)
  then have "receive_run example_receiver (None, None) None (([] @ [take 1 [1, 9]]) @ [take 2 [2, 3]])
      (example_receiving 3) (Some [1, 2, 3], None) (Some [1, 2, 3])"
    by (rule receive_run.accepted) (simp_all add: pd_file_receiver_write_def defs memory_backend mem_slice_def Let_def)
  from file_published_intact [OF memory.receive_env_axioms _ _ _ _ _ i c this]
  obtain res r' sw' hw' where f: "pd_file_receiver_finish (Some (example_receiving 3)) (Some [1, 2, 3], None) (Some [1, 2, 3]) =
      Some (res, Some r', sw', hw')"
    "if res = PD_FILE_RECEIVE_OK then snd sw' = Some [1, 2, 3] else snd sw' = None"
    "fr_state r' \<noteq> PD_FILE_RECEIVE_RECEIVING \<longrightarrow> fst sw' = None"
    by (auto split: if_splits)
  moreover have "pd_digest_equal (Some ?sha) (Some ?sha) = Some True"
    by (simp add: pd_digest_equal_iff)
  then have "pd_file_receiver_finish (Some (example_receiving 3)) (Some [1, 2, 3], None) (Some [1, 2, 3]) =
      Some (PD_FILE_RECEIVE_OK, Some ((example_receiving 3)\<lparr>fr_integrity_started := False, fr_sink_started := False,
        fr_state := PD_FILE_RECEIVE_COMPLETE\<rparr>), (None, Some [1, 2, 3]), None)"
    by (simp add: pd_file_receiver_finish_def finish_commit_def defs memory_backend Let_def)
  ultimately show ?thesis by auto
qed

text \<open>C31: Aborting a transfer always returns, releases the staging file and the hash, and never changes
  the published file; on a receiver that is not receiving it does nothing.\<close>

theorem file_abort_releases:
  assumes "receive_env bo wo co ao sinv staged published ib up fi ia hinv absorbed hash"
    and "recv_inv (sink_table bo wo co ao) (integrity_table ib up fi ia) sinv staged hinv absorbed r sw hw"
  shows "\<exists>r' sw' hw'. pd_file_receiver_abort (Some r) sw hw = Some (Some r', sw', hw') \<and>
    published sw' = published sw \<and> staged sw' = None \<and> absorbed hw' = None \<and>
    (if fr_state r = PD_FILE_RECEIVE_RECEIVING then fr_state r' = PD_FILE_RECEIVE_ABORTED
     else r' = r \<and> sw' = sw \<and> hw' = hw)"
  using receive_env.abort_spec [OF assms] recv_inv_released by (fastforce split: if_splits)

theorem file_abort_releases_witness:
  "\<exists>r' sw' hw'. pd_file_receiver_abort (Some (example_receiving 1)) (Some [1], Some [7]) (Some [1]) =
     Some (Some r', sw', hw') \<and> fst sw' = None \<and> snd sw' = Some [7] \<and> hw' = None"
  using file_abort_releases [OF memory.receive_env_axioms, of "example_receiving 1" "(Some [1], Some [7])" "Some [1]"]
  by (simp add: recv_inv_def example_receiving_def example_receiver_def) blast

end
