(* ===== verification/PD_Win32FileSink.thy ===== *)
theory PD_Win32FileSink
  imports PD_Session PD_Filename PD_FileReceive
begin

text \<open>
  The Windows file sink (\<^verbatim>\<open>win32_file_sink.c\<close>): it builds the paths of a job under the receive
  directory, writes a staging file and renames it to its final name.

  The Windows calls are parameters, the record \<open>win32_file_api\<close> over a file system state \<open>'f\<close>. The
  locale \<open>win32_fs\<close> states what the documentation of the calls promises, relative to a view of the
  file system as a map from file identities to contents; \<open>canon\<close> is the identity a path names, so
  that nothing here depends on how Windows compares names. A wide character is a 16-bit word.
\<close>

type_synonym wchar = u16
type_synonym win_handle = u64

definition INVALID_HANDLE_VALUE :: win_handle where "INVALID_HANDLE_VALUE = - 1"
definition INVALID_FILE_ATTRIBUTES :: u32 where "INVALID_FILE_ATTRIBUTES = - 1"
definition FILE_ATTRIBUTE_DIRECTORY :: u32 where "FILE_ATTRIBUTE_DIRECTORY = 0x10"
definition ERROR_ALREADY_EXISTS :: u32 where "ERROR_ALREADY_EXISTS = 183"
definition GENERIC_WRITE :: u32 where "GENERIC_WRITE = 0x40000000"
definition CREATE_NEW :: u32 where "CREATE_NEW = 1"
definition FILE_ATTRIBUTE_NORMAL :: u32 where "FILE_ATTRIBUTE_NORMAL = 0x80"
definition FILE_FLAG_SEQUENTIAL_SCAN :: u32 where "FILE_FLAG_SEQUENTIAL_SCAN = 0x08000000"
definition MOVEFILE_REPLACE_EXISTING :: u32 where "MOVEFILE_REPLACE_EXISTING = 1"
definition MOVEFILE_WRITE_THROUGH :: u32 where "MOVEFILE_WRITE_THROUGH = 8"
definition CP_UTF8 :: u32 where "CP_UTF8 = 65001"
definition MB_ERR_INVALID_CHARS :: u32 where "MB_ERR_INVALID_CHARS = 8"
definition MAXDWORD :: nat where "MAXDWORD = 4294967295"

section \<open>Wide strings\<close>

definition w_str :: "wchar list \<Rightarrow> wchar list" where
  "w_str m = takeWhile (\<lambda>c. c \<noteq> 0) m"

text \<open>A wide string handed to the system, and \<^verbatim>\<open>wcslen\<close>: both run past an unterminated buffer.\<close>

definition w_arg :: "wchar list \<Rightarrow> wchar list option" where
  "w_arg m = (if 0 \<in> set m then Some (w_str m) else None)"

definition wcslen :: "wchar list \<Rightarrow> nat option" where
  "wcslen m = map_option length (w_arg m)"

definition w_lit :: "string \<Rightarrow> wchar list" where
  "w_lit s = map of_char s"

definition strcmp_ne :: "u8 list \<Rightarrow> u8 list \<Rightarrow> bool option" where
  "strcmp_ne a b = (if 0 \<in> set a \<and> 0 \<in> set b then Some (c_str a \<noteq> c_str b) else None)"

text \<open>\<^verbatim>\<open>wcscat_s\<close>: the text must fit, or the invalid parameter handler ends the process.\<close>

definition wcscat_s :: "wchar list \<Rightarrow> nat \<Rightarrow> wchar list \<Rightarrow> wchar list option" where
  "wcscat_s dst capacity src = do {
     n \<leftarrow> wcslen dst;
     if n + length src + 1 \<le> capacity then put dst n (src @ [0]) else None }"

section \<open>The Windows calls\<close>

text \<open>
  The arguments are the ones the code sets: the path, access, sharing mode, disposition and flags of
  \<^verbatim>\<open>CreateFileW\<close> (its security attributes and template are null), the flags of \<^verbatim>\<open>MoveFileExW\<close> and
  \<^verbatim>\<open>MultiByteToWideChar\<close>. A call on a handle yields \<open>None\<close> when the handle has no defined meaning.
\<close>

record 'f win32_file_api =
  CreateDirectoryW :: "'f \<Rightarrow> wchar list \<Rightarrow> bool \<times> 'f"
  GetLastError :: "'f \<Rightarrow> u32"
  GetFileAttributesW :: "'f \<Rightarrow> wchar list \<Rightarrow> u32 \<times> 'f"
  CreateFileW :: "'f \<Rightarrow> wchar list \<Rightarrow> u32 \<Rightarrow> u32 \<Rightarrow> u32 \<Rightarrow> u32 \<Rightarrow> win_handle \<times> 'f"
  WriteFile :: "'f \<Rightarrow> win_handle \<Rightarrow> u8 list \<Rightarrow> (bool \<times> u32 \<times> 'f) option"
  FlushFileBuffers :: "'f \<Rightarrow> win_handle \<Rightarrow> (bool \<times> 'f) option"
  CloseHandle :: "'f \<Rightarrow> win_handle \<Rightarrow> (bool \<times> 'f) option"
  MoveFileExW :: "'f \<Rightarrow> wchar list \<Rightarrow> wchar list \<Rightarrow> u32 \<Rightarrow> bool \<times> 'f"
  DeleteFileW :: "'f \<Rightarrow> wchar list \<Rightarrow> bool \<times> 'f"
  MultiByteToWideChar :: "u32 \<Rightarrow> u32 \<Rightarrow> u8 list \<Rightarrow> nat \<Rightarrow> nat \<times> wchar list"

section \<open>Data\<close>

definition PD_WIN32_PATH_CAPACITY :: nat where "PD_WIN32_PATH_CAPACITY = 260"

lemma PD_WIN32_PATH_CAPACITY_260 [simp]: "PD_WIN32_PATH_CAPACITY = 260"
  by (simp add: PD_WIN32_PATH_CAPACITY_def)

record pd_win32_file_sink =
  ws_file_handle :: win_handle
  ws_job_directory :: "wchar list"
  ws_staging_path :: "wchar list"
  ws_final_path :: "wchar list"
  ws_initialized :: bool

datatype pd_win32_sink_result =
    PD_WIN32_SINK_OK
  | PD_WIN32_SINK_INVALID_ARGUMENT
  | PD_WIN32_SINK_INVALID_FILENAME
  | PD_WIN32_SINK_INVALID_JOB_ID
  | PD_WIN32_SINK_INVALID_UTF8
  | PD_WIN32_SINK_PATH_TOO_LONG

section \<open>Operations\<close>

definition pd_win32_handle_is_open :: "pd_win32_file_sink \<Rightarrow> bool" where
  "pd_win32_handle_is_open sink \<longleftrightarrow> ws_file_handle sink \<noteq> 0 \<and> ws_file_handle sink \<noteq> INVALID_HANDLE_VALUE"

definition pd_win32_directory_exists :: "'f win32_file_api \<Rightarrow> wchar list \<Rightarrow> 'f \<Rightarrow> (bool \<times> 'f) option" where
  "pd_win32_directory_exists api path f = do {
     p \<leftarrow> w_arg path;
     let (attributes, f) = GetFileAttributesW api f p;
     Some (attributes \<noteq> INVALID_FILE_ATTRIBUTES \<and> and attributes FILE_ATTRIBUTE_DIRECTORY \<noteq> 0, f) }"

definition pd_win32_ensure_directory :: "'f win32_file_api \<Rightarrow> wchar list \<Rightarrow> 'f \<Rightarrow> (bool \<times> 'f) option" where
  "pd_win32_ensure_directory api path f = do {
     p \<leftarrow> w_arg path;
     let (created, f) = CreateDirectoryW api f p;
     if created then Some (True, f)
     else if GetLastError api f = ERROR_ALREADY_EXISTS then pd_win32_directory_exists api path f
     else Some (False, f) }"

definition pd_win32_append_component ::
  "wchar list \<Rightarrow> nat \<Rightarrow> wchar list \<Rightarrow> (bool \<times> wchar list) option" where
  "pd_win32_append_component destination capacity component = do {
     destination_length \<leftarrow> wcslen destination;
     component_length \<leftarrow> wcslen component;
     needs_separator \<leftarrow> c_and (Some (0 < destination_length))
       (c_and (rd_ne destination (destination_length - 1) (of_char (CHR 0x5C)))
              (rd_ne destination (destination_length - 1) (of_char (CHR ''/''))));
     let required = destination_length + (if needs_separator then 1 else 0) + component_length + 1;
     if capacity < required then Some (False, destination)
     else do {
       (destination, destination_length) \<leftarrow>
         (if needs_separator
          then do {
            d \<leftarrow> wr destination destination_length (of_char (CHR 0x5C));
            Some (d, destination_length + 1) }
          else Some (destination, destination_length));
       destination \<leftarrow> memcpy destination destination_length component 0 (component_length + 1);
       Some (True, destination) } }"

definition pd_win32_copy_path :: "wchar list \<Rightarrow> nat \<Rightarrow> wchar list \<Rightarrow> (bool \<times> wchar list) option" where
  "pd_win32_copy_path destination capacity source = do {
     n \<leftarrow> wcslen source;
     if capacity < n + 1 then Some (False, destination)
     else do {
       destination \<leftarrow> memcpy destination 0 source 0 (n + 1);
       Some (True, destination) } }"

definition pd_win32_job_id_to_wide :: "u8 list option \<Rightarrow> wchar list \<Rightarrow> (bool \<times> wchar list) option" where
  "pd_win32_job_id_to_wide job_id output = do {
     valid \<leftarrow> pd_job_id_is_valid job_id;
     if \<not> valid then Some (False, output)
     else do {
       j \<leftarrow> job_id;
       output \<leftarrow> for_n 0 PD_JOB_ID_HEX_CHARS (\<lambda>index output. do {
         c \<leftarrow> rd j index;
         wr output index (ucast c) }) output;
       output \<leftarrow> wr output PD_JOB_ID_HEX_CHARS 0;
       Some (True, output) } }"

definition pd_win32_sink_begin ::
  "'f win32_file_api \<Rightarrow> pd_win32_file_sink option \<Rightarrow> u64 \<Rightarrow> 'f \<Rightarrow>
   (pd_file_sink_status \<times> pd_win32_file_sink option \<times> 'f) option" where
  "pd_win32_sink_begin api context expected_bytes f =
     (case context of
        None \<Rightarrow> Some (PD_FILE_SINK_IO_ERROR, context, f)
      | Some sink \<Rightarrow>
          if \<not> ws_initialized sink \<or> pd_win32_handle_is_open sink then Some (PD_FILE_SINK_IO_ERROR, context, f)
          else do {
            (ok, f) \<leftarrow> pd_win32_ensure_directory api (ws_job_directory sink) f;
            if \<not> ok then Some (PD_FILE_SINK_IO_ERROR, context, f)
            else do {
              p \<leftarrow> w_arg (ws_staging_path sink);
              let (handle, f) = CreateFileW api f p GENERIC_WRITE 0 CREATE_NEW
                (or FILE_ATTRIBUTE_NORMAL FILE_FLAG_SEQUENTIAL_SCAN);
              if handle = INVALID_HANDLE_VALUE then Some (PD_FILE_SINK_IO_ERROR, context, f)
              else Some (PD_FILE_SINK_OK, Some (sink\<lparr>ws_file_handle := handle\<rparr>), f) } })"

definition pd_win32_sink_write ::
  "'f win32_file_api \<Rightarrow> pd_win32_file_sink option \<Rightarrow> u8 list option \<Rightarrow> nat \<Rightarrow> 'f \<Rightarrow>
   (pd_file_sink_status \<times> nat \<times> pd_win32_file_sink option \<times> 'f) option" where
  "pd_win32_sink_write api context data data_size f =
     (case context of
        None \<Rightarrow> Some (PD_FILE_SINK_IO_ERROR, 0, context, f)
      | Some sink \<Rightarrow>
          if \<not> pd_win32_handle_is_open sink \<or> (data = None \<and> data_size \<noteq> 0) \<or> MAXDWORD < data_size
          then Some (PD_FILE_SINK_IO_ERROR, 0, context, f)
          else do {
            bytes \<leftarrow> (case data of None \<Rightarrow> Some [] | Some d \<Rightarrow> mem_slice d 0 data_size);
            (ok, written, f) \<leftarrow> WriteFile api f (ws_file_handle sink) bytes;
            if \<not> ok then Some (PD_FILE_SINK_IO_ERROR, 0, context, f)
            else Some (PD_FILE_SINK_OK, unat written, context, f) })"

definition pd_win32_sink_commit ::
  "'f win32_file_api \<Rightarrow> pd_win32_file_sink option \<Rightarrow> 'f \<Rightarrow>
   (pd_file_sink_status \<times> pd_win32_file_sink option \<times> 'f) option" where
  "pd_win32_sink_commit api context f =
     (case context of
        None \<Rightarrow> Some (PD_FILE_SINK_IO_ERROR, context, f)
      | Some sink \<Rightarrow>
          if \<not> pd_win32_handle_is_open sink then Some (PD_FILE_SINK_IO_ERROR, context, f)
          else do {
            let handle = ws_file_handle sink;
            (flushed, f) \<leftarrow> FlushFileBuffers api f handle;
            if \<not> flushed then Some (PD_FILE_SINK_IO_ERROR, context, f)
            else do {
              (closed, f) \<leftarrow> CloseHandle api f handle;
              if \<not> closed then Some (PD_FILE_SINK_IO_ERROR, context, f)
              else do {
                let sink = sink\<lparr>ws_file_handle := INVALID_HANDLE_VALUE\<rparr>;
                src \<leftarrow> w_arg (ws_staging_path sink);
                dst \<leftarrow> w_arg (ws_final_path sink);
                let (moved, f) = MoveFileExW api f src dst MOVEFILE_WRITE_THROUGH;
                Some (if moved then PD_FILE_SINK_OK else PD_FILE_SINK_IO_ERROR, Some sink, f) } } })"

definition pd_win32_sink_abort ::
  "'f win32_file_api \<Rightarrow> pd_win32_file_sink option \<Rightarrow> 'f \<Rightarrow> (pd_win32_file_sink option \<times> 'f) option" where
  "pd_win32_sink_abort api context f =
     (case context of
        None \<Rightarrow> Some (context, f)
      | Some sink \<Rightarrow> do {
          (sink, f) \<leftarrow>
            (if pd_win32_handle_is_open sink
             then do {
               (_, f) \<leftarrow> CloseHandle api f (ws_file_handle sink);
               Some (sink\<lparr>ws_file_handle := INVALID_HANDLE_VALUE\<rparr>, f) }
             else Some (sink, f));
          first \<leftarrow> rd (ws_staging_path sink) 0;
          if first \<noteq> 0
          then do {
            p \<leftarrow> w_arg (ws_staging_path sink);
            Some (Some sink, snd (DeleteFileW api f p)) }
          else Some (Some sink, f) })"

text \<open>Every path is built by copying a directory and appending a component, which may both refuse.\<close>

definition build_path :: "wchar list \<Rightarrow> wchar list \<Rightarrow> wchar list \<Rightarrow> (bool \<times> wchar list) option" where
  "build_path destination source component = do {
     (ok, d) \<leftarrow> pd_win32_copy_path destination PD_WIN32_PATH_CAPACITY source;
     if \<not> ok then Some (False, d) else pd_win32_append_component d PD_WIN32_PATH_CAPACITY component }"

text \<open>The local buffers start indeterminate; each is read only after it was filled, so they are zero here.\<close>

definition pd_win32_file_sink_init ::
  "'f win32_file_api \<Rightarrow> pd_win32_file_sink option \<Rightarrow> wchar list option \<Rightarrow> u8 list option \<Rightarrow> u8 list option \<Rightarrow> 'f \<Rightarrow>
   (pd_win32_sink_result \<times> pd_win32_file_sink option \<times> 'f) option" where
  "pd_win32_file_sink_init api sink root_directory job_id sanitized_filename f =
     (case (sink, root_directory, job_id, sanitized_filename) of
        (Some _, Some root, Some jid, Some name) \<Rightarrow> do {
          first \<leftarrow> rd root 0;
          if first = 0 then Some (PD_WIN32_SINK_INVALID_ARGUMENT, sink, f)
          else do {
            let s = \<lparr>ws_file_handle = INVALID_HANDLE_VALUE, ws_job_directory = replicate PD_WIN32_PATH_CAPACITY 0,
              ws_staging_path = replicate PD_WIN32_PATH_CAPACITY 0, ws_final_path = replicate PD_WIN32_PATH_CAPACITY 0,
              ws_initialized = False\<rparr>;
            valid \<leftarrow> pd_job_id_is_valid job_id;
            (converted, wide_job_id) \<leftarrow>
              (if valid then pd_win32_job_id_to_wide job_id (replicate PD_JOB_ID_CAPACITY 0)
               else Some (False, replicate PD_JOB_ID_CAPACITY 0));
            if \<not> valid \<or> \<not> converted then Some (PD_WIN32_SINK_INVALID_JOB_ID, Some s, f)
            else do {
              (fr, checked, _) \<leftarrow> pd_filename_sanitize sanitized_filename (Some (replicate PD_FILENAME_CAPACITY 0))
                PD_FILENAME_CAPACITY None;
              differs \<leftarrow> (if fr \<noteq> PD_FILENAME_OK then Some True else do { c \<leftarrow> checked; strcmp_ne c name });
              if differs then Some (PD_WIN32_SINK_INVALID_FILENAME, Some s, f)
              else if 0 \<notin> set name then None
              else let (wide_length, wide_filename) = MultiByteToWideChar api CP_UTF8 MB_ERR_INVALID_CHARS (c_str name)
                  PD_FILENAME_CAPACITY in
                if wide_length = 0 then Some (PD_WIN32_SINK_INVALID_UTF8, Some s, f)
                else do {
                  (ok, d) \<leftarrow> build_path (ws_job_directory s) root wide_job_id;
                  let s = s\<lparr>ws_job_directory := d\<rparr>;
                  if \<not> ok then Some (PD_WIN32_SINK_PATH_TOO_LONG, Some s, f)
                  else do {
                    (ok, d) \<leftarrow> build_path (ws_final_path s) (ws_job_directory s) wide_filename;
                    let s = s\<lparr>ws_final_path := d\<rparr>;
                    if \<not> ok then Some (PD_WIN32_SINK_PATH_TOO_LONG, Some s, f)
                    else do {
                      n \<leftarrow> wcslen wide_filename;
                      if PD_FILENAME_CAPACITY + 6 < n + 6 then Some (PD_WIN32_SINK_PATH_TOO_LONG, Some s, f)
                      else do {
                        staging_name \<leftarrow> memcpy (replicate (PD_FILENAME_CAPACITY + 6) 0) 0 wide_filename 0 (n + 1);
                        staging_name \<leftarrow> wcscat_s staging_name (PD_FILENAME_CAPACITY + 6) (w_lit ''.part'');
                        (ok, d) \<leftarrow> build_path (ws_staging_path s) (ws_job_directory s) staging_name;
                        let s = s\<lparr>ws_staging_path := d\<rparr>;
                        if \<not> ok then Some (PD_WIN32_SINK_PATH_TOO_LONG, Some s, f)
                        else do {
                          (ensured, f) \<leftarrow> pd_win32_ensure_directory api root f;
                          if \<not> ensured then Some (PD_WIN32_SINK_INVALID_ARGUMENT, Some s, f)
                          else Some (PD_WIN32_SINK_OK, Some (s\<lparr>ws_initialized := True\<rparr>), f) } } } } } } } }
      | _ \<Rightarrow> Some (PD_WIN32_SINK_INVALID_ARGUMENT, sink, f))"

text \<open>The callback table of the sink, on the state of a sink object and the file system.\<close>

type_synonym 'f sink_state = "pd_win32_file_sink \<times> 'f"

definition sink_begin_fn :: "'f win32_file_api \<Rightarrow> 'f sink_state \<Rightarrow> u64 \<Rightarrow> (pd_file_sink_status \<times> 'f sink_state) option" where
  "sink_begin_fn api w n = do {
     (st, s, f) \<leftarrow> pd_win32_sink_begin api (Some (fst w)) n (snd w); s' \<leftarrow> s; Some (st, s', f) }"

definition sink_write_fn ::
  "'f win32_file_api \<Rightarrow> 'f sink_state \<Rightarrow> u8 list option \<Rightarrow> nat \<Rightarrow> (pd_file_sink_status \<times> nat \<times> 'f sink_state) option" where
  "sink_write_fn api w d n = do {
     (st, k, s, f) \<leftarrow> pd_win32_sink_write api (Some (fst w)) d n (snd w); s' \<leftarrow> s; Some (st, k, s', f) }"

definition sink_commit_fn :: "'f win32_file_api \<Rightarrow> 'f sink_state \<Rightarrow> (pd_file_sink_status \<times> 'f sink_state) option" where
  "sink_commit_fn api w = do {
     (st, s, f) \<leftarrow> pd_win32_sink_commit api (Some (fst w)) (snd w); s' \<leftarrow> s; Some (st, s', f) }"

definition sink_abort_fn :: "'f win32_file_api \<Rightarrow> 'f sink_state \<Rightarrow> 'f sink_state option" where
  "sink_abort_fn api w = do {
     (s, f) \<leftarrow> pd_win32_sink_abort api (Some (fst w)) (snd w); s' \<leftarrow> s; Some (s', f) }"

definition pd_win32_file_sink_ops :: "'f win32_file_api \<Rightarrow> 'f sink_state pd_file_sink_ops" where
  "pd_win32_file_sink_ops api =
     sink_table (sink_begin_fn api) (sink_write_fn api) (sink_commit_fn api) (sink_abort_fn api)"

section \<open>What the calls promise\<close>

text \<open>
  \<open>files\<close> is the contents of every file and \<open>opened\<close> the file a live handle writes. The laws are about the
  calls with the arguments of the code, and nothing is known of a call with others or on a handle that is
  not live. \<^verbatim>\<open>CreateFileW\<close> with \<^verbatim>\<open>GENERIC_WRITE\<close> and \<^verbatim>\<open>CREATE_NEW\<close> succeeds only on a name that does not
  exist; \<^verbatim>\<open>WriteFile\<close> appends what it reports as written, because the handle is written only
  sequentially; \<^verbatim>\<open>MoveFileExW\<close> with \<^verbatim>\<open>MOVEFILE_WRITE_THROUGH\<close> alone, so without
  \<^verbatim>\<open>MOVEFILE_REPLACE_EXISTING\<close>, never replaces a file. A call that fails changes no file, except that
  a failed write may have changed the file of its handle. \<open>canon_part\<close> says that a name and that name
  with \<^verbatim>\<open>.part\<close> appended are different files. \<^verbatim>\<open>MultiByteToWideChar\<close> reports the characters it wrote
  with their terminator, and a character below 128 stands for that same byte.
\<close>

locale win32_fs =
  fixes api :: "'f win32_file_api"
    and canon :: "wchar list \<Rightarrow> 'k"
    and files :: "'f \<Rightarrow> 'k \<Rightarrow> u8 list option"
    and opened :: "'f \<Rightarrow> win_handle \<Rightarrow> 'k option"
  assumes canon_part: "canon (p @ w_lit ''.part'') \<noteq> canon p"
    and mkdir: "CreateDirectoryW api f p = (ok, f') \<Longrightarrow> files f' = files f \<and> opened f' = opened f"
    and attributes: "GetFileAttributesW api f p = (a, f') \<Longrightarrow> files f' = files f \<and> opened f' = opened f"
    and create_new: "CreateFileW api f p GENERIC_WRITE 0 CREATE_NEW (or FILE_ATTRIBUTE_NORMAL FILE_FLAG_SEQUENTIAL_SCAN) = (h, f') \<Longrightarrow>
      if h = INVALID_HANDLE_VALUE then files f' = files f \<and> opened f' = opened f
      else h \<noteq> 0 \<and> opened f h = None \<and> opened f' = (opened f)(h \<mapsto> canon p) \<and>
        files f (canon p) = None \<and> files f' = (files f)(canon p \<mapsto> [])"
    and write_file: "opened f h = Some k \<Longrightarrow> files f k = Some bs \<Longrightarrow>
      \<exists>done n f'. WriteFile api f h d = Some (done, n, f') \<and>
        opened f' = opened f \<and> files f' k \<noteq> None \<and> (\<forall>q. q \<noteq> k \<longrightarrow> files f' q = files f q) \<and>
        (done \<longrightarrow> unat n \<le> length d \<and> files f' k = Some (bs @ take (unat n) d))"
    and flush: "opened f h = Some k \<Longrightarrow>
      \<exists>flushed f'. FlushFileBuffers api f h = Some (flushed, f') \<and> files f' = files f \<and> opened f' = opened f"
    and close: "opened f h = Some k \<Longrightarrow>
      \<exists>closed f'. CloseHandle api f h = Some (closed, f') \<and> files f' = files f \<and>
        opened f' = (if closed then (opened f)(h := None) else opened f)"
    and move: "MoveFileExW api f p q MOVEFILE_WRITE_THROUGH = (moved, f') \<Longrightarrow> canon p \<noteq> canon q \<Longrightarrow>
      opened f' = opened f \<and>
      (if moved then files f (canon q) = None \<and> files f (canon p) \<noteq> None \<and>
         files f' = (files f)(canon q := files f (canon p), canon p := None)
       else files f' = files f)"
    and delete: "DeleteFileW api f p = (deleted, f') \<Longrightarrow>
      opened f' = opened f \<and> files f' = (if deleted then (files f)(canon p := None) else files f)"
    and widen: "MultiByteToWideChar api CP_UTF8 MB_ERR_INVALID_CHARS u cap = (len, buf) \<Longrightarrow> len \<noteq> 0 \<Longrightarrow>
      length buf = cap \<and> 0 \<in> set buf \<and> length (w_str buf) + 1 = len \<and>
      (\<forall>c \<in> set (w_str buf). c < 128 \<longrightarrow> ucast c \<in> set u)"

text \<open>The invariant of a sink object, what it has staged and what is under its final name.\<close>

definition wsink_shape :: "pd_win32_file_sink \<Rightarrow> bool" where
  "wsink_shape s \<longleftrightarrow> length (ws_job_directory s) = 260 \<and> length (ws_staging_path s) = 260 \<and> length (ws_final_path s) = 260 \<and>
     0 \<in> set (ws_job_directory s) \<and> 0 \<in> set (ws_staging_path s) \<and> 0 \<in> set (ws_final_path s)"

definition wsink_inv where
  "wsink_inv canon files opened w \<longleftrightarrow> (case w of (s, f) \<Rightarrow>
     wsink_shape s \<and> canon (w_str (ws_staging_path s)) \<noteq> canon (w_str (ws_final_path s)) \<and>
     (pd_win32_handle_is_open s \<longrightarrow>
        opened f (ws_file_handle s) = Some (canon (w_str (ws_staging_path s))) \<and>
        files f (canon (w_str (ws_staging_path s))) \<noteq> None))"

definition wsink_staged where
  "wsink_staged canon files w = (case w of (s, f) \<Rightarrow>
     if pd_win32_handle_is_open s then files f (canon (w_str (ws_staging_path s))) else None)"

definition wsink_published where
  "wsink_published canon files w = (case w of (s, f) \<Rightarrow> files f (canon (w_str (ws_final_path s))))"

text \<open>A directory can be used: it was created, or a directory of that name is already there.\<close>

definition directory_ready :: "'f win32_file_api \<Rightarrow> wchar list \<Rightarrow> 'f \<Rightarrow> bool" where
  "directory_ready api p f \<longleftrightarrow> (case CreateDirectoryW api f p of (created, f1) \<Rightarrow>
     created \<or> GetLastError api f1 = 183 \<and>
       (case GetFileAttributesW api f1 p of (a, _) \<Rightarrow> a \<noteq> - 1 \<and> bit a 4))"

lemma INVALID_not_null [simp]: "INVALID_HANDLE_VALUE \<noteq> 0"
  by (simp add: INVALID_HANDLE_VALUE_def)

context win32_fs
begin

abbreviation "inv_s \<equiv> wsink_inv canon files opened"

abbreviation "staged_s \<equiv> wsink_staged canon files"

abbreviation "published_s \<equiv> wsink_published canon files"

lemma ensure_directory_eq:
  assumes "0 \<in> set path"
  obtains f' where "pd_win32_ensure_directory api path f = Some (directory_ready api (w_str path) f, f')"
    "files f' = files f" "opened f' = opened f"
proof -
  obtain c f1 where d: "CreateDirectoryW api f (w_str path) = (c, f1)" by fastforce
  obtain a f2 where t: "GetFileAttributesW api f1 (w_str path) = (a, f2)" by fastforce
  have k: "files f1 = files f" "opened f1 = opened f" "files f2 = files f" "opened f2 = opened f"
    using mkdir [OF d] attributes [OF t] by simp_all
  have "and a 0x10 \<noteq> 0 \<longleftrightarrow> bit a 4"  using and_exp_eq_0_iff_not_bit [of a 4] by simp_all
  then show ?thesis
    using assms k that by (cases c; cases "GetLastError api f1 = 183")
      (simp_all add: pd_win32_ensure_directory_def pd_win32_directory_exists_def w_arg_def d t directory_ready_def
        ERROR_ALREADY_EXISTS_def INVALID_FILE_ATTRIBUTES_def FILE_ATTRIBUTE_DIRECTORY_def)
qed

lemma ensure_directory_keeps:
  assumes "0 \<in> set path"
  obtains ok f' where "pd_win32_ensure_directory api path f = Some (ok, f')" "files f' = files f" "opened f' = opened f"
  using ensure_directory_eq [OF assms] by metis

end

section \<open>Paths\<close>

lemma w_str_terminated [simp]: "0 \<notin> set s \<Longrightarrow> w_str (s @ 0 # rest) = s"
  by (induction s) (auto simp: w_str_def)

lemma w_str_no_nul [simp]: "0 \<notin> set (w_str m)"
  by (auto simp: w_str_def dest: set_takeWhileD)

lemma w_str_decomp:
  assumes "0 \<in> set m"
  obtains rest where "m = w_str m @ 0 # rest"
proof -
  have "dropWhile (\<lambda>c. c \<noteq> 0) m \<noteq> []" using assms by simp
  moreover have "hd (dropWhile (\<lambda>c. c \<noteq> 0) m) = 0"
    using assms by (metis (mono_tags, lifting) calculation hd_dropWhile)
  ultimately have "m = w_str m @ 0 # tl (dropWhile (\<lambda>c. c \<noteq> 0) m)"
    unfolding w_str_def by (metis list.collapse takeWhile_dropWhile_id)
  then show ?thesis by (rule that)
qed

lemma w_str_slice:
  assumes "0 \<in> set m"
  shows "mem_slice m 0 (length (w_str m) + 1) = Some (w_str m @ [0])"
proof -
  obtain rest where m: "m = w_str m @ 0 # rest" using w_str_decomp [OF assms] .
  have "mem_slice (w_str m @ 0 # rest) 0 (length (w_str m) + 1) = Some (w_str m @ [0])"
    by (simp add: mem_slice_def)
  then show ?thesis using m by simp
qed

lemma wcslen_eq: "0 \<in> set m \<Longrightarrow> wcslen m = Some (length (w_str m))"
  by (simp add: wcslen_def w_arg_def)

definition path_join :: "wchar list \<Rightarrow> wchar list \<Rightarrow> wchar list" where
  "path_join a b = (if a = [] \<or> last a = 92 \<or> last a = 47 then a @ b else a @ [92] @ b)"

lemma path_join_no_nul: "0 \<notin> set a \<Longrightarrow> 0 \<notin> set b \<Longrightarrow> 0 \<notin> set (path_join a b)"
  by (simp add: path_join_def)

lemma copy_path_eq:
  assumes "0 \<in> set src" and "length dst = 260"
  shows "pd_win32_copy_path dst 260 src = Some (
    if 260 < length (w_str src) + 1 then (False, dst)
    else (True, w_str src @ 0 # drop (length (w_str src) + 1) dst))"
  using assms put_text [of "w_str src" dst 0]
  by (simp add: pd_win32_copy_path_def wcslen_eq memcpy_def w_str_slice [simplified])

lemma append_component_eq:
  assumes "0 \<in> set dst" and "length dst = 260" and "0 \<in> set cmp"
  shows "\<exists>ok d. pd_win32_append_component dst 260 cmp = Some (ok, d) \<and> length d = 260 \<and> 0 \<in> set d \<and>
    ok = (length (path_join (w_str dst) (w_str cmp)) + 1 \<le> 260) \<and> (ok \<longrightarrow> w_str d = path_join (w_str dst) (w_str cmp))"
proof -
  obtain a rest where a: "w_str dst = a" "0 \<notin> set a" and dst: "dst = a @ 0 # rest"
    using w_str_decomp [OF assms(1)] by (metis w_str_no_nul)
  let ?b = "w_str cmp"
  define sep where "sep \<longleftrightarrow> a \<noteq> [] \<and> last a \<noteq> 92 \<and> last a \<noteq> 47"
  let ?x = "if sep then a @ [92] else a"
  have join: "path_join a ?b = ?x @ ?b" by (auto simp: path_join_def sep_def)
  have at: "rd_ne dst (length a - 1) c = Some (last a \<noteq> c)" if "a \<noteq> []" for c
    using that by (simp add: rd_ne_def rd_def dst nth_append last_conv_nth)
  have needs: "c_and (Some (0 < length a)) (c_and (rd_ne dst (length a - 1) (of_char (CHR 0x5C)))
      (rd_ne dst (length a - 1) (of_char (CHR ''/'')))) = Some sep"
    using at by (cases "a = []") (auto simp: sep_def)
  have len: "wcslen dst = Some (length a)" "wcslen cmp = Some (length ?b)"
    using assms a by (simp_all add: wcslen_eq)
  show ?thesis
  proof (cases "260 < length (?x @ ?b) + 1")
    case True
    then have "pd_win32_append_component dst 260 cmp = Some (False, dst)"
      unfolding pd_win32_append_component_def len bind.bind_lunit needs
      by (simp add: Let_def split: if_splits)
    then show ?thesis using assms True join a(1) by (intro exI [of _ False] exI [of _ dst]) simp
  next
    case False
    let ?d = "(?x @ ?b) @ 0 # drop (length (?x @ ?b) + 1) dst"
    have x: "(if sep then do { d \<leftarrow> wr dst (length a) (of_char (CHR 0x5C)); Some (d, length a + 1) } else Some (dst, length a)) =
        Some (?x @ drop (length ?x) dst, length ?x)"
      by (simp add: dst wr_def)
    have "put (?x @ drop (length ?x) dst) (length ?x) (?b @ [0]) = Some ?d"
      using False assms(2) by (simp add: put_def add.commute)
    then have "pd_win32_append_component dst 260 cmp = Some (True, ?d)"
      unfolding pd_win32_append_component_def len bind.bind_lunit needs
      using x False w_str_slice [OF assms(3)]
      by (simp add: Let_def memcpy_def split: if_splits)
    moreover have "w_str ?d = ?x @ ?b" by (rule w_str_terminated) (use a(2) in simp)
    ultimately show ?thesis using False assms(2) join a(1) by (intro exI [of _ True] exI [of _ ?d]) auto
  qed
qed

lemma build_path_eq:
  assumes "0 \<in> set dst" and "length dst = 260" and "0 \<in> set src" and "0 \<in> set cmp"
  shows "\<exists>ok d. build_path dst src cmp = Some (ok, d) \<and> length d = 260 \<and> 0 \<in> set d \<and>
    ok = (length (path_join (w_str src) (w_str cmp)) + 1 \<le> 260) \<and> (ok \<longrightarrow> w_str d = path_join (w_str src) (w_str cmp))"
proof (cases "260 < length (w_str src) + 1")
  case True
  then have "\<not> length (path_join (w_str src) (w_str cmp)) + 1 \<le> 260" by (simp add: path_join_def)
  then show ?thesis using assms True by (intro exI [of _ False] exI [of _ dst]) (simp add: build_path_def copy_path_eq)
next
  case False
  let ?d = "w_str src @ 0 # drop (length (w_str src) + 1) dst"
  have b: "build_path dst src cmp = pd_win32_append_component ?d 260 cmp"
    using False assms by (simp add: build_path_def copy_path_eq)
  have "length ?d = 260" "0 \<in> set ?d" "w_str ?d = w_str src" using False assms(2) by simp_all
  then show ?thesis unfolding b using append_component_eq [of ?d cmp] assms(4) by metis
qed

lemma job_id_to_wide_eq:
  assumes "0 \<in> set j" and "lower_hex 32 (c_str j)"
  shows "\<exists>out. pd_win32_job_id_to_wide (Some j) (replicate 33 0) = Some (True, out) \<and> length out = 33 \<and> 0 \<in> set out \<and>
    w_str out = map ucast (c_str j)"
proof -
  have len: "length (c_str j) = 32" "32 < length j" using assms length_c_str_less [OF assms(1)] by (simp_all add: lower_hex_def)
  let ?body = "\<lambda>index output. do { c \<leftarrow> rd j index; wr output index (ucast c :: wchar) }"
  let ?P = "\<lambda>i m. m = map ucast (take i (c_str j)) @ replicate (33 - i) (0 :: wchar)"
  have "\<exists>s'. for_n 0 32 ?body (replicate 33 0) = Some s' \<and> ?P (0 + 32) s'"
  proof (rule for_n_invariant [where P = ?P])
    fix i m
    assume i: "i < 0 + 32" and m: "?P i m"
    have "replicate (33 - i) (0 :: wchar) = 0 # replicate (32 - i) 0"
      using i by (simp add: Suc_diff_le replicate_Suc [symmetric] del: replicate_Suc)
    then show "\<exists>t'. ?body i m = Some t' \<and> ?P (Suc i) t'"
      using i m len c_str_nth [of i j] by (simp add: rd_def wr_def min_def list_update_append take_Suc_conv_app_nth)
  qed simp
  then have loop: "for_n 0 32 ?body (replicate 33 0) = Some (map ucast (c_str j) @ [0])"
    using len by simp
  have valid: "pd_job_id_is_valid (Some j) = Some True" using assms by (simp add: pd_job_id_is_valid_eq)
  have "ucast c = (0 :: wchar) \<longleftrightarrow> c = 0" for c :: u8
    using bit_imp_le_length [of c] by (fastforce simp: bit_eq_iff bit_simps)
  then have nz: "ucast (c :: u8) \<noteq> (0 :: wchar)" if "c \<in> set (c_str j)" for c
    using that c_str_no_nul [of j] by metis
  have "pd_win32_job_id_to_wide (Some j) (replicate 33 0) = Some (True, map ucast (c_str j) @ [0])"
    using loop len by (simp add: pd_win32_job_id_to_wide_def valid wr_def list_update_append)
  moreover have "w_str (map ucast (c_str j) @ [0]) = map ucast (c_str j)"
    by (rule w_str_terminated) (use nz in auto)
  ultimately show ?thesis using len by simp
qed

lemma staging_name_eq:
  assumes "0 \<in> set wide" and "length wide = 121"
  shows "\<exists>m name. memcpy (replicate 127 0) 0 wide 0 (length (w_str wide) + 1) = Some m \<and>
    wcscat_s m 127 (w_lit ''.part'') = Some name \<and> 0 \<in> set name \<and> w_str name = w_str wide @ w_lit ''.part''"
proof -
  let ?w = "w_str wide"
  have "length ?w < 121"
    using w_str_decomp [OF assms(1)] assms(2) by (metis length_append length_Cons less_add_Suc1 add_Suc_right)
  then have l: "length ?w + 6 \<le> 126" by simp
  have part: "length (w_lit ''.part'') = 5" "0 \<notin> set (w_lit ''.part'')" by (simp_all add: w_lit_def)
  have c: "memcpy (replicate 127 0) 0 wide 0 (length ?w + 1) = Some (?w @ 0 # replicate (126 - length ?w) 0)"
    using l w_str_slice [OF assms(1)] put_text [of ?w "replicate 127 0" 0] by (simp add: memcpy_def)
  let ?m = "?w @ 0 # replicate (126 - length ?w) 0"
  have "put ?m (length ?w) (w_lit ''.part'' @ [0]) = Some ((?w @ w_lit ''.part'') @ 0 # drop 5 (replicate (126 - length ?w) 0))"
    using l part by (simp add: put_def)
  moreover have "wcslen ?m = Some (length ?w)" by (simp add: wcslen_eq)
  ultimately have "wcscat_s ?m 127 (w_lit ''.part'') = Some ((?w @ w_lit ''.part'') @ 0 # drop 5 (replicate (126 - length ?w) 0))"
    using l part(1) by (simp add: wcscat_s_def)
  moreover have "w_str ((?w @ w_lit ''.part'') @ 0 # drop 5 (replicate (126 - length ?w) 0)) = ?w @ w_lit ''.part''"
    by (rule w_str_terminated) (use part in simp)
  ultimately show ?thesis using c by auto
qed

lemma path_lengths: "length a + length b \<le> length (path_join a b)" "length a \<le> length (path_join a b)"
  by (simp_all add: path_join_def)

lemma path_join_suffix: "path_join dir (name @ ext) = path_join dir name @ ext"
  by (simp add: path_join_def)

text \<open>
  The layout of a job below the receive directory: the job directory, the file in it and its
  staging file. The file name is one path component: no separator, drive or stream character.
\<close>

definition sink_placed :: "wchar list \<Rightarrow> u8 list \<Rightarrow> wchar list \<Rightarrow> pd_win32_file_sink \<Rightarrow> bool" where
  "sink_placed root job_id name s \<longleftrightarrow> wsink_shape s \<and> ws_initialized s \<and> ws_file_handle s = INVALID_HANDLE_VALUE \<and>
     w_str (ws_job_directory s) = path_join root (map ucast job_id) \<and>
     w_str (ws_final_path s) = path_join (w_str (ws_job_directory s)) name \<and>
     w_str (ws_staging_path s) = w_str (ws_final_path s) @ w_lit ''.part'' \<and>
     (\<forall>c \<in> set name. c \<noteq> of_char (CHR 0x5C) \<and> c \<noteq> of_char (CHR ''/'') \<and> c \<noteq> of_char (CHR '':''))"

lemma safe_wide:
  assumes "safe_name u" and "\<forall>c \<in> set w. c < (128 :: wchar) \<longrightarrow> ucast c \<in> set u"
  shows "\<forall>c \<in> set w. c \<noteq> of_char (CHR 0x5C) \<and> c \<noteq> of_char (CHR ''/'') \<and> c \<noteq> of_char (CHR '':'')"
proof
  fix c
  assume c: "c \<in> set w"
  have "\<not> pd_is_windows_forbidden d" if "d \<in> set u" for d using assms(1) that by (simp add: safe_name_def windows_name_byte_iff)
  then have "(92 :: u8) \<notin> set u" "(47 :: u8) \<notin> set u" "(58 :: u8) \<notin> set u"
    by (auto simp: pd_is_windows_forbidden_def)
  moreover have "ucast c \<in> set u" if "c < 128" using assms(2) c that by blast
  ultimately show "c \<noteq> of_char (CHR 0x5C) \<and> c \<noteq> of_char (CHR ''/'') \<and> c \<noteq> of_char (CHR '':'')"
    by auto
qed

text \<open>The check of the file name: exactly the safe names pass.\<close>

lemma checked_name:
  assumes "0 \<in> set name"
  shows "\<exists>r c q. pd_filename_sanitize (Some name) (Some (replicate 121 0)) 121 None = Some (r, Some c, q) \<and>
    (r = PD_FILENAME_OK \<longrightarrow> strcmp_ne c name = Some (\<not> safe_name (c_str name))) \<and>
    (r \<noteq> PD_FILENAME_OK \<longrightarrow> \<not> safe_name (c_str name))"
proof -
  let ?t = "sanitized (c_str name)"
  have safe: "safe_name ?t" if "length ?t \<le> 120" using that by (rule sanitized_safe)
  have len: "length (c_str name) \<le> 120 \<and> ?t = c_str name" if "safe_name (c_str name)"
    using that sanitized_id by (simp add: safe_name_def)
  have cs: "c_str (?t @ 0 # r) = ?t" if "length ?t \<le> 120" for r
    using safe_name_no_nul [OF safe [OF that]] by simp
  show ?thesis
    using assms safe len cs by (auto simp: pd_filename_sanitize_eq Let_def strcmp_ne_def)
qed

lemma length_w_str_less: "0 \<in> set m \<Longrightarrow> length (w_str m) < length m"
  using w_str_decomp [of m] by (metis length_append length_Cons less_add_Suc1 add_Suc_right)

text \<open>The result of the initialisation on every branch; only success marks the object initialised.\<close>

definition init_outcome where
  "init_outcome api root jid name f r s s' \<longleftrightarrow>
     (if w_str root = [] then r = PD_WIN32_SINK_INVALID_ARGUMENT \<and> s' = s
      else if \<not> lower_hex 32 (c_str jid) then r = PD_WIN32_SINK_INVALID_JOB_ID \<and> \<not> ws_initialized s'
      else if \<not> safe_name (c_str name) then r = PD_WIN32_SINK_INVALID_FILENAME \<and> \<not> ws_initialized s'
      else (case MultiByteToWideChar api CP_UTF8 MB_ERR_INVALID_CHARS (c_str name) 121 of (len, buf) \<Rightarrow>
        if len = 0 then r = PD_WIN32_SINK_INVALID_UTF8 \<and> \<not> ws_initialized s'
        else if 260 < length (path_join (path_join (w_str root) (map ucast (c_str jid))) (w_str buf)) + length (w_lit ''.part'') + 1
        then r = PD_WIN32_SINK_PATH_TOO_LONG \<and> \<not> ws_initialized s'
        else if \<not> directory_ready api (w_str root) f then r = PD_WIN32_SINK_INVALID_ARGUMENT \<and> \<not> ws_initialized s'
        else r = PD_WIN32_SINK_OK \<and> sink_placed (w_str root) (c_str jid) (w_str buf) s'))"

context win32_fs
begin

lemma init_spec:
  assumes "0 \<in> set root" and "0 \<in> set jid" and "0 \<in> set name"
  shows "\<exists>r s' f'. pd_win32_file_sink_init api (Some s) (Some root) (Some jid) (Some name) f = Some (r, Some s', f') \<and>
    files f' = files f \<and> opened f' = opened f \<and>
    init_outcome api root jid name f r s s'"
proof -
  obtain first where first: "rd root 0 = Some first" "first = 0 \<longleftrightarrow> w_str root = []"
    using assms(1) by (cases root) (auto simp: rd_def w_str_def)
  obtain r c q where san: "pd_filename_sanitize (Some name) (Some (replicate 121 0)) 121 None = Some (r, Some c, q)"
    "r = PD_FILENAME_OK \<Longrightarrow> strcmp_ne c name = Some (\<not> safe_name (c_str name))"
    "r \<noteq> PD_FILENAME_OK \<Longrightarrow> \<not> safe_name (c_str name)"
    using checked_name [OF assms(3)] by blast
  have valid: "pd_job_id_is_valid (Some jid) = Some (lower_hex 32 (c_str jid))"
    using assms(2) by (rule pd_job_id_is_valid_eq)
  obtain len wide where wide: "MultiByteToWideChar api CP_UTF8 MB_ERR_INVALID_CHARS (c_str name) 121 = (len, wide)" by fastforce
  let ?z = "replicate 260 0 :: wchar list"
  consider (bad) "w_str root = []" | (job) "w_str root \<noteq> []" "\<not> lower_hex 32 (c_str jid)"
    | (nm) "w_str root \<noteq> []" "lower_hex 32 (c_str jid)" "\<not> safe_name (c_str name)"
    | (utf8) "w_str root \<noteq> []" "lower_hex 32 (c_str jid)" "safe_name (c_str name)" "len = 0"
    | (go) "w_str root \<noteq> []" "lower_hex 32 (c_str jid)" "safe_name (c_str name)" "len \<noteq> 0" by blast
  then show ?thesis
  proof cases
    case bad
    then show ?thesis using first by (simp add: pd_win32_file_sink_init_def init_outcome_def)
  next
    case job
    then show ?thesis using first valid by (simp add: pd_win32_file_sink_init_def init_outcome_def)
  next
    case nm
    obtain out where "pd_win32_job_id_to_wide (Some jid) (replicate 33 0) = Some (True, out)"
      using job_id_to_wide_eq [OF assms(2) nm(2)] by blast
    then show ?thesis using nm first valid san by (cases "r = PD_FILENAME_OK") (simp_all add: pd_win32_file_sink_init_def init_outcome_def)
  next
    case utf8
    obtain out where "pd_win32_job_id_to_wide (Some jid) (replicate 33 0) = Some (True, out)"
      using job_id_to_wide_eq [OF assms(2) utf8(2)] by blast
    then show ?thesis using utf8 first valid san wide assms(3) by (cases "r = PD_FILENAME_OK") (simp_all add: pd_win32_file_sink_init_def init_outcome_def)
  next
    case go
    obtain out where out: "pd_win32_job_id_to_wide (Some jid) (replicate 33 0) = Some (True, out)"
      "0 \<in> set out" "w_str out = map ucast (c_str jid)"
      using job_id_to_wide_eq [OF assms(2) go(2)] by blast
    have wd: "length wide = 121" "0 \<in> set wide" "\<forall>c \<in> set (w_str wide). c < 128 \<longrightarrow> ucast c \<in> set (c_str name)"
      using widen [OF wide go(4)] by simp_all
    note comp = safe_wide [OF go(3) wd(3)]
    have fits: "\<not> 127 < length (w_str wide) + 6"
      using length_w_str_less [OF wd(2)] wd(1) by simp
    obtain m sname where st: "memcpy (replicate 127 0) 0 wide 0 (length (w_str wide) + 1) = Some m"
      "wcscat_s m 127 (w_lit ''.part'') = Some sname" "0 \<in> set sname" "w_str sname = w_str wide @ w_lit ''.part''"
      using staging_name_eq [OF wd(2,1)] by blast
    obtain ok1 d1 where d1: "build_path ?z root out = Some (ok1, d1)" "length d1 = 260" "0 \<in> set d1"
      "ok1 = (length (path_join (w_str root) (w_str out)) + 1 \<le> 260)"
      "ok1 \<Longrightarrow> w_str d1 = path_join (w_str root) (map ucast (c_str jid))"
      using build_path_eq [of ?z root out] assms(1) out by auto
    obtain ok2 d2 where d2: "build_path ?z d1 wide = Some (ok2, d2)" "length d2 = 260" "0 \<in> set d2"
      "ok2 = (length (path_join (w_str d1) (w_str wide)) + 1 \<le> 260)"
      "ok2 \<Longrightarrow> w_str d2 = path_join (w_str d1) (w_str wide)"
      using build_path_eq [of ?z d1 wide] d1 wd by auto
    obtain ok3 d3 where d3: "build_path ?z d1 sname = Some (ok3, d3)" "length d3 = 260" "0 \<in> set d3"
      "ok3 = (length (path_join (w_str d1) (w_str sname)) + 1 \<le> 260)"
      "ok3 \<Longrightarrow> w_str d3 = path_join (w_str d1) (w_str wide @ w_lit ''.part'')"
      using build_path_eq [of ?z d1 sname] d1 st by auto
    define ok4 where "ok4 = directory_ready api (w_str root) f"
    obtain f' where e: "pd_win32_ensure_directory api root f = Some (ok4, f')" "files f' = files f" "opened f' = opened f"
      using ensure_directory_eq [OF assms(1)] unfolding ok4_def by metis
    let ?s0 = "\<lparr>ws_file_handle = INVALID_HANDLE_VALUE, ws_job_directory = ?z, ws_staging_path = ?z, ws_final_path = ?z,
      ws_initialized = False\<rparr>"
    let ?s4 = "\<lparr>ws_file_handle = INVALID_HANDLE_VALUE, ws_job_directory = d1, ws_staging_path = d3, ws_final_path = d2,
      ws_initialized = False\<rparr>"
    have "pd_win32_file_sink_init api (Some s) (Some root) (Some jid) (Some name) f = Some (
      if \<not> ok1 then (PD_WIN32_SINK_PATH_TOO_LONG, Some (?s0\<lparr>ws_job_directory := d1\<rparr>), f)
      else if \<not> ok2 then (PD_WIN32_SINK_PATH_TOO_LONG, Some (?s0\<lparr>ws_job_directory := d1, ws_final_path := d2\<rparr>), f)
      else if \<not> ok3 then (PD_WIN32_SINK_PATH_TOO_LONG, Some ?s4, f)
      else if \<not> ok4 then (PD_WIN32_SINK_INVALID_ARGUMENT, Some ?s4, f')
      else (PD_WIN32_SINK_OK, Some (?s4\<lparr>ws_initialized := True\<rparr>), f'))"
      using go first valid san wide assms(3) out(1) fits st(1,2) d1(1) d2(1) d3(1) e(1) wd(2)
      by (cases "r = PD_FILENAME_OK") (simp_all add: pd_win32_file_sink_init_def Let_def wcslen_eq)
    moreover have "sink_placed (w_str root) (c_str jid) (w_str wide) (?s4\<lparr>ws_initialized := True\<rparr>)" if ok1 ok2 ok3
      using that d1(2-) d2(2-) d3(2-) comp by (simp add: sink_placed_def wsink_shape_def path_join_suffix)
    moreover have "ok1 \<and> ok2 \<and> ok3 \<longleftrightarrow>
        length (path_join (path_join (w_str root) (map ucast (c_str jid))) (w_str wide)) + length (w_lit ''.part'') + 1 \<le> 260"
      using path_lengths(2) [of "path_join (w_str root) (map ucast (c_str jid))" "w_str wide"] d1(4,5) d2(4) d3(4) st(4) out(3)
      by (cases ok1) (auto simp: w_lit_def path_join_suffix)
    ultimately show ?thesis
      using e(2,3) go wide ok4_def
      by (cases "ok1 \<and> ok2 \<and> ok3"; cases ok4) (auto simp: init_outcome_def)
  qed
qed

lemma init_ok_placed:
  assumes "init_outcome api root jid name f PD_WIN32_SINK_OK s s'"
  obtains wide where "w_str root \<noteq> []" "lower_hex 32 (c_str jid)" "safe_name (c_str name)"
    "sink_placed (w_str root) (c_str jid) wide s'"
  using assms by (auto simp: init_outcome_def split: if_splits prod.splits)

lemma placed_inv:
  assumes "sink_placed root jid wide s"
  shows "inv_s (s, f)" and "staged_s (s, f) = None"
  using assms canon_part by (auto simp: sink_placed_def wsink_inv_def wsink_staged_def pd_win32_handle_is_open_def)

end

section \<open>The abstract sink\<close>

text \<open>
  What a sink promises: a pair of the staged bytes and the published file. A file is staged from
  nothing, grows by what a write reports as written, and is published only by a commit, never over
  an existing file. A failing write leaves unspecified staged bytes; a failing commit may have
  closed the staging file.
\<close>

datatype sink_call = Begin u64 | Write "u8 list" nat | Commit | Abort

type_synonym sink_view = "u8 list option \<times> u8 list option"

inductive sink_spec :: "sink_view \<Rightarrow> sink_call \<Rightarrow> pd_file_sink_status \<Rightarrow> nat \<Rightarrow> sink_view \<Rightarrow> bool" where
  spec_begin: "sink_spec (None, p) (Begin n) PD_FILE_SINK_OK 0 (Some [], p)"
| spec_write: "k \<le> n \<Longrightarrow> sink_spec (Some bs, p) (Write d n) PD_FILE_SINK_OK k (Some (bs @ take k d), p)"
| spec_write_fails: "sink_spec (Some bs, p) (Write d n) PD_FILE_SINK_IO_ERROR 0 (Some bs', p)"
| spec_commit: "sink_spec (Some bs, None) Commit PD_FILE_SINK_OK 0 (None, Some bs)"
| spec_commit_fails: "sink_spec (Some bs, p) Commit PD_FILE_SINK_IO_ERROR 0 (None, p)"
| spec_abort: "sink_spec (v, p) Abort PD_FILE_SINK_OK 0 (None, p)"
| spec_refused: "c \<noteq> Abort \<Longrightarrow> sink_spec (v, p) c PD_FILE_SINK_IO_ERROR 0 (v, p)"

fun sink_call_fn :: "'f win32_file_api \<Rightarrow> sink_call \<Rightarrow> 'f sink_state \<Rightarrow> (pd_file_sink_status \<times> nat \<times> 'f sink_state) option" where
  "sink_call_fn api (Begin n) w = do { (st, w) \<leftarrow> sink_begin_fn api w n; Some (st, 0, w) }"
| "sink_call_fn api (Write d n) w = sink_write_fn api w (Some d) n"
| "sink_call_fn api Commit w = do { (st, w) \<leftarrow> sink_commit_fn api w; Some (st, 0, w) }"
| "sink_call_fn api Abort w = do { w \<leftarrow> sink_abort_fn api w; Some (PD_FILE_SINK_OK, 0, w) }"

fun call_ok :: "sink_call \<Rightarrow> bool" where
  "call_ok (Write d n) \<longleftrightarrow> n \<le> length d"
| "call_ok _ \<longleftrightarrow> True"

fun sink_run :: "'f win32_file_api \<Rightarrow> sink_call list \<Rightarrow> 'f sink_state \<Rightarrow> 'f sink_state option" where
  "sink_run api [] w = Some w"
| "sink_run api (c # cs) w = do { (st, k, w) \<leftarrow> sink_call_fn api c w; sink_run api cs w }"

definition sink_paths :: "pd_win32_file_sink \<Rightarrow> wchar list \<times> wchar list \<times> wchar list" where
  "sink_paths s = (ws_job_directory s, ws_staging_path s, ws_final_path s)"

definition sink_abs where
  "sink_abs canon files w = (wsink_staged canon files w, wsink_published canon files w)"

text \<open>
  The handles: those a sink holds, and how a call may move them. Every other handle stays as it is, one
  the sink acquires was not open, and one it gives up is closed.
\<close>

definition sink_handles :: "pd_win32_file_sink \<Rightarrow> win_handle set" where
  "sink_handles s = (if pd_win32_handle_is_open s then {ws_file_handle s} else {})"

definition handles_moved :: "(win_handle \<Rightarrow> 'k option) \<Rightarrow> (win_handle \<Rightarrow> 'k option) \<Rightarrow> win_handle set \<Rightarrow> win_handle set \<Rightarrow> bool" where
  "handles_moved before after held keeps \<longleftrightarrow> (\<forall>h. h \<notin> held \<union> keeps \<longrightarrow> after h = before h) \<and>
     (\<forall>h \<in> keeps - held. before h = None) \<and> (\<forall>h \<in> held - keeps. after h = None)"

text \<open>\<^verbatim>\<open>CloseHandle\<close> may report a failure, which leaves the handle open; this says that it never does.\<close>

definition always_closes :: "'f win32_file_api \<Rightarrow> ('f \<Rightarrow> win_handle \<Rightarrow> 'k option) \<Rightarrow> bool" where
  "always_closes api opened \<longleftrightarrow> (\<forall>f h k. opened f h = Some k \<longrightarrow> (\<exists>f'. CloseHandle api f h = Some (True, f')))"

text \<open>No call of a commit fails: a live handle is flushed and closed, a file is renamed to a free name.\<close>

definition commit_reliable where
  "commit_reliable api canon files opened \<longleftrightarrow> always_closes api opened \<and>
     (\<forall>f h k. opened f h = Some k \<longrightarrow> (\<exists>f'. FlushFileBuffers api f h = Some (True, f'))) \<and>
     (\<forall>f p q. files f (canon p) \<noteq> None \<and> files f (canon q) = None \<longrightarrow> fst (MoveFileExW api f p q MOVEFILE_WRITE_THROUGH))"

lemma handles_moved_refl [simp]: "handles_moved m m a a"
  by (simp add: handles_moved_def)

text \<open>One call: it returns, keeps the invariant and the paths, makes an abstract step, and touches no other file.\<close>

definition call_simulated where
  "call_simulated api canon files opened c w \<longleftrightarrow> (\<exists>st k w'. sink_call_fn api c w = Some (st, k, w') \<and>
     wsink_inv canon files opened w' \<and> sink_paths (fst w') = sink_paths (fst w) \<and>
     sink_spec (sink_abs canon files w) c st k (sink_abs canon files w') \<and>
     (\<forall>q. q \<noteq> canon (w_str (ws_staging_path (fst w))) \<and> q \<noteq> canon (w_str (ws_final_path (fst w))) \<longrightarrow>
        files (snd w') q = files (snd w) q) \<and>
     (always_closes api opened \<longrightarrow>
        handles_moved (opened (snd w)) (opened (snd w')) (sink_handles (fst w)) (sink_handles (fst w'))))"

lemmas sink_call_defs = sink_call_fn.simps sink_begin_fn_def sink_write_fn_def sink_commit_fn_def sink_abort_fn_def
  pd_win32_sink_begin_def pd_win32_sink_write_def pd_win32_sink_commit_def pd_win32_sink_abort_def w_arg_def

lemmas sink_view_defs = sink_abs_def wsink_inv_def wsink_published_def wsink_staged_def sink_paths_def

context win32_fs
begin

abbreviation "simulated c w \<equiv> call_simulated api canon files opened c w"

lemma simulated_refused:
  assumes "inv_s w" and "sink_call_fn api c w = Some (PD_FILE_SINK_IO_ERROR, 0, fst w, f')" and "c \<noteq> Abort"
    and "files f' = files (snd w)" and "opened f' = opened (snd w)"
  shows "simulated c w"
  using assms spec_refused [OF assms(3)]
  by (cases w) (auto simp: call_simulated_def sink_view_defs intro!: exI [of _ f'])

lemma simulated_begin:
  assumes "inv_s (s, f)"
  shows "simulated (Begin n) (s, f)"
proof -
  let ?k = "canon (w_str (ws_staging_path s))"
  have inv: "wsink_shape s" "?k \<noteq> canon (w_str (ws_final_path s))" using assms by (auto simp: wsink_inv_def)
  have shape: "0 \<in> set (ws_job_directory s)" "0 \<in> set (ws_staging_path s)" using inv(1) by (simp_all add: wsink_shape_def)
  obtain ok f1 where e: "pd_win32_ensure_directory api (ws_job_directory s) f = Some (ok, f1)" "files f1 = files f" "opened f1 = opened f"
    using ensure_directory_keeps [OF shape(1)] by metis
  obtain h f2 where c: "CreateFileW api f1 (w_str (ws_staging_path s)) GENERIC_WRITE 0 CREATE_NEW
      (or FILE_ATTRIBUTE_NORMAL FILE_FLAG_SEQUENTIAL_SCAN) = (h, f2)" by fastforce
  consider (refused) f' where "sink_call_fn api (Begin n) (s, f) = Some (PD_FILE_SINK_IO_ERROR, 0, s, f')" "files f' = files f" "opened f' = opened f"
    | (created) "\<not> pd_win32_handle_is_open s" "ws_initialized s" "ok" "h \<noteq> INVALID_HANDLE_VALUE"
    using e c create_new [OF c] shape
    by (cases "\<not> ws_initialized s \<or> pd_win32_handle_is_open s"; cases ok; cases "h = INVALID_HANDLE_VALUE")
      (auto simp: sink_call_defs)
  then show ?thesis
  proof cases
    case refused
    then show ?thesis using simulated_refused [OF assms, of "Begin n" f'] by simp
  next
    case created
    have h: "h \<noteq> 0" "opened f h = None" "opened f2 = (opened f)(h \<mapsto> ?k)" "files f2 = (files f)(?k \<mapsto> [])"
      using create_new [OF c] created(4) e(2,3) by simp_all
    have "sink_call_fn api (Begin n) (s, f) = Some (PD_FILE_SINK_OK, 0, s\<lparr>ws_file_handle := h\<rparr>, f2)"
      using created e(1) c shape by (simp add: sink_call_defs)
    moreover have "sink_spec (None, files f (canon (w_str (ws_final_path s)))) (Begin n) PD_FILE_SINK_OK 0
      (Some [], files f (canon (w_str (ws_final_path s))))" by (rule spec_begin)
    ultimately show ?thesis
      using created(1,4) h inv
      by (auto simp: call_simulated_def sink_view_defs wsink_shape_def pd_win32_handle_is_open_def handles_moved_def sink_handles_def)
  qed
qed


lemma simulated_write:
  assumes "inv_s (s, f)" and "n \<le> length d"
  shows "simulated (Write d n) (s, f)"
proof (cases "pd_win32_handle_is_open s \<and> n \<le> MAXDWORD")
  case False
  then have "sink_call_fn api (Write d n) (s, f) = Some (PD_FILE_SINK_IO_ERROR, 0, s, f)"
    by (auto simp: sink_call_defs)
  then show ?thesis using simulated_refused [OF assms(1), of "Write d n" f] by simp
next
  case True
  let ?k = "canon (w_str (ws_staging_path s))" and ?p = "files f (canon (w_str (ws_final_path s)))"
  have inv: "wsink_shape s" "?k \<noteq> canon (w_str (ws_final_path s))" "opened f (ws_file_handle s) = Some ?k"
    using assms(1) True by (auto simp: wsink_inv_def)
  obtain bs where bs: "files f ?k = Some bs" using assms(1) True by (auto simp: wsink_inv_def)
  obtain ok m f1 where wf: "WriteFile api f (ws_file_handle s) (take n d) = Some (ok, m, f1)"
    and law: "opened f1 = opened f \<and> files f1 ?k \<noteq> None \<and> (\<forall>q. q \<noteq> ?k \<longrightarrow> files f1 q = files f q) \<and>
        (ok \<longrightarrow> unat m \<le> length (take n d) \<and> files f1 ?k = Some (bs @ take (unat m) (take n d)))"
    using write_file [OF inv(3) bs, of "take n d"] by blast
  have s: "mem_slice d 0 n = Some (take n d)" using assms(2) by (simp add: mem_slice_def)
  have call: "sink_call_fn api (Write d n) (s, f) =
      Some (if ok then (PD_FILE_SINK_OK, unat m, s, f1) else (PD_FILE_SINK_IO_ERROR, 0, s, f1))"
    using True wf s by (simp add: sink_call_defs)
  show ?thesis
  proof (cases ok)
    case wrote: True
    then have m: "unat m \<le> n" "files f1 ?k = Some (bs @ take (unat m) d)" using law assms(2) by auto
    then show ?thesis
      using call wrote True inv law bs spec_write [OF m(1), of bs ?p d]
      by (simp add: call_simulated_def sink_view_defs)
  next
    case failed: False
    obtain bs' where "files f1 ?k = Some bs'" using law by auto
    then show ?thesis
      using call failed True inv law bs spec_write_fails [of bs ?p d n bs']
      by (simp add: call_simulated_def sink_view_defs)
  qed
qed

lemma simulated_commit:
  assumes "inv_s (s, f)"
  shows "simulated Commit (s, f)"
proof (cases "pd_win32_handle_is_open s")
  case False
  then have "sink_call_fn api Commit (s, f) = Some (PD_FILE_SINK_IO_ERROR, 0, s, f)"
    by (simp add: sink_call_defs)
  then show ?thesis using simulated_refused [OF assms, of Commit f] by simp
next
  case True
  let ?k = "canon (w_str (ws_staging_path s))" and ?q = "canon (w_str (ws_final_path s))"
  have inv: "wsink_shape s" "?k \<noteq> ?q" using assms by (auto simp: wsink_inv_def)
  obtain bs where bs: "files f ?k = Some bs" using assms True by (auto simp: wsink_inv_def)
  have nul: "0 \<in> set (ws_staging_path s)" "0 \<in> set (ws_final_path s)" using inv(1) by (simp_all add: wsink_shape_def)
  have op: "opened f (ws_file_handle s) = Some ?k" using assms True by (simp add: wsink_inv_def)
  obtain flushed f1 where fl: "FlushFileBuffers api f (ws_file_handle s) = Some (flushed, f1)"
    and v1: "files f1 = files f" "opened f1 = opened f" using flush [OF op] by blast
  obtain closed f2 where cl: "CloseHandle api f1 (ws_file_handle s) = Some (closed, f2)" and f2: "files f2 = files f1"
    and o2: "opened f2 = (if closed then (opened f1)(ws_file_handle s := None) else opened f1)"
    using close [of f1 "ws_file_handle s" ?k] op v1(2) by fastforce
  obtain moved f3 where mv: "MoveFileExW api f2 (w_str (ws_staging_path s)) (w_str (ws_final_path s)) MOVEFILE_WRITE_THROUGH = (moved, f3)"
    by fastforce
  have v2: "files f2 = files f" "\<not> closed \<Longrightarrow> opened f2 = opened f" "closed \<Longrightarrow> opened f2 = (opened f)(ws_file_handle s := None)"
    using f2 o2 v1 by simp_all
  have o3: "opened f3 = opened f2" using move [OF mv inv(2)] by simp
  have v3: "if moved then files f ?q = None \<and> files f3 = (files f)(?q := files f ?k, ?k := None) else files f3 = files f"
    using move [OF mv inv(2)] v2(1) by (auto split: if_splits)
  have body: "sink_call_fn api Commit (s, f) = Some (
    if \<not> flushed then (PD_FILE_SINK_IO_ERROR, 0, s, f1)
    else if \<not> closed then (PD_FILE_SINK_IO_ERROR, 0, s, f2)
    else (if moved then PD_FILE_SINK_OK else PD_FILE_SINK_IO_ERROR, 0, s\<lparr>ws_file_handle := INVALID_HANDLE_VALUE\<rparr>, f3))"
    using True fl cl mv nul by (simp add: sink_call_defs Let_def)
  show ?thesis
  proof (cases "flushed \<and> closed")
    case False
    then show ?thesis using simulated_refused [OF assms, of Commit "if flushed then f2 else f1"] body v1 v2 by auto
  next
    case closed: True
    have "sink_spec (Some bs, files f ?q) Commit (if moved then PD_FILE_SINK_OK else PD_FILE_SINK_IO_ERROR) 0
        (None, if moved then Some bs else files f ?q)"
      using v3 spec_commit spec_commit_fails by (cases moved) auto
    then show ?thesis
      using body closed True inv v3 bs o3 v2(3)
      by (cases moved) (simp_all add: call_simulated_def sink_view_defs wsink_shape_def pd_win32_handle_is_open_def
        handles_moved_def sink_handles_def)
  qed
qed

lemma simulated_abort:
  assumes "inv_s (s, f)"
  shows "simulated Abort (s, f)"
proof -
  let ?k = "canon (w_str (ws_staging_path s))" and ?q = "canon (w_str (ws_final_path s))"
  have inv: "wsink_shape s" "?k \<noteq> ?q" using assms by (auto simp: wsink_inv_def)
  have sh: "0 \<in> set (ws_staging_path s)" "ws_staging_path s \<noteq> []" using inv(1) by (auto simp: wsink_shape_def)
  define s1 where "s1 = (if pd_win32_handle_is_open s then s\<lparr>ws_file_handle := INVALID_HANDLE_VALUE\<rparr> else s)"
  obtain f1 where cl: "(if pd_win32_handle_is_open s
      then do { (_, f) \<leftarrow> CloseHandle api f (ws_file_handle s); Some (s\<lparr>ws_file_handle := INVALID_HANDLE_VALUE\<rparr>, f) }
      else Some (s, f)) = Some (s1, f1)"
    and f1: "files f1 = files f"
    and o1: "always_closes api opened \<Longrightarrow> opened f1 = (if pd_win32_handle_is_open s then (opened f)(ws_file_handle s := None) else opened f)"
  proof (cases "pd_win32_handle_is_open s")
    case True
    have op: "opened f (ws_file_handle s) = Some ?k" using assms True by (simp add: wsink_inv_def)
    obtain c f' where c: "CloseHandle api f (ws_file_handle s) = Some (c, f')" "files f' = files f"
      "opened f' = (if c then (opened f)(ws_file_handle s := None) else opened f)" using close [OF op] by blast
    have "c" if "always_closes api opened" using that op c(1) unfolding always_closes_def by fastforce
    then show ?thesis using c True by (intro that [of f']) (simp_all add: s1_def)
  next
    case False
    then show ?thesis by (intro that [of f]) (simp_all add: s1_def)
  qed
  obtain del f2 where dl: "DeleteFileW api f1 (w_str (ws_staging_path s)) = (del, f2)" by fastforce
  have f2: "files f2 = (if del then (files f)(?k := None) else files f)" "opened f2 = opened f1" using delete [OF dl] f1 by simp_all
  have s1: "\<not> pd_win32_handle_is_open s1" "sink_paths s1 = sink_paths s" "wsink_shape s1"
    using inv(1) by (auto simp: s1_def pd_win32_handle_is_open_def wsink_shape_def sink_paths_def)
  have "sink_call_fn api Abort (s, f) = Some (PD_FILE_SINK_OK, 0, s1, if ws_staging_path s ! 0 \<noteq> 0 then f2 else f1)"
    using sh dl s1(2) by (simp add: sink_call_defs cl rd_def sink_paths_def)
  moreover have "handles_moved (opened f) (opened f1) (sink_handles s) (sink_handles s1)" if "always_closes api opened"
    using o1 [OF that] s1(1) by (simp add: handles_moved_def sink_handles_def)
  ultimately show ?thesis
    using inv s1 f1 f2 spec_abort by (auto simp: call_simulated_def sink_view_defs)
qed

lemma call_simulated: "inv_s w \<Longrightarrow> call_ok c \<Longrightarrow> simulated c w"
  using simulated_begin simulated_write simulated_commit simulated_abort by (cases w; cases c) auto

lemma run_confined:
  assumes "inv_s w" and "\<forall>c \<in> set cs. call_ok c"
  shows "\<exists>w'. sink_run api cs w = Some w' \<and> inv_s w' \<and> sink_paths (fst w') = sink_paths (fst w) \<and>
    (\<forall>q. q \<noteq> canon (w_str (ws_staging_path (fst w))) \<and> q \<noteq> canon (w_str (ws_final_path (fst w))) \<longrightarrow>
       files (snd w') q = files (snd w) q) \<and>
    (\<forall>bs. published_s w = Some bs \<longrightarrow> published_s w' = Some bs)"
  using assms
proof (induction cs arbitrary: w)
  case (Cons c cs)
  obtain st k w1 where call: "sink_call_fn api c w = Some (st, k, w1)" "inv_s w1" "sink_paths (fst w1) = sink_paths (fst w)"
    "sink_spec (sink_abs canon files w) c st k (sink_abs canon files w1)"
    "\<forall>q. q \<noteq> canon (w_str (ws_staging_path (fst w))) \<and> q \<noteq> canon (w_str (ws_final_path (fst w))) \<longrightarrow>
        files (snd w1) q = files (snd w) q"
    using call_simulated [of w c] Cons.prems by (auto simp: call_simulated_def)
  have kept: "published_s w1 = Some bs" if "published_s w = Some bs" for bs
    using call(4) that by (cases rule: sink_spec.cases) (auto simp: sink_abs_def)
  from Cons.IH [OF call(2)] Cons.prems call(1,3,5) kept show ?case
    by (auto simp: sink_paths_def)
qed auto


text \<open>The contract of the file receiver follows from the simulation.\<close>

lemma begin_ok:
  assumes "inv_s w" and "staged_s w = None"
  shows "\<exists>st w'. sink_begin_fn api w n = Some (st, w') \<and> inv_s w' \<and> sink_paths (fst w') = sink_paths (fst w) \<and> published_s w' = published_s w \<and>
    staged_s w' = (if st = PD_FILE_SINK_OK then Some [] else None) \<and>
    (always_closes api opened \<longrightarrow> handles_moved (opened (snd w)) (opened (snd w')) (sink_handles (fst w)) (sink_handles (fst w')))"
  using call_simulated [of w "Begin n"] assms
  by (auto simp: call_simulated_def sink_abs_def elim!: sink_spec.cases split: option.splits bind_splits)

lemma write_ok:
  assumes "inv_s w" and "staged_s w = Some bs" and "n \<le> length d"
  shows "\<exists>st k w'. sink_write_fn api w (Some d) n = Some (st, k, w') \<and> inv_s w' \<and> sink_paths (fst w') = sink_paths (fst w) \<and> published_s w' = published_s w \<and>
    (st = PD_FILE_SINK_OK \<and> k = n \<longrightarrow> staged_s w' = Some (bs @ take n d)) \<and>
    (always_closes api opened \<longrightarrow> handles_moved (opened (snd w)) (opened (snd w')) (sink_handles (fst w)) (sink_handles (fst w')))"
  using call_simulated [of w "Write d n"] assms
  by (auto simp: call_simulated_def sink_abs_def elim!: sink_spec.cases)

lemma commit_ok:
  assumes "inv_s w" and "staged_s w = Some bs"
  shows "\<exists>st w'. sink_commit_fn api w = Some (st, w') \<and> inv_s w' \<and> sink_paths (fst w') = sink_paths (fst w) \<and>
    (if st = PD_FILE_SINK_OK then published_s w' = Some bs \<and> staged_s w' = None else published_s w' = published_s w) \<and>
    (always_closes api opened \<longrightarrow> handles_moved (opened (snd w)) (opened (snd w')) (sink_handles (fst w)) (sink_handles (fst w')))"
  using call_simulated [of w Commit] assms
  by (auto simp: call_simulated_def sink_abs_def elim!: sink_spec.cases split: bind_splits)

lemma abort_ok:
  assumes "inv_s w"
  shows "\<exists>w'. sink_abort_fn api w = Some w' \<and> inv_s w' \<and> sink_paths (fst w') = sink_paths (fst w) \<and> published_s w' = published_s w \<and> staged_s w' = None \<and>
    (always_closes api opened \<longrightarrow> handles_moved (opened (snd w)) (opened (snd w')) (sink_handles (fst w)) (sink_handles (fst w')))"
  using call_simulated [of w Abort] assms
  by (auto simp: call_simulated_def sink_abs_def elim!: sink_spec.cases split: bind_splits)

text \<open>A commit succeeds when no call it makes fails and no file has the final name.\<close>

lemma commit_succeeds:
  assumes "inv_s (s, f)" and "staged_s (s, f) = Some bs" and "published_s (s, f) = None" and "commit_reliable api canon files opened"
  shows "\<exists>w'. sink_commit_fn api (s, f) = Some (PD_FILE_SINK_OK, w')"
proof -
  let ?h = "ws_file_handle s" and ?k = "canon (w_str (ws_staging_path s))" and ?q = "canon (w_str (ws_final_path s))"
  have s: "pd_win32_handle_is_open s" "files f ?k = Some bs" "files f ?q = None" "opened f ?h = Some ?k"
    "0 \<in> set (ws_staging_path s)" "0 \<in> set (ws_final_path s)"
    using assms(1-3) by (auto simp: wsink_inv_def wsink_staged_def wsink_published_def wsink_shape_def split: if_splits)
  obtain f1 where f1: "FlushFileBuffers api f ?h = Some (True, f1)" "files f1 = files f" "opened f1 = opened f"
    using assms(4) s(4) flush [OF s(4)] unfolding commit_reliable_def by fastforce
  have op1: "opened f1 ?h = Some ?k" using s(4) f1(3) by simp
  obtain f2 where f2: "CloseHandle api f1 ?h = Some (True, f2)" "files f2 = files f1"
    using assms(4) close [OF op1] op1 unfolding commit_reliable_def always_closes_def by fastforce
  have "fst (MoveFileExW api f2 (w_str (ws_staging_path s)) (w_str (ws_final_path s)) MOVEFILE_WRITE_THROUGH)"
    using assms(4) s(2,3) f1(2) f2(2) unfolding commit_reliable_def by fastforce
  then obtain f3 where "MoveFileExW api f2 (w_str (ws_staging_path s)) (w_str (ws_final_path s)) MOVEFILE_WRITE_THROUGH = (True, f3)"
    by (cases "MoveFileExW api f2 (w_str (ws_staging_path s)) (w_str (ws_final_path s)) MOVEFILE_WRITE_THROUGH") simp
  then show ?thesis using s f1(1) f2(1) by (simp add: sink_commit_fn_def pd_win32_sink_commit_def w_arg_def Let_def)
qed

end

text \<open>
  The sink of a job below a receive directory: its paths stay those of one job. Such a sink keeps the
  contract the file receiver relies on.
\<close>

definition sink_located :: "wchar list \<Rightarrow> pd_win32_file_sink \<Rightarrow> bool" where
  "sink_located root s \<longleftrightarrow> (\<exists>job_id name. lower_hex 32 job_id \<and>
     w_str (ws_job_directory s) = path_join root (map ucast job_id) \<and>
     w_str (ws_final_path s) = path_join (w_str (ws_job_directory s)) name \<and>
     w_str (ws_staging_path s) = w_str (ws_final_path s) @ w_lit ''.part'' \<and>
     (\<forall>c \<in> set name. c \<noteq> of_char (CHR 0x5C) \<and> c \<noteq> of_char (CHR ''/'') \<and> c \<noteq> of_char (CHR '':'')))"

definition wsink_job_inv where
  "wsink_job_inv canon files opened root w \<longleftrightarrow> wsink_inv canon files opened w \<and> sink_located root (fst w)"

lemma sink_located_paths: "sink_paths s' = sink_paths s \<Longrightarrow> sink_located root s' = sink_located root s"
  by (simp add: sink_located_def sink_paths_def)

lemma job_inv_sink: "wsink_job_inv canon files opened root w \<Longrightarrow> wsink_inv canon files opened w"
  by (simp add: wsink_job_inv_def)

lemma job_inv_keep:
  "wsink_inv canon files opened w' \<Longrightarrow> sink_paths (fst w') = sink_paths (fst w) \<Longrightarrow>
   wsink_job_inv canon files opened root w \<Longrightarrow> wsink_job_inv canon files opened root w'"
  using sink_located_paths [of "fst w'" "fst w" root] by (simp add: wsink_job_inv_def)

lemma placed_located: "sink_placed root job_id name s \<Longrightarrow> lower_hex 32 job_id \<Longrightarrow> sink_located root s"
  unfolding sink_placed_def sink_located_def by (intro exI [of _ job_id] exI [of _ name]) (elim conjE, intro conjI)

locale win32_jobs = win32_fs api canon files opened
  for api :: "'f win32_file_api" and canon :: "wchar list \<Rightarrow> 'k" and files opened +
  fixes root :: "wchar list"

sublocale win32_jobs \<subseteq> win_sink: file_sink "sink_begin_fn api" "sink_write_fn api" "sink_commit_fn api" "sink_abort_fn api"
  "wsink_job_inv canon files opened root" "wsink_staged canon files" "wsink_published canon files"
proof (unfold_locales, goal_cases)
  case (1 w expected)
  then show ?case using begin_ok [OF job_inv_sink [OF 1(1)] 1(2), of expected] job_inv_keep [OF _ _ 1(1)] by blast
next
  case (2 w bs n d)
  then show ?case using write_ok [OF job_inv_sink [OF 2(1)] 2(2,3)] job_inv_keep [OF _ _ 2(1)] by blast
next
  case (3 w bs)
  then show ?case using commit_ok [OF job_inv_sink [OF 3(1)] 3(2)] job_inv_keep [OF _ _ 3(1)] by blast
next
  case (4 w)
  then show ?case using abort_ok [OF job_inv_sink [OF 4(1)]] job_inv_keep [OF _ _ 4(1)] by blast
qed

text \<open>
  The same contract with the handles in its invariant: the live handles are those of a fixed \<open>base\<close>,
  besides the one the sink holds. What ends the staging thereby closes the handle.
\<close>

definition wsink_held_inv where
  "wsink_held_inv canon files opened root base w \<longleftrightarrow> wsink_job_inv canon files opened root w \<and>
     (\<forall>h. h \<notin> sink_handles (fst w) \<longrightarrow> opened (snd w) h = base h) \<and> (\<forall>h \<in> sink_handles (fst w). base h = None)"

lemma held_moved:
  "wsink_held_inv canon files opened root base w \<Longrightarrow> wsink_job_inv canon files opened root w' \<Longrightarrow>
   handles_moved (opened (snd w)) (opened (snd w')) (sink_handles (fst w)) (sink_handles (fst w')) \<Longrightarrow>
   wsink_held_inv canon files opened root base w'"
  unfolding wsink_held_inv_def handles_moved_def by (metis DiffI Un_iff)

lemma held_job: "wsink_held_inv canon files opened root base w \<Longrightarrow> wsink_job_inv canon files opened root w"
  by (simp add: wsink_held_inv_def)

text \<open>A sink that holds nothing leaves the base; an open one can be seen as holding its handle over a base.\<close>

lemma held_released:
  assumes "wsink_held_inv canon files opened root base w" and "wsink_staged canon files w = None"
  shows "opened (snd w) = base"
proof -
  have "sink_handles (fst w) = {}"
    using assms by (auto simp: wsink_held_inv_def wsink_job_inv_def wsink_inv_def wsink_staged_def sink_handles_def split: prod.splits if_splits)
  then show ?thesis using assms(1) by (auto simp: wsink_held_inv_def)
qed

lemma held_open:
  assumes "wsink_job_inv canon files opened root (s, f)" and "wsink_staged canon files (s, f) \<noteq> None"
  shows "wsink_held_inv canon files opened root ((opened f)(ws_file_handle s := None)) (s, f)"
  using assms by (auto simp: wsink_held_inv_def sink_handles_def wsink_staged_def split: if_splits)

context win32_jobs
begin

lemma held_sink:
  assumes "always_closes api opened"
  shows "file_sink (sink_begin_fn api) (sink_write_fn api) (sink_commit_fn api) (sink_abort_fn api)
    (wsink_held_inv canon files opened root base) (wsink_staged canon files) (wsink_published canon files)"
proof (unfold_locales, goal_cases)
  case (1 w expected)
  note j = held_job [OF 1(1)]
  show ?case using begin_ok [OF job_inv_sink [OF j] 1(2), of expected] job_inv_keep [OF _ _ j] held_moved [OF 1(1)] assms by meson
next
  case (2 w bs n d)
  note j = held_job [OF 2(1)]
  show ?case using write_ok [OF job_inv_sink [OF j] 2(2,3)] job_inv_keep [OF _ _ j] held_moved [OF 2(1)] assms by meson
next
  case (3 w bs)
  note j = held_job [OF 3(1)]
  show ?case using commit_ok [OF job_inv_sink [OF j] 3(2)] job_inv_keep [OF _ _ j] held_moved [OF 3(1)] assms by meson
next
  case (4 w)
  note j = held_job [OF 4(1)]
  show ?case using abort_ok [OF job_inv_sink [OF j]] job_inv_keep [OF _ _ j] held_moved [OF 4(1)] assms by meson
qed

end

section \<open>A file system in memory\<close>

text \<open>
  The calls on a file system kept as a map: the laws of \<open>win32_fs\<close> hold of it, so they are
  consistent, and the witnesses run on it.
\<close>

record mem_fs =
  mf_files :: "wchar list \<rightharpoonup> u8 list"
  mf_open :: "win_handle \<rightharpoonup> wchar list"
  mf_next :: win_handle

definition mem_create :: "mem_fs \<Rightarrow> wchar list \<Rightarrow> u32 \<Rightarrow> u32 \<Rightarrow> u32 \<Rightarrow> u32 \<Rightarrow> win_handle \<times> mem_fs" where
  "mem_create f p access share disposition attrs = (let h = mf_next f in
     if (disposition = CREATE_NEW \<and> mf_files f p \<noteq> None) \<or> mf_open f h \<noteq> None \<or> h = 0 \<or> h = INVALID_HANDLE_VALUE
     then (INVALID_HANDLE_VALUE, f)
     else (h, f\<lparr>mf_files := (mf_files f)(p \<mapsto> []), mf_open := (mf_open f)(h \<mapsto> p), mf_next := h + 1\<rparr>))"

definition mem_write_file :: "mem_fs \<Rightarrow> win_handle \<Rightarrow> u8 list \<Rightarrow> (bool \<times> u32 \<times> mem_fs) option" where
  "mem_write_file f h d =
     (case mf_open f h of
        None \<Rightarrow> None
      | Some p \<Rightarrow>
          (case mf_files f p of
             None \<Rightarrow> Some (False, 0, f)
           | Some bs \<Rightarrow> Some (
               if length d < 2 ^ 32
               then (True, of_nat (length d), f\<lparr>mf_files := (mf_files f)(p \<mapsto> bs @ d)\<rparr>) else (False, 0, f))))"

definition mem_flush :: "mem_fs \<Rightarrow> win_handle \<Rightarrow> (bool \<times> mem_fs) option" where
  "mem_flush f h = (if mf_open f h = None then None else Some (True, f))"

definition mem_close :: "mem_fs \<Rightarrow> win_handle \<Rightarrow> (bool \<times> mem_fs) option" where
  "mem_close f h = (if mf_open f h = None then None else Some (True, f\<lparr>mf_open := (mf_open f)(h := None)\<rparr>))"

definition mem_move :: "mem_fs \<Rightarrow> wchar list \<Rightarrow> wchar list \<Rightarrow> u32 \<Rightarrow> bool \<times> mem_fs" where
  "mem_move f p q flags =
     (if (mf_files f q \<noteq> None \<and> and flags MOVEFILE_REPLACE_EXISTING = 0) \<or> mf_files f p = None then (False, f)
      else (True, f\<lparr>mf_files := (mf_files f)(q := mf_files f p, p := None)\<rparr>))"

definition mem_delete :: "mem_fs \<Rightarrow> wchar list \<Rightarrow> bool \<times> mem_fs" where
  "mem_delete f p = (mf_files f p \<noteq> None, f\<lparr>mf_files := (mf_files f)(p := None)\<rparr>)"

definition mem_widen :: "u32 \<Rightarrow> u32 \<Rightarrow> u8 list \<Rightarrow> nat \<Rightarrow> nat \<times> wchar list" where
  "mem_widen page flags u cap =
     (if (\<forall>c \<in> set u. 0 < c \<and> c < 128) \<and> length u < cap
      then (length u + 1, map ucast u @ replicate (cap - length u) 0) else (0, replicate cap 0))"

definition mem_file_api :: "mem_fs win32_file_api" where
  "mem_file_api = \<lparr>CreateDirectoryW = \<lambda>f p. (True, f), GetLastError = \<lambda>f. 0,
     GetFileAttributesW = \<lambda>f p. (FILE_ATTRIBUTE_DIRECTORY, f), CreateFileW = mem_create, WriteFile = mem_write_file,
     FlushFileBuffers = mem_flush, CloseHandle = mem_close, MoveFileExW = mem_move, DeleteFileW = mem_delete,
     MultiByteToWideChar = mem_widen\<rparr>"

lemma mem_widen_law:
  assumes "mem_widen page flags u cap = (len, buf)" and "len \<noteq> 0"
  shows "length buf = cap \<and> 0 \<in> set buf \<and> length (w_str buf) + 1 = len \<and>
    (\<forall>c \<in> set (w_str buf). c < 128 \<longrightarrow> ucast c \<in> set u)"
proof -
  have ascii: "\<forall>c \<in> set u. 0 < c \<and> c < 128" and fits: "length u < cap"
    and buf: "len = length u + 1" "buf = map ucast u @ replicate (cap - length u) 0"
    using assms by (auto simp: mem_widen_def split: if_splits)
  have narrow: "ucast (ucast c :: wchar) = c" for c :: u8 by (simp add: bit_eq_iff bit_simps) 
  have "0 \<notin> set (map ucast u :: wchar list)"
  proof
    assume "0 \<in> set (map ucast u :: wchar list)"
    then obtain c where "c \<in> set u" "(ucast c :: wchar) = 0" by auto
    moreover have "c = 0" using calculation(2) narrow [of c] by simp
    ultimately show False using ascii by auto
  qed
  then have "w_str buf = map ucast u"
    using fits w_str_terminated [of "map ucast u" "replicate (cap - length u - 1) 0"]
    by (simp add: buf(2) replicate_Suc [symmetric] Suc_diff_Suc del: replicate_Suc)
  then show ?thesis using fits buf narrow by auto
qed

lemma unat_of_nat_u32: "n < 4294967296 \<Longrightarrow> unat (of_nat n :: u32) = n"
  by (simp add: unat_of_nat take_bit_nat_eq_self)

interpretation mem_win: win32_jobs mem_file_api "\<lambda>p. p" mf_files mf_open "w_lit ''C:''"
proof (unfold_locales, goal_cases)
  case (10 u cap len buf)
  then show ?case using mem_widen_law [of CP_UTF8 MB_ERR_INVALID_CHARS u cap len buf] by (simp add: mem_file_api_def)
qed (auto simp: mem_file_api_def mem_create_def mem_write_file_def mem_flush_def mem_close_def mem_move_def mem_delete_def
    w_lit_def Let_def unat_of_nat_u32 MOVEFILE_REPLACE_EXISTING_def MOVEFILE_WRITE_THROUGH_def split: if_splits option.splits)

lemma mem_always_closes: "always_closes mem_file_api mf_open"
  by (simp add: always_closes_def mem_file_api_def mem_close_def)

lemma mem_commit_reliable: "commit_reliable mem_file_api (\<lambda>p. p) mf_files mf_open"
  unfolding commit_reliable_def using mem_always_closes by (simp add: mem_file_api_def mem_flush_def mem_move_def)


section \<open>The correctness of the sink\<close>

definition empty_sink :: pd_win32_file_sink where
  "empty_sink = \<lparr>ws_file_handle = INVALID_HANDLE_VALUE, ws_job_directory = replicate 260 0,
     ws_staging_path = replicate 260 0, ws_final_path = replicate 260 0, ws_initialized = False\<rparr>"

definition empty_fs :: mem_fs where
  "empty_fs = \<lparr>mf_files = Map.empty, mf_open = Map.empty, mf_next = 1\<rparr>"

text \<open>C34: Initialising a sink never leaves its buffers and touches no file and no handle, and its result
  is exact: an empty receive directory, a job identifier other than 32 lowercase hex digits, a file name
  that is not already safe and one that is not UTF-8 are refused each with its own error; the paths are
  too long exactly when the staging path, \<^verbatim>\<open>root\job\name.part\<close> with its terminator, exceeds 260
  characters; the root is refused exactly when it can be neither created nor found as a directory;
  every other input succeeds, with the final and staging paths directly in the directory of that job
  below the receive directory.\<close>

theorem win32_sink_init_contained:
  assumes "win32_fs api canon files opened"
    and "0 \<in> set root" and "0 \<in> set jid" and "0 \<in> set name"
  shows "\<exists>r s' f'. pd_win32_file_sink_init api (Some s) (Some root) (Some jid) (Some name) f = Some (r, Some s', f') \<and>
    files f' = files f \<and> opened f' = opened f \<and> init_outcome api root jid name f r s s'"
  using assms by (rule win32_fs.init_spec)

theorem win32_sink_init_contained_witness:
  "\<exists>r s' f'. pd_win32_file_sink_init mem_file_api (Some empty_sink) (Some (w_lit ''C:'' @ [0]))
      (Some (replicate 32 97 @ [0])) (Some (c_lit ''a.pdf'' @ [0])) empty_fs = Some (r, Some s', f') \<and>
    mf_files f' = mf_files empty_fs \<and> mf_open f' = mf_open empty_fs \<and>
    init_outcome mem_file_api (w_lit ''C:'' @ [0]) (replicate 32 97 @ [0]) (c_lit ''a.pdf'' @ [0]) empty_fs r empty_sink s'"
  by (rule win32_sink_init_contained [OF mem_win.win32_fs_axioms]) simp_all

text \<open>C7: The callbacks of the Windows sink refine the abstract sink: from any consistent state every
  call returns, keeps the object consistent and its paths unchanged, and moves the staged bytes and
  the published file as one step of \<open>sink_spec\<close>, so a commit publishes exactly the staged bytes and
  only where no file was; no file other than the staging and the final one changes. Every call on a
  handle is on the live one the sink holds, no other handle moves, and when \<^verbatim>\<open>CloseHandle\<close> does not
  fail, a handle the sink gives up, by a commit or an abort, is closed.\<close>

theorem win32_sink_refines:
  assumes "win32_fs api canon files opened" and "wsink_inv canon files opened (s, f)" and "call_ok c"
  shows "\<exists>st k s' f'. sink_call_fn api c (s, f) = Some (st, k, s', f') \<and> wsink_inv canon files opened (s', f') \<and>
    sink_paths s' = sink_paths s \<and>
    sink_spec (sink_abs canon files (s, f)) c st k (sink_abs canon files (s', f')) \<and>
    (\<forall>q. q \<noteq> canon (w_str (ws_staging_path s)) \<and> q \<noteq> canon (w_str (ws_final_path s)) \<longrightarrow> files f' q = files f q) \<and>
    (always_closes api opened \<longrightarrow> handles_moved (opened f) (opened f') (sink_handles s) (sink_handles s'))"
  using win32_fs.call_simulated [OF assms] by (auto simp: call_simulated_def)

definition staging_sink :: pd_win32_file_sink where
  "staging_sink = empty_sink\<lparr>ws_staging_path := 97 # replicate 259 0, ws_file_handle := 1\<rparr>"

definition staging_fs :: mem_fs where
  "staging_fs = \<lparr>mf_files = [[97] \<mapsto> [7]], mf_open = [1 \<mapsto> [97]], mf_next = 2\<rparr>"

theorem win32_sink_refines_witness:
  "\<exists>st k s' f'. sink_call_fn mem_file_api Abort (staging_sink, staging_fs) = Some (st, k, s', f') \<and>
    sink_spec (Some [7], None) Abort st k (None, None) \<and> mf_open f' 1 = None"
proof -
  have inv: "wsink_inv (\<lambda>p. p) mf_files mf_open (staging_sink, staging_fs)" and h: "sink_handles staging_sink = {1}"
    and abs: "sink_abs (\<lambda>p. p) mf_files (staging_sink, staging_fs) = (Some [7], None)"
    by (simp_all add: wsink_inv_def wsink_shape_def staging_sink_def empty_sink_def staging_fs_def pd_win32_handle_is_open_def
      w_str_def INVALID_HANDLE_VALUE_def sink_handles_def sink_abs_def wsink_staged_def wsink_published_def)
  have "call_ok Abort" by simp
  from win32_sink_refines [OF mem_win.win32_fs_axioms inv this] abs obtain st k s' f' where
    c: "sink_call_fn mem_file_api Abort (staging_sink, staging_fs) = Some (st, k, s', f')"
    "sink_spec (Some [7], None) Abort st k (sink_abs (\<lambda>p. p) mf_files (s', f'))"
    "wsink_inv (\<lambda>p. p) mf_files mf_open (s', f')"
    "handles_moved (mf_open staging_fs) (mf_open f') {1} (sink_handles s')"
    using mem_always_closes h by auto
  have a: "sink_abs (\<lambda>p. p) mf_files (s', f') = (None, None)" using c(2) by (cases rule: sink_spec.cases) auto
  then have "sink_handles s' = {}" using c(3) by (auto simp: sink_handles_def sink_abs_def wsink_staged_def wsink_inv_def split: if_splits)
  then show ?thesis using c(1,2,4) a by (auto simp: handles_moved_def)
qed

definition sample_init :: "(pd_win32_sink_result \<times> pd_win32_file_sink option \<times> mem_fs) option" where
  "sample_init = pd_win32_file_sink_init mem_file_api (Some empty_sink) (Some (w_lit ''C:'' @ [0]))
     (Some (replicate 32 97 @ [0])) (Some (c_lit ''a.pdf'' @ [0])) empty_fs"

lemma sample_init_result: "map_option fst sample_init = Some PD_WIN32_SINK_OK"
  by code_simp

lemma sample_init_ok: "\<exists>s' f'. sample_init = Some (PD_WIN32_SINK_OK, Some s', f')"
proof -
  obtain r s' f' where i: "sample_init = Some (r, Some s', f')"
    using win32_fs.init_spec [OF mem_win.win32_fs_axioms, of "w_lit ''C:'' @ [0]" "replicate 32 97 @ [0]" "c_lit ''a.pdf'' @ [0]"
      empty_sink empty_fs] unfolding sample_init_def by auto
  have "r = PD_WIN32_SINK_OK" using sample_init_result unfolding i by simp
  then show ?thesis using i by blast
qed

text \<open>C6: Whatever sequence of calls follows a successful initialisation, every call returns, only the
  staging and the final file of the job change, and a file that was already at the final path keeps its
  contents.\<close>

theorem win32_sink_confined:
  assumes "win32_fs api canon files opened"
    and "0 \<in> set root" and "0 \<in> set jid" and "0 \<in> set name"
    and "pd_win32_file_sink_init api (Some s) (Some root) (Some jid) (Some name) f = Some (PD_WIN32_SINK_OK, Some s', f')"
    and "\<forall>c \<in> set calls. call_ok c"
  shows "\<exists>wide s2 f2. sink_placed (w_str root) (c_str jid) wide s' \<and> sink_run api calls (s', f') = Some (s2, f2) \<and>
    (\<forall>q. q \<noteq> canon (w_str (ws_staging_path s')) \<and> q \<noteq> canon (w_str (ws_final_path s')) \<longrightarrow> files f2 q = files f q) \<and>
    (\<forall>bs. files f (canon (w_str (ws_final_path s'))) = Some bs \<longrightarrow> files f2 (canon (w_str (ws_final_path s'))) = Some bs)"
proof -
  obtain f'_files: "files f' = files f" and out: "init_outcome api root jid name f PD_WIN32_SINK_OK s s'"
    using win32_fs.init_spec [OF assms(1-4), of s f] assms(5) by auto
  obtain wide where placed: "sink_placed (w_str root) (c_str jid) wide s'"
    using win32_fs.init_ok_placed [OF assms(1) out] .
  have "\<exists>w'. sink_run api calls (s', f') = Some w' \<and> wsink_inv canon files opened w' \<and> sink_paths (fst w') = sink_paths s' \<and>
    (\<forall>q. q \<noteq> canon (w_str (ws_staging_path s')) \<and> q \<noteq> canon (w_str (ws_final_path s')) \<longrightarrow> files (snd w') q = files f' q) \<and>
    (\<forall>bs. wsink_published canon files (s', f') = Some bs \<longrightarrow> wsink_published canon files w' = Some bs)"
    using win32_fs.run_confined [OF assms(1) win32_fs.placed_inv(1) [OF assms(1) placed] assms(6)] by simp
  then show ?thesis using f'_files placed by (auto simp: wsink_published_def sink_paths_def)
qed

theorem win32_sink_confined_witness:
  "\<exists>s' f' wide s2 f2. sample_init = Some (PD_WIN32_SINK_OK, Some s', f') \<and>
    sink_placed (w_str (w_lit ''C:'' @ [0])) (c_str (replicate 32 97 @ [0])) wide s' \<and>
    sink_run mem_file_api [Begin 1, Write [7] 1, Commit] (s', f') = Some (s2, f2) \<and>
    (\<forall>q. q \<noteq> w_str (ws_staging_path s') \<and> q \<noteq> w_str (ws_final_path s') \<longrightarrow> mf_files f2 q = mf_files empty_fs q) \<and>
    (\<forall>bs. mf_files empty_fs (w_str (ws_final_path s')) = Some bs \<longrightarrow> mf_files f2 (w_str (ws_final_path s')) = Some bs)"
proof -
  obtain s' f' where s: "sample_init = Some (PD_WIN32_SINK_OK, Some s', f')" using sample_init_ok by blast
  have "\<exists>wide s2 f2. sink_placed (w_str (w_lit ''C:'' @ [0])) (c_str (replicate 32 97 @ [0])) wide s' \<and>
      sink_run mem_file_api [Begin 1, Write [7] 1, Commit] (s', f') = Some (s2, f2) \<and>
      (\<forall>q. q \<noteq> w_str (ws_staging_path s') \<and> q \<noteq> w_str (ws_final_path s') \<longrightarrow> mf_files f2 q = mf_files empty_fs q) \<and>
      (\<forall>bs. mf_files empty_fs (w_str (ws_final_path s')) = Some bs \<longrightarrow> mf_files f2 (w_str (ws_final_path s')) = Some bs)"
    by (rule win32_sink_confined [OF mem_win.win32_fs_axioms _ _ _ s [unfolded sample_init_def]]) simp_all
  with s show ?thesis by blast
qed

end
