(* ===== verification/PD_Win32Crypto.thy ===== *)
theory PD_Win32Crypto
  imports PD_Session PD_FileReceive
begin

text \<open>
  The Windows cryptography backends: the SHA-256 computation of \<^verbatim>\<open>win32_sha256.c\<close> and the random
  bytes of \<^verbatim>\<open>win32_random.c\<close>.

  The calls of bcrypt and of the process heap are parameters, the record \<open>bcrypt_api\<close> over a service
  state \<open>'b\<close>; a call on a handle that is not live has no defined result. The locale \<open>bcrypt_service\<close>
  states what their documentation promises: which resources are live after a call, that a hash object
  needs its buffer and its provider until it is destroyed, and which bytes a computation has taken in.
  The development shows that the wrapper uses only live handles, releases everything it acquired in
  the order the service requires, and keeps the contract of the file receiver's integrity backend.
\<close>

type_synonym bc_handle = u64
type_synonym NTSTATUS = u32

definition nt_failed :: "NTSTATUS \<Rightarrow> bool" where
  "nt_failed status \<longleftrightarrow> sint status < 0"

definition ULONG_MAX :: nat where "ULONG_MAX = 4294967295"

section \<open>The Windows calls\<close>

record 'b bcrypt_api =
  BCryptOpenAlgorithmProvider :: "'b \<Rightarrow> NTSTATUS \<times> bc_handle \<times> 'b"
  BCryptGetProperty :: "'b \<Rightarrow> bc_handle \<Rightarrow> (NTSTATUS \<times> u32 \<times> u32 \<times> 'b) option"
  BCryptCreateHash :: "'b \<Rightarrow> bc_handle \<Rightarrow> bc_handle \<Rightarrow> u32 \<Rightarrow> (NTSTATUS \<times> bc_handle \<times> 'b) option"
  BCryptHashData :: "'b \<Rightarrow> bc_handle \<Rightarrow> u8 list \<Rightarrow> (NTSTATUS \<times> 'b) option"
  BCryptFinishHash :: "'b \<Rightarrow> bc_handle \<Rightarrow> (NTSTATUS \<times> u8 list \<times> 'b) option"
  BCryptDestroyHash :: "'b \<Rightarrow> bc_handle \<Rightarrow> 'b option"
  BCryptCloseAlgorithmProvider :: "'b \<Rightarrow> bc_handle \<Rightarrow> 'b option"
  BCryptGenRandom :: "'b \<Rightarrow> nat \<Rightarrow> NTSTATUS \<times> u8 list \<times> 'b"
  HeapAlloc :: "'b \<Rightarrow> u32 \<Rightarrow> bc_handle \<times> 'b"
  HeapFree :: "'b \<Rightarrow> bc_handle \<Rightarrow> 'b option"

section \<open>Data\<close>

record pd_win32_sha256 =
  sh_algorithm_handle :: bc_handle
  sh_hash_handle :: bc_handle
  sh_object_buffer :: bc_handle
  sh_object_length :: u32
  sh_active :: bool

section \<open>Operations\<close>

definition pd_win32_sha256_cleanup ::
  "'b bcrypt_api \<Rightarrow> pd_win32_sha256 option \<Rightarrow> 'b \<Rightarrow> (pd_win32_sha256 option \<times> 'b) option" where
  "pd_win32_sha256_cleanup api context b =
     (case context of
        None \<Rightarrow> Some (context, b)
      | Some c \<Rightarrow> do {
          (c, b) \<leftarrow>
            (if sh_hash_handle c \<noteq> 0
             then do { b \<leftarrow> BCryptDestroyHash api b (sh_hash_handle c); Some (c\<lparr>sh_hash_handle := 0\<rparr>, b) }
             else Some (c, b));
          (c, b) \<leftarrow>
            (if sh_object_buffer c \<noteq> 0
             then do { b \<leftarrow> HeapFree api b (sh_object_buffer c); Some (c\<lparr>sh_object_buffer := 0\<rparr>, b) }
             else Some (c, b));
          (c, b) \<leftarrow>
            (if sh_algorithm_handle c \<noteq> 0
             then do {
               b \<leftarrow> BCryptCloseAlgorithmProvider api b (sh_algorithm_handle c);
               Some (c\<lparr>sh_algorithm_handle := 0\<rparr>, b) }
             else Some (c, b));
          Some (Some (c\<lparr>sh_object_length := 0, sh_active := False\<rparr>), b) })"

definition zero_sha256 :: pd_win32_sha256 where
  "zero_sha256 = \<lparr>sh_algorithm_handle = 0, sh_hash_handle = 0, sh_object_buffer = 0, sh_object_length = 0, sh_active = False\<rparr>"

definition pd_win32_sha256_init :: "pd_win32_sha256 option \<Rightarrow> pd_win32_sha256 option" where
  "pd_win32_sha256_init context = (if context \<noteq> None then Some zero_sha256 else context)"

definition pd_win32_sha256_begin ::
  "'b bcrypt_api \<Rightarrow> pd_win32_sha256 option \<Rightarrow> 'b \<Rightarrow> (pd_integrity_status \<times> pd_win32_sha256 option \<times> 'b) option" where
  "pd_win32_sha256_begin api opaque b =
     (case opaque of
        None \<Rightarrow> Some (PD_INTEGRITY_ERROR, opaque, b)
      | Some c0 \<Rightarrow>
          if sh_active c0 then Some (PD_INTEGRITY_ERROR, opaque, b)
          else do {
            (opaque, b) \<leftarrow> pd_win32_sha256_cleanup api opaque b;
            c \<leftarrow> opaque;
            let (status, algorithm, b) = BCryptOpenAlgorithmProvider api b;
            if nt_failed status then Some (PD_INTEGRITY_ERROR, opaque, b)
            else do {
              (status, object_length, result_length, b) \<leftarrow> BCryptGetProperty api b algorithm;
              if nt_failed status \<or> result_length \<noteq> 4 \<or> object_length = 0
              then do {
                b \<leftarrow> BCryptCloseAlgorithmProvider api b algorithm;
                Some (PD_INTEGRITY_ERROR, opaque, b) }
              else do {
                let (object_buffer, b) = HeapAlloc api b object_length;
                if object_buffer = 0
                then do {
                  b \<leftarrow> BCryptCloseAlgorithmProvider api b algorithm;
                  Some (PD_INTEGRITY_ERROR, opaque, b) }
                else do {
                  (status, hash, b) \<leftarrow> BCryptCreateHash api b algorithm object_buffer object_length;
                  if nt_failed status
                  then do {
                    b \<leftarrow> HeapFree api b object_buffer;
                    b \<leftarrow> BCryptCloseAlgorithmProvider api b algorithm;
                    Some (PD_INTEGRITY_ERROR, opaque, b) }
                  else Some (PD_INTEGRITY_OK, Some (c\<lparr>sh_algorithm_handle := algorithm, sh_hash_handle := hash,
                    sh_object_buffer := object_buffer, sh_object_length := object_length, sh_active := True\<rparr>), b) } } } })"

definition pd_win32_sha256_update ::
  "'b bcrypt_api \<Rightarrow> pd_win32_sha256 option \<Rightarrow> u8 list option \<Rightarrow> nat \<Rightarrow> 'b \<Rightarrow>
   (pd_integrity_status \<times> pd_win32_sha256 option \<times> 'b) option" where
  "pd_win32_sha256_update api opaque data data_size b =
     (case opaque of
        None \<Rightarrow> Some (PD_INTEGRITY_ERROR, opaque, b)
      | Some c \<Rightarrow>
          if \<not> sh_active c \<or> sh_hash_handle c = 0 \<or> (data = None \<and> data_size \<noteq> 0) \<or> ULONG_MAX < data_size
          then Some (PD_INTEGRITY_ERROR, opaque, b)
          else do {
            bytes \<leftarrow> (case data of None \<Rightarrow> Some [] | Some d \<Rightarrow> mem_slice d 0 data_size);
            (status, b) \<leftarrow> BCryptHashData api b (sh_hash_handle c) bytes;
            Some (if nt_failed status then PD_INTEGRITY_ERROR else PD_INTEGRITY_OK, opaque, b) })"

text \<open>The digest buffer is a caller's array of 32 bytes; it is rewritten only after the guards.\<close>

definition pd_win32_sha256_finish ::
  "'b bcrypt_api \<Rightarrow> pd_win32_sha256 option \<Rightarrow> u8 list option \<Rightarrow> 'b \<Rightarrow>
   (pd_integrity_status \<times> pd_win32_sha256 option \<times> u8 list option \<times> 'b) option" where
  "pd_win32_sha256_finish api opaque digest b =
     (case (opaque, digest) of
        (Some c, Some dg) \<Rightarrow>
          if \<not> sh_active c \<or> sh_hash_handle c = 0 then Some (PD_INTEGRITY_ERROR, opaque, digest, b)
          else do {
            (status, bytes, b) \<leftarrow> BCryptFinishHash api b (sh_hash_handle c);
            dg \<leftarrow> put dg 0 bytes;
            (opaque, b) \<leftarrow> pd_win32_sha256_cleanup api opaque b;
            Some (if nt_failed status then PD_INTEGRITY_ERROR else PD_INTEGRITY_OK, opaque, Some dg, b) }
      | _ \<Rightarrow> Some (PD_INTEGRITY_ERROR, opaque, digest, b))"

definition pd_win32_sha256_abort ::
  "'b bcrypt_api \<Rightarrow> pd_win32_sha256 option \<Rightarrow> 'b \<Rightarrow> (pd_win32_sha256 option \<times> 'b) option" where
  "pd_win32_sha256_abort api opaque b = pd_win32_sha256_cleanup api opaque b"

text \<open>The callback table, on the state of a context object and the service.\<close>

type_synonym 'b sha_state = "pd_win32_sha256 \<times> 'b"

definition sha_begin_fn :: "'b bcrypt_api \<Rightarrow> 'b sha_state \<Rightarrow> (pd_integrity_status \<times> 'b sha_state) option" where
  "sha_begin_fn api w = do {
     (st, c, b) \<leftarrow> pd_win32_sha256_begin api (Some (fst w)) (snd w); c' \<leftarrow> c; Some (st, c', b) }"

definition sha_update_fn ::
  "'b bcrypt_api \<Rightarrow> 'b sha_state \<Rightarrow> u8 list option \<Rightarrow> nat \<Rightarrow> (pd_integrity_status \<times> 'b sha_state) option" where
  "sha_update_fn api w d n = do {
     (st, c, b) \<leftarrow> pd_win32_sha256_update api (Some (fst w)) d n (snd w); c' \<leftarrow> c; Some (st, c', b) }"

definition sha_finish_fn :: "'b bcrypt_api \<Rightarrow> 'b sha_state \<Rightarrow> (pd_integrity_status \<times> u8 list \<times> 'b sha_state) option" where
  "sha_finish_fn api w = do {
     (st, c, dg, b) \<leftarrow> pd_win32_sha256_finish api (Some (fst w)) (Some (replicate PD_SHA256_BYTES 0)) (snd w);
     c' \<leftarrow> c; digest \<leftarrow> dg; Some (st, digest, c', b) }"

definition sha_abort_fn :: "'b bcrypt_api \<Rightarrow> 'b sha_state \<Rightarrow> 'b sha_state option" where
  "sha_abort_fn api w = do { (c, b) \<leftarrow> pd_win32_sha256_abort api (Some (fst w)) (snd w); c' \<leftarrow> c; Some (c', b) }"

definition pd_win32_sha256_ops :: "'b bcrypt_api \<Rightarrow> 'b sha_state pd_integrity_ops" where
  "pd_win32_sha256_ops api = integrity_table (sha_begin_fn api) (sha_update_fn api) (sha_finish_fn api) (sha_abort_fn api)"

definition pd_win32_random_fill ::
  "'b bcrypt_api \<Rightarrow> u8 list option \<Rightarrow> nat \<Rightarrow> 'b \<Rightarrow> (bool \<times> u8 list option \<times> 'b) option" where
  "pd_win32_random_fill api buffer buffer_size b =
     (if (buffer = None \<and> buffer_size \<noteq> 0) \<or> ULONG_MAX < buffer_size then Some (False, buffer, b)
      else if buffer_size = 0 then Some (True, buffer, b)
      else do {
        buf \<leftarrow> buffer;
        let (status, bytes, b) = BCryptGenRandom api b buffer_size;
        buf \<leftarrow> put buf 0 bytes;
        Some (\<not> nt_failed status, Some buf, b) })"

text \<open>The callback as the session and job modules see it: a source filling a fresh buffer.\<close>

definition win32_fill :: "'b bcrypt_api \<Rightarrow> 'b pd_random_fill_fn" where
  "win32_fill api b n =
     (case pd_win32_random_fill api (Some (replicate n 0)) n b of
        Some (ok, Some buf, b') \<Rightarrow> (ok, buf, b')
      | _ \<Rightarrow> (False, replicate n 0, b))"

section \<open>What the calls promise\<close>

datatype bc_resource = Provider bc_handle | Buffer bc_handle | Hash bc_handle bc_handle bc_handle

text \<open>
  \<open>live\<close> is the set of acquired resources, where \<open>Hash h p a\<close> is a hash object with its buffer and its
  provider, and \<open>hashing\<close> the bytes a hash object has taken in. A buffer may be freed and a provider
  closed only when no live hash object uses it.
\<close>

locale bcrypt_service =
  fixes api :: "'b bcrypt_api"
    and live :: "'b \<Rightarrow> bc_resource set"
    and hashing :: "'b \<Rightarrow> bc_handle \<Rightarrow> u8 list option"
    and hash :: "u8 list \<Rightarrow> u8 list"
  assumes digest_length: "length (hash bs) = 32"
    and hash_needs: "Hash h p a \<in> live b \<Longrightarrow> Buffer p \<in> live b \<and> Provider a \<in> live b"
    and open_provider: "BCryptOpenAlgorithmProvider api b = (st, a, b') \<Longrightarrow> hashing b' = hashing b \<and>
      (if nt_failed st then live b' = live b
       else a \<noteq> 0 \<and> Provider a \<notin> live b \<and> live b' = insert (Provider a) (live b))"
    and get_property: "Provider a \<in> live b \<Longrightarrow>
      \<exists>st m r b'. BCryptGetProperty api b a = Some (st, m, r, b') \<and> live b' = live b \<and> hashing b' = hashing b"
    and heap_alloc: "HeapAlloc api b n = (p, b') \<Longrightarrow> hashing b' = hashing b \<and>
      (if p = 0 then live b' = live b else Buffer p \<notin> live b \<and> live b' = insert (Buffer p) (live b))"
    and heap_free: "Buffer p \<in> live b \<Longrightarrow> (\<And>h a. Hash h p a \<notin> live b) \<Longrightarrow>
      \<exists>b'. HeapFree api b p = Some b' \<and> live b' = live b - {Buffer p} \<and> hashing b' = hashing b"
    and create_hash: "Provider a \<in> live b \<Longrightarrow> Buffer p \<in> live b \<Longrightarrow> (\<And>h a. Hash h p a \<notin> live b) \<Longrightarrow>
      \<exists>st h b'. BCryptCreateHash api b a p n = Some (st, h, b') \<and>
        (if nt_failed st then live b' = live b \<and> hashing b' = hashing b
         else h \<noteq> 0 \<and> (\<forall>q c. Hash h q c \<notin> live b) \<and> live b' = insert (Hash h p a) (live b) \<and>
           hashing b' = (hashing b)(h \<mapsto> []))"
    and hash_data: "Hash h p a \<in> live b \<Longrightarrow> hashing b h = Some bs \<Longrightarrow>
      \<exists>st b'. BCryptHashData api b h d = Some (st, b') \<and> live b' = live b \<and> hashing b' h \<noteq> None \<and>
        (\<not> nt_failed st \<longrightarrow> hashing b' h = Some (bs @ d))"
    and finish_hash: "Hash h p a \<in> live b \<Longrightarrow> hashing b h = Some bs \<Longrightarrow>
      \<exists>st dg b'. BCryptFinishHash api b h = Some (st, dg, b') \<and> live b' = live b \<and> length dg = 32 \<and>
        (\<not> nt_failed st \<longrightarrow> dg = hash bs)"
    and destroy_hash: "Hash h p a \<in> live b \<Longrightarrow>
      \<exists>b'. BCryptDestroyHash api b h = Some b' \<and> live b' = live b - {Hash h p a}"
    and close_provider: "Provider a \<in> live b \<Longrightarrow> (\<And>h p. Hash h p a \<notin> live b) \<Longrightarrow>
      \<exists>b'. BCryptCloseAlgorithmProvider api b a = Some b' \<and> live b' = live b - {Provider a} \<and> hashing b' = hashing b"
    and gen_random: "BCryptGenRandom api b k = (st, bytes, b') \<Longrightarrow>
      length bytes = k \<and> live b' = live b \<and> hashing b' = hashing b"

text \<open>The resources a context owns, its invariant and what it has hashed.\<close>

definition sha_owned :: "pd_win32_sha256 \<Rightarrow> bc_resource set" where
  "sha_owned c = (if sh_active c
     then {Provider (sh_algorithm_handle c), Buffer (sh_object_buffer c),
           Hash (sh_hash_handle c) (sh_object_buffer c) (sh_algorithm_handle c)} else {})"

definition sole_user :: "pd_win32_sha256 \<Rightarrow> bc_resource set \<Rightarrow> bool" where
  "sole_user c L \<longleftrightarrow> (\<forall>h p a. Hash h p a \<in> L \<and> (p = sh_object_buffer c \<or> a = sh_algorithm_handle c) \<longrightarrow>
     Hash h p a = Hash (sh_hash_handle c) (sh_object_buffer c) (sh_algorithm_handle c))"

definition sha_inv where
  "sha_inv live hashing w \<longleftrightarrow> (case w of (c, b) \<Rightarrow>
     if sh_active c
     then sh_algorithm_handle c \<noteq> 0 \<and> sh_object_buffer c \<noteq> 0 \<and> sh_hash_handle c \<noteq> 0 \<and>
       sha_owned c \<subseteq> live b \<and> hashing b (sh_hash_handle c) \<noteq> None \<and>
       sole_user c (live b)
     else sh_algorithm_handle c = 0 \<and> sh_object_buffer c = 0 \<and> sh_hash_handle c = 0)"

definition sha_absorbed where
  "sha_absorbed hashing w = (case w of (c, b) \<Rightarrow> if sh_active c then hashing b (sh_hash_handle c) else None)"

definition sha_foreign where
  "sha_foreign live w = (case w of (c, b) \<Rightarrow> live b - sha_owned c)"

context bcrypt_service
begin

abbreviation "inv_h \<equiv> sha_inv live hashing"

abbreviation "absorbed_h \<equiv> sha_absorbed hashing"

lemma cleanup_idle:
  assumes "inv_h (c, b)" and "\<not> sh_active c"
  shows "pd_win32_sha256_cleanup api (Some c) b = Some (Some (c\<lparr>sh_object_length := 0, sh_active := False\<rparr>), b)"
  using assms by (simp add: pd_win32_sha256_cleanup_def sha_inv_def)

lemma cleanup_released:
  assumes "inv_h (c, b0)" and "sh_active c" and "live b = live b0"
  shows "\<exists>b'. pd_win32_sha256_cleanup api (Some c) b = Some (Some zero_sha256, b') \<and> live b' = live b - sha_owned c"
proof -
  let ?a = "sh_algorithm_handle c" and ?p = "sh_object_buffer c" and ?h = "sh_hash_handle c"
  have nz: "?a \<noteq> 0" "?p \<noteq> 0" "?h \<noteq> 0" and own: "Provider ?a \<in> live b" "Buffer ?p \<in> live b" "Hash ?h ?p ?a \<in> live b"
    and sole: "sole_user c (live b)"
    using assms by (simp_all add: sha_inv_def sha_owned_def)
  obtain b1 where b1: "BCryptDestroyHash api b ?h = Some b1" "live b1 = live b - {Hash ?h ?p ?a}"
    using destroy_hash [OF own(3)] by blast
  have n1: "Hash h ?p a \<notin> live b1" for h a using sole b1(2) unfolding sole_user_def by blast
  have n2: "Hash h p ?a \<notin> live b1" for h p using sole b1(2) unfolding sole_user_def by blast
  have "\<exists>b2. HeapFree api b1 ?p = Some b2 \<and> live b2 = live b1 - {Buffer ?p} \<and> hashing b2 = hashing b1"
    by (rule heap_free [OF _ n1]) (simp add: own b1(2))
  then obtain b2 where b2: "HeapFree api b1 ?p = Some b2" "live b2 = live b1 - {Buffer ?p}" by blast
  have "\<exists>b3. BCryptCloseAlgorithmProvider api b2 ?a = Some b3 \<and> live b3 = live b2 - {Provider ?a} \<and> hashing b3 = hashing b2"
    by (rule close_provider) (simp add: own b1(2) b2(2), simp add: b2(2) n2)
  then obtain b3 where b3: "BCryptCloseAlgorithmProvider api b2 ?a = Some b3" "live b3 = live b2 - {Provider ?a}" by blast
  have "pd_win32_sha256_cleanup api (Some c) b = Some (Some zero_sha256, b3)"
    using nz b1(1) b2(1) b3(1) by (simp add: pd_win32_sha256_cleanup_def zero_sha256_def)
  moreover have "live b3 = live b - sha_owned c" using b1 b2 b3 assms(2) by (auto simp: sha_owned_def)
  ultimately show ?thesis by blast
qed

lemma zero_idle [simp]: "\<not> sh_active zero_sha256" "sha_owned zero_sha256 = {}" "inv_h (zero_sha256, b)"
  by (simp_all add: zero_sha256_def sha_owned_def sha_inv_def)

lemma sha_abort_ok:
  assumes "inv_h (c, b)"
  shows "\<exists>c' b'. sha_abort_fn api (c, b) = Some (c', b') \<and> inv_h (c', b') \<and> \<not> sh_active c' \<and>
    sha_foreign live (c', b') = sha_foreign live (c, b)"
proof (cases "sh_active c")
  case True
  then show ?thesis using cleanup_released [OF assms True refl]
    by (auto simp: sha_abort_fn_def pd_win32_sha256_abort_def sha_foreign_def)
next
  case False
  then show ?thesis using cleanup_idle [OF assms False] assms
    by (auto simp: sha_abort_fn_def pd_win32_sha256_abort_def sha_foreign_def sha_inv_def sha_owned_def)
qed


lemma sha_begin_ok:
  assumes "inv_h (c, b)"
  shows "\<exists>st c' b'. sha_begin_fn api (c, b) = Some (st, c', b') \<and> inv_h (c', b') \<and>
    sha_foreign live (c', b') = sha_foreign live (c, b) \<and>
    (\<not> sh_active c \<longrightarrow> absorbed_h (c', b') = (if st = PD_INTEGRITY_OK then Some [] else None)) \<and>
    (sh_active c \<longrightarrow> st = PD_INTEGRITY_ERROR \<and> c' = c \<and> b' = b)"
proof (cases "sh_active c")
  case True
  then show ?thesis using assms by (simp add: sha_begin_fn_def pd_win32_sha256_begin_def)
next
  case False
  let ?c = "c\<lparr>sh_object_length := 0, sh_active := False\<rparr>"
  note clean = cleanup_idle [OF assms False]
  have idle: "inv_h (?c, b')" "absorbed_h (?c, b') = None" "sha_owned ?c = {}" "sha_owned c = {}" for b'
    using assms False by (simp_all add: sha_inv_def sha_absorbed_def sha_owned_def)
  have err: ?thesis if "sha_begin_fn api (c, b) = Some (PD_INTEGRITY_ERROR, ?c, b')" "live b' = live b" for b'
    using that idle False by (simp add: sha_foreign_def)
  obtain st1 a b1 where o: "BCryptOpenAlgorithmProvider api b = (st1, a, b1)" by (metis prod_cases3)
  show ?thesis
  proof (cases "nt_failed st1")
    case failed: True
    then show ?thesis using o clean False open_provider [OF o]
      by (intro err [of b1]) (simp_all add: sha_begin_fn_def pd_win32_sha256_begin_def)
  next
    case opened: False
    have l1: "a \<noteq> 0" "Provider a \<notin> live b" "live b1 = insert (Provider a) (live b)"
      using open_provider [OF o] opened by simp_all
    obtain st2 n k b2 where g: "BCryptGetProperty api b1 a = Some (st2, n, k, b2)" "live b2 = live b1"
      using get_property [of a b1] l1 by auto
    have unused: "Hash h p a \<notin> live b" for h p using hash_needs [of h p a b] l1(2) by blast
    have shut: "\<exists>b'. BCryptCloseAlgorithmProvider api x a = Some b' \<and> live b' = live b" if "live x = live b1" for x
    proof -
      have "\<exists>b'. BCryptCloseAlgorithmProvider api x a = Some b' \<and> live b' = live x - {Provider a} \<and> hashing b' = hashing x"
        by (rule close_provider) (use that l1 unused in simp_all)
      then show ?thesis using that l1 by auto
    qed
    show ?thesis
    proof (cases "nt_failed st2 \<or> k \<noteq> 4 \<or> n = 0")
      case True
      obtain b' where "BCryptCloseAlgorithmProvider api b2 a = Some b'" "live b' = live b" using shut g(2) by blast
      then show ?thesis using True o opened g clean False
        by (intro err [of b']) (simp_all add: sha_begin_fn_def pd_win32_sha256_begin_def)
    next
      case sized: False
      obtain p b3 where h: "HeapAlloc api b2 n = (p, b3)" by fastforce
      show ?thesis
      proof (cases "p = 0")
        case True
        then obtain b' where "BCryptCloseAlgorithmProvider api b3 a = Some b'" "live b' = live b"
          using shut [of b3] g(2) heap_alloc [OF h] by auto
        then show ?thesis using True o opened g clean sized h False
          by (intro err [of b']) (simp_all add: sha_begin_fn_def pd_win32_sha256_begin_def)
      next
        case alloc: False
        have l3: "Buffer p \<notin> live b" "live b3 = insert (Buffer p) (insert (Provider a) (live b))"
          using heap_alloc [OF h] alloc g(2) l1(3) by auto
        have fresh: "Hash x p y \<notin> live b" for x y using hash_needs [of x p y b] l3(1) by blast
        have "\<exists>st hh b'. BCryptCreateHash api b3 a p n = Some (st, hh, b') \<and>
          (if nt_failed st then live b' = live b3 \<and> hashing b' = hashing b3
           else hh \<noteq> 0 \<and> (\<forall>q c. Hash hh q c \<notin> live b3) \<and> live b' = insert (Hash hh p a) (live b3) \<and>
             hashing b' = (hashing b3)(hh \<mapsto> []))"
          by (rule create_hash) (use l3 fresh in simp_all)
        then obtain st3 hh b4 where c: "BCryptCreateHash api b3 a p n = Some (st3, hh, b4)"
          "if nt_failed st3 then live b4 = live b3 \<and> hashing b4 = hashing b3
           else hh \<noteq> 0 \<and> (\<forall>q c. Hash hh q c \<notin> live b3) \<and> live b4 = insert (Hash hh p a) (live b3) \<and>
             hashing b4 = (hashing b3)(hh \<mapsto> [])" by blast
        show ?thesis
        proof (cases "nt_failed st3")
          case True
          have "\<exists>b'. HeapFree api b4 p = Some b' \<and> live b' = live b4 - {Buffer p} \<and> hashing b' = hashing b4"
            by (rule heap_free) (use True c(2) l3 fresh in simp_all)
          then obtain b5 where b5: "HeapFree api b4 p = Some b5" "live b5 = live b1"
            using True c(2) l3 l1(3) by auto
          obtain b' where "BCryptCloseAlgorithmProvider api b5 a = Some b'" "live b' = live b" using shut b5(2) by blast
          then show ?thesis using True o opened g clean sized h alloc c(1) b5(1) False
            by (intro err [of b']) (simp_all add: sha_begin_fn_def pd_win32_sha256_begin_def)
        next
          case ok: False
          let ?n = "c\<lparr>sh_algorithm_handle := a, sh_hash_handle := hh, sh_object_buffer := p, sh_object_length := n, sh_active := True\<rparr>"
          have "sha_begin_fn api (c, b) = Some (PD_INTEGRITY_OK, ?n, b4)"
            using o opened g clean sized h alloc c(1) ok False by (simp add: sha_begin_fn_def pd_win32_sha256_begin_def)
          moreover have "inv_h (?n, b4)" using l1(1) alloc ok c(2) l3(2) fresh unused by (auto simp: sha_inv_def sha_owned_def sole_user_def)
          moreover have "live b4 - sha_owned ?n = live b"
            using ok c(2) l3 l1(2) fresh unused by (auto simp: sha_owned_def)
          moreover have "absorbed_h (?n, b4) = Some []" using ok c(2) by (simp add: sha_absorbed_def)
          ultimately show ?thesis using False idle by (simp add: sha_foreign_def)
        qed
      qed
    qed
  qed
qed


lemma sha_update_ok:
  assumes "inv_h (c, b)" and "n \<le> length d"
  shows "\<exists>st b'. sha_update_fn api (c, b) (Some d) n = Some (st, c, b') \<and> inv_h (c, b') \<and> live b' = live b \<and>
    (st = PD_INTEGRITY_OK \<longrightarrow> (\<exists>bs. absorbed_h (c, b) = Some bs \<and> absorbed_h (c, b') = Some (bs @ take n d)))"
proof (cases "sh_active c \<and> n \<le> ULONG_MAX")
  case False
  then show ?thesis using assms by (auto simp: sha_update_fn_def pd_win32_sha256_update_def)
next
  case True
  let ?h = "sh_hash_handle c"
  have own: "Hash ?h (sh_object_buffer c) (sh_algorithm_handle c) \<in> live b" "?h \<noteq> 0"
    using assms(1) True by (auto simp: sha_inv_def sha_owned_def)
  obtain bs where bs: "hashing b ?h = Some bs" using assms(1) True by (auto simp: sha_inv_def)
  obtain st b' where u: "BCryptHashData api b ?h (take n d) = Some (st, b')" "live b' = live b" "hashing b' ?h \<noteq> None"
    "\<not> nt_failed st \<longrightarrow> hashing b' ?h = Some (bs @ take n d)"
    using hash_data [OF own(1) bs, of "take n d"] by blast
  have "sha_update_fn api (c, b) (Some d) n = Some (if nt_failed st then PD_INTEGRITY_ERROR else PD_INTEGRITY_OK, c, b')"
    using True own(2) u(1) assms(2) by (simp add: sha_update_fn_def pd_win32_sha256_update_def mem_slice_def)
  moreover have "inv_h (c, b')" using assms(1) True u(2,3) by (simp add: sha_inv_def)
  ultimately show ?thesis using u(2,4) bs True by (simp add: sha_absorbed_def)
qed

lemma sha_finish_ok:
  assumes "inv_h (c, b)"
  shows "\<exists>st dg c' b'. sha_finish_fn api (c, b) = Some (st, dg, c', b') \<and> inv_h (c', b') \<and> \<not> sh_active c' \<and>
    sha_foreign live (c', b') = sha_foreign live (c, b) \<and>
    (st = PD_INTEGRITY_OK \<longrightarrow> (\<exists>bs. absorbed_h (c, b) = Some bs \<and> dg = hash bs))"
proof (cases "sh_active c")
  case False
  then show ?thesis using assms by (simp add: sha_finish_fn_def pd_win32_sha256_finish_def)
next
  case True
  let ?h = "sh_hash_handle c"
  have own: "Hash ?h (sh_object_buffer c) (sh_algorithm_handle c) \<in> live b" "?h \<noteq> 0"
    using assms True by (auto simp: sha_inv_def sha_owned_def)
  obtain bs where bs: "hashing b ?h = Some bs" using assms(1) True by (auto simp: sha_inv_def)
  obtain st dg b1 where f: "BCryptFinishHash api b ?h = Some (st, dg, b1)" "live b1 = live b" "length dg = 32"
    "\<not> nt_failed st \<longrightarrow> dg = hash bs"
    using finish_hash [OF own(1) bs] by blast
  obtain b2 where c: "pd_win32_sha256_cleanup api (Some c) b1 = Some (Some zero_sha256, b2)" "live b2 = live b1 - sha_owned c"
    using cleanup_released [OF assms True f(2)] by blast
  have "put (replicate 32 0) 0 dg = Some dg" using f(3) by (simp add: put_def)
  then have "sha_finish_fn api (c, b) = Some (if nt_failed st then PD_INTEGRITY_ERROR else PD_INTEGRITY_OK, dg, zero_sha256, b2)"
    using True own(2) f(1) c(1) by (simp add: sha_finish_fn_def pd_win32_sha256_finish_def)
  then show ?thesis using c(2) f(2,4) bs True by (simp add: sha_foreign_def sha_absorbed_def)
qed

end

text \<open>The Windows backend keeps the contract the file receiver relies on.\<close>

sublocale bcrypt_service \<subseteq> win_hash: integrity_hash "sha_begin_fn api" "sha_update_fn api" "sha_finish_fn api" "sha_abort_fn api"
  "sha_inv live hashing" "sha_absorbed hashing" hash
proof (unfold_locales, goal_cases)
  case (1 bs)
  show ?case by (rule digest_length)
next
  case (2 w)
  obtain c b where w: "w = (c, b)" by fastforce
  have "\<not> sh_active c" using 2 by (auto simp: w sha_absorbed_def sha_inv_def split: if_splits)
  then show ?case using sha_begin_ok [of c b] 2(1) by (auto simp: w)
next
  case (3 w bs n d)
  then show ?case using sha_update_ok [of "fst w" "snd w" n d] by auto
next
  case (4 w bs)
  then show ?case using sha_finish_ok [of "fst w" "snd w"] by (auto simp: sha_absorbed_def)
next
  case (5 w)
  then show ?case using sha_abort_ok [of "fst w" "snd w"] by (auto simp: sha_absorbed_def)
qed

text \<open>
  The same contract with the service in its invariant: the resources of others are a fixed set \<open>base\<close>,
  so what ends a computation leaves exactly these.
\<close>

definition sha_held_inv where
  "sha_held_inv live hashing base w \<longleftrightarrow> sha_inv live hashing w \<and> sha_foreign live w = base"

lemma sha_held_released:
  assumes "sha_held_inv live hashing base w" and "sha_absorbed hashing w = None"
  shows "live (snd w) = base"
  using assms by (auto simp: sha_held_inv_def sha_inv_def sha_absorbed_def sha_foreign_def sha_owned_def split: prod.splits if_splits)

text \<open>\<^verbatim>\<open>BCryptFinishHash\<close> does not fail on a live hash object.\<close>

definition hash_reliable where
  "hash_reliable api live \<longleftrightarrow> (\<forall>b h p a. Hash h p a \<in> live b \<longrightarrow>
     (\<exists>st dg b'. BCryptFinishHash api b h = Some (st, dg, b') \<and> \<not> nt_failed st))"

context bcrypt_service
begin

lemma held_hash:
  "integrity_hash (sha_begin_fn api) (sha_update_fn api) (sha_finish_fn api) (sha_abort_fn api)
     (sha_held_inv live hashing base) (sha_absorbed hashing) hash"
proof (unfold_locales, goal_cases)
  case (1 bs)
  show ?case by (rule digest_length)
next
  case (2 w)
  obtain c b where w: "w = (c, b)" by fastforce
  have "\<not> sh_active c" using 2 by (auto simp: w sha_held_inv_def sha_absorbed_def sha_inv_def split: if_splits)
  then show ?case using sha_begin_ok [of c b] 2(1) by (auto simp: w sha_held_inv_def)
next
  case (3 w bs n d)
  then show ?case using sha_update_ok [of "fst w" "snd w" n d] by (auto simp: sha_held_inv_def sha_foreign_def split: prod.splits)
next
  case (4 w bs)
  then show ?case using sha_finish_ok [of "fst w" "snd w"] by (auto simp: sha_absorbed_def sha_held_inv_def)
next
  case (5 w)
  then show ?case using sha_abort_ok [of "fst w" "snd w"] by (auto simp: sha_absorbed_def sha_held_inv_def)
qed

lemma sha_finish_succeeds:
  assumes "inv_h (c, b)" and "absorbed_h (c, b) = Some bs" and "hash_reliable api live"
  shows "\<exists>w'. sha_finish_fn api (c, b) = Some (PD_INTEGRITY_OK, hash bs, w')"
proof -
  have a: "sh_active c" "sh_hash_handle c \<noteq> 0" "Hash (sh_hash_handle c) (sh_object_buffer c) (sh_algorithm_handle c) \<in> live b"
    using assms(1,2) by (auto simp: sha_inv_def sha_absorbed_def sha_owned_def split: if_splits)
  obtain st dg c' b' where f: "sha_finish_fn api (c, b) = Some (st, dg, c', b')" "st = PD_INTEGRITY_OK \<longrightarrow> dg = hash bs"
    using sha_finish_ok [OF assms(1)] assms(2) by auto
  obtain st' dg' b1 where "BCryptFinishHash api b (sh_hash_handle c) = Some (st', dg', b1)" "\<not> nt_failed st'"
    using assms(3) a(3) unfolding hash_reliable_def by blast
  then have "st = PD_INTEGRITY_OK"
    using f(1) a(1,2) by (auto simp: sha_finish_fn_def pd_win32_sha256_finish_def split: bind_splits)
  then show ?thesis using f by auto
qed

lemma win32_fill_length: "win32_fill api b n = (ok, bytes, b') \<Longrightarrow> length bytes = n \<and> live b' = live b \<and> hashing b' = hashing b"
proof -
  assume a: "win32_fill api b n = (ok, bytes, b')"
  obtain st r b1 where g: "BCryptGenRandom api b n = (st, r, b1)" by (metis prod_cases3)
  then have r: "length r = n" "live b1 = live b" "hashing b1 = hashing b" using gen_random by blast+
  then have "put (replicate n 0) 0 r = Some r" by (simp add: put_def)
  then show ?thesis using a g r by (auto simp: win32_fill_def pd_win32_random_fill_def split: if_splits)
qed

end

sublocale bcrypt_service \<subseteq> win_random: random_source "win32_fill api"
  by unfold_locales (simp add: win32_fill_length)

section \<open>Sequences of calls\<close>

datatype sha_call = Sha_Begin | Sha_Update "u8 list" nat | Sha_Finish | Sha_Abort

fun sha_call_fn :: "'b bcrypt_api \<Rightarrow> sha_call \<Rightarrow> 'b sha_state \<Rightarrow> 'b sha_state option" where
  "sha_call_fn api Sha_Begin w = map_option snd (sha_begin_fn api w)"
| "sha_call_fn api (Sha_Update d n) w = map_option snd (sha_update_fn api w (Some d) n)"
| "sha_call_fn api Sha_Finish w = map_option (snd \<circ> snd) (sha_finish_fn api w)"
| "sha_call_fn api Sha_Abort w = sha_abort_fn api w"

fun sha_call_ok :: "sha_call \<Rightarrow> bool" where
  "sha_call_ok (Sha_Update d n) \<longleftrightarrow> n \<le> length d"
| "sha_call_ok _ \<longleftrightarrow> True"

fun sha_run :: "'b bcrypt_api \<Rightarrow> sha_call list \<Rightarrow> 'b sha_state \<Rightarrow> 'b sha_state option" where
  "sha_run api [] w = Some w"
| "sha_run api (c # cs) w = do { w \<leftarrow> sha_call_fn api c w; sha_run api cs w }"

lemma sha_run_append: "sha_run api (cs @ ds) w = do { w \<leftarrow> sha_run api cs w; sha_run api ds w }"
proof (induction cs arbitrary: w)
  case (Cons c cs)
  then show ?case by (cases "sha_call_fn api c w") simp_all
qed simp

text \<open>Feeding chunks until one is refused.\<close>

fun sha_feed :: "'b bcrypt_api \<Rightarrow> u8 list list \<Rightarrow> 'b sha_state \<Rightarrow> (pd_integrity_status \<times> 'b sha_state) option" where
  "sha_feed api [] w = Some (PD_INTEGRITY_OK, w)"
| "sha_feed api (d # ds) w = do {
     (st, w) \<leftarrow> sha_update_fn api w (Some d) (length d);
     if st \<noteq> PD_INTEGRITY_OK then Some (st, w) else sha_feed api ds w }"

context bcrypt_service
begin

lemma sha_call_kept:
  assumes "inv_h w" and "sha_call_ok k"
  shows "\<exists>w'. sha_call_fn api k w = Some w' \<and> inv_h w' \<and> sha_foreign live w' = sha_foreign live w \<and>
    (k = Sha_Finish \<or> k = Sha_Abort \<longrightarrow> \<not> sh_active (fst w'))"
proof -
  obtain c b where w: "w = (c, b)" by fastforce
  show ?thesis
  proof (cases k)
    case Sha_Begin
    then show ?thesis using sha_begin_ok [of c b] assms(1) by (auto simp: w)
  next
    case (Sha_Update d n)
    then show ?thesis using sha_update_ok [of c b n d] assms by (auto simp: w sha_foreign_def)
  next
    case Sha_Finish
    then show ?thesis using sha_finish_ok [of c b] assms(1) by (auto simp: w)
  next
    case Sha_Abort
    then show ?thesis using sha_abort_ok [of c b] assms(1) by (auto simp: w)
  qed
qed

lemma sha_run_kept:
  assumes "inv_h w" and "\<forall>k \<in> set ks. sha_call_ok k"
  shows "\<exists>w'. sha_run api ks w = Some w' \<and> inv_h w' \<and> sha_foreign live w' = sha_foreign live w"
  using assms
proof (induction ks arbitrary: w)
  case (Cons k ks)
  obtain w1 where c: "sha_call_fn api k w = Some w1" "inv_h w1" "sha_foreign live w1 = sha_foreign live w"
    using sha_call_kept [of w k] Cons.prems by auto
  show ?case using Cons.IH [OF c(2)] Cons.prems(2) c(1,3) by simp
qed simp

lemma sha_feed_absorbs:
  assumes "inv_h w" and "absorbed_h w = Some bs" and "sha_feed api ds w = Some (PD_INTEGRITY_OK, w')"
  shows "inv_h w' \<and> absorbed_h w' = Some (bs @ concat ds)"
  using assms
proof (induction ds arbitrary: w bs)
  case (Cons d ds)
  obtain c b where w: "w = (c, b)" by fastforce
  obtain st b' where u: "sha_update_fn api (c, b) (Some d) (length d) = Some (st, c, b')" "inv_h (c, b')"
    "st = PD_INTEGRITY_OK \<longrightarrow> (\<exists>bs. absorbed_h (c, b) = Some bs \<and> absorbed_h (c, b') = Some (bs @ take (length d) d))"
    using sha_update_ok [of c b "length d" d] Cons.prems(1) by (auto simp: w)
  then have "st = PD_INTEGRITY_OK" using Cons.prems(3) by (auto simp: w split: if_splits)
  then show ?case using u Cons.IH [OF u(2), of "bs @ d"] Cons.prems by (simp add: w)
qed simp

end

section \<open>A service in memory\<close>

text \<open>A service with one slot of each kind, on which the laws hold and the witnesses run.\<close>

record mem_bc =
  mb_provider :: bool
  mb_buffer :: bool
  mb_hash :: "u8 list option"
  mb_seed :: u8

definition mb_busy :: "mem_bc \<Rightarrow> bool" where
  "mb_busy b \<longleftrightarrow> mb_hash b \<noteq> None \<and> mb_provider b \<and> mb_buffer b"

definition mb_live :: "mem_bc \<Rightarrow> bc_resource set" where
  "mb_live b = (if mb_provider b then {Provider 1} else {}) \<union> (if mb_buffer b then {Buffer 1} else {}) \<union>
     (if mb_busy b then {Hash 1 1 1} else {})"

definition mb_hashing :: "mem_bc \<Rightarrow> bc_handle \<Rightarrow> u8 list option" where
  "mb_hashing b h = (if h = 1 then mb_hash b else None)"

definition mem_bcrypt :: "mem_bc bcrypt_api" where
  "mem_bcrypt = \<lparr>
     BCryptOpenAlgorithmProvider = \<lambda>b. if mb_provider b \<or> mb_hash b \<noteq> None then (- 1, 0, b) else (0, 1, b\<lparr>mb_provider := True\<rparr>),
     BCryptGetProperty = \<lambda>b a. Some (0, 64, 4, b),
     BCryptCreateHash = \<lambda>b a p n. if mb_hash b \<noteq> None \<or> a \<noteq> 1 \<or> p \<noteq> 1 then Some (- 1, 0, b) else Some (0, 1, b\<lparr>mb_hash := Some []\<rparr>),
     BCryptHashData = \<lambda>b h d. if h = 1 then map_option (\<lambda>bs. (0, b\<lparr>mb_hash := Some (bs @ d)\<rparr>)) (mb_hash b) else None,
     BCryptFinishHash = \<lambda>b h. if h = 1 then map_option (\<lambda>bs. (0, checksum bs, b)) (mb_hash b) else None,
     BCryptDestroyHash = \<lambda>b h. if h = 1 \<and> mb_busy b then Some (b\<lparr>mb_hash := None\<rparr>) else None,
     BCryptCloseAlgorithmProvider = \<lambda>b a. if a = 1 \<and> mb_provider b \<and> \<not> mb_busy b then Some (b\<lparr>mb_provider := False\<rparr>) else None,
     BCryptGenRandom = \<lambda>b n. (0, replicate n (mb_seed b), b\<lparr>mb_seed := mb_seed b + 1\<rparr>),
     HeapAlloc = \<lambda>b n. if mb_buffer b \<or> mb_hash b \<noteq> None then (0, b) else (1, b\<lparr>mb_buffer := True\<rparr>),
     HeapFree = \<lambda>b p. if p = 1 \<and> mb_buffer b \<and> \<not> mb_busy b then Some (b\<lparr>mb_buffer := False\<rparr>) else None\<rparr>"

lemma nt_failed_0 [simp]: "\<not> nt_failed 0" "nt_failed (- 1)"
  by (simp_all add: nt_failed_def)

lemmas mem_bc_laws = mem_bcrypt_def mb_live_def mb_hashing_def mb_busy_def checksum_def fun_eq_iff

interpretation mem_crypto: bcrypt_service mem_bcrypt mb_live mb_hashing checksum
proof (unfold_locales, goal_cases)
  case (8 h p a b bs d)
  then show ?case by (intro exI [of _ 0] exI [of _ "b\<lparr>mb_hash := Some (bs @ d)\<rparr>"]) (auto simp: mem_bc_laws split: if_splits)
next
  case (9 h p a b bs)
  then show ?case by (intro exI [of _ 0] exI [of _ "checksum bs"] exI [of _ b]) (auto simp: mem_bc_laws split: if_splits)
qed (auto simp: mem_bc_laws split: if_splits)

section \<open>The correctness of the backends\<close>

definition idle_bc :: mem_bc where
  "idle_bc = \<lparr>mb_provider = False, mb_buffer = False, mb_hash = None, mb_seed = 7\<rparr>"

text \<open>C32: From an initialised context every sequence of callbacks, in any order, calls the service only on
  live handles, and once it ends with a finish or an abort, whatever failed in between, exactly the
  resources that were live before it are live again: the hash object, its buffer and its provider are
  released once each and in the order the service requires.\<close>

theorem win32_sha256_releases:
  assumes "bcrypt_service api live hashing hash" and "pd_win32_sha256_init (Some c0) = Some c"
    and "\<forall>k \<in> set calls. sha_call_ok k" and "final = Sha_Finish \<or> final = Sha_Abort"
  shows "\<exists>c' b'. sha_run api (calls @ [final]) (c, b) = Some (c', b') \<and> live b' = live b \<and> \<not> sh_active c' \<and>
    sh_hash_handle c' = 0 \<and> sh_object_buffer c' = 0 \<and> sh_algorithm_handle c' = 0"
proof -
  have c: "c = zero_sha256" using assms(2) by (simp add: pd_win32_sha256_init_def)
  have inv: "sha_inv live hashing (c, b)" by (simp add: c sha_inv_def zero_sha256_def)
  obtain w1 where r: "sha_run api calls (c, b) = Some w1" "sha_inv live hashing w1" "sha_foreign live w1 = sha_foreign live (c, b)"
    using bcrypt_service.sha_run_kept [OF assms(1) inv assms(3)] by blast
  have "sha_call_ok final" using assms(4) by auto
  then obtain w2 where f: "sha_call_fn api final w1 = Some w2" "sha_inv live hashing w2"
      "sha_foreign live w2 = sha_foreign live w1" "\<not> sh_active (fst w2)"
    using bcrypt_service.sha_call_kept [OF assms(1) r(2), of final] assms(4) by blast
  then show ?thesis
    using r(1,3) by (cases w2) (auto simp: sha_run_append sha_foreign_def sha_owned_def sha_inv_def c zero_sha256_def)
qed

theorem win32_sha256_releases_witness:
  "\<exists>c' b'. sha_run mem_bcrypt ([Sha_Begin, Sha_Update [1, 2] 2, Sha_Begin] @ [Sha_Abort]) (zero_sha256, idle_bc) = Some (c', b') \<and>
    mb_live b' = mb_live idle_bc \<and> \<not> sh_active c' \<and>
    sh_hash_handle c' = 0 \<and> sh_object_buffer c' = 0 \<and> sh_algorithm_handle c' = 0"
  by (rule win32_sha256_releases [OF mem_crypto.bcrypt_service_axioms, of zero_sha256]) (simp_all add: pd_win32_sha256_init_def)

text \<open>C33: A computation that is begun, fed any chunks and finished without an error yields the SHA-256
  digest of the concatenation of exactly those chunks.\<close>

theorem win32_sha256_digest:
  assumes "bcrypt_service api live hashing hash" and "sha_inv live hashing (c, b)"
    and "sha_begin_fn api (c, b) = Some (PD_INTEGRITY_OK, w1)"
    and "sha_feed api chunks w1 = Some (PD_INTEGRITY_OK, w2)"
    and "sha_finish_fn api w2 = Some (PD_INTEGRITY_OK, digest, w3)"
  shows "digest = hash (concat chunks) \<and> length digest = PD_SHA256_BYTES"
proof -
  have "sha_inv live hashing w1 \<and> sha_absorbed hashing w1 = Some []"
    using bcrypt_service.sha_begin_ok [OF assms(1,2)] assms(3) by (cases "sh_active c") auto
  then have "sha_inv live hashing w2 \<and> sha_absorbed hashing w2 = Some (concat chunks)"
    using bcrypt_service.sha_feed_absorbs [OF assms(1), of w1 "[]" chunks w2] assms(4) by simp
  then have "digest = hash (concat chunks)"
    using bcrypt_service.sha_finish_ok [OF assms(1), of "fst w2" "snd w2"] assms(5) by auto
  then show ?thesis using bcrypt_service.digest_length [OF assms(1)] by simp
qed

lemmas sha_sample_defs = sha_begin_fn_def sha_update_fn_def sha_finish_fn_def pd_win32_sha256_begin_def pd_win32_sha256_update_def
  pd_win32_sha256_finish_def pd_win32_sha256_cleanup_def mem_bcrypt_def zero_sha256_def idle_bc_def mb_busy_def mem_slice_def
  put_def checksum_def ULONG_MAX_def

theorem win32_sha256_digest_witness:
  "\<exists>w1 w2 w3 digest. sha_begin_fn mem_bcrypt (zero_sha256, idle_bc) = Some (PD_INTEGRITY_OK, w1) \<and>
    sha_feed mem_bcrypt [[1], [2, 3]] w1 = Some (PD_INTEGRITY_OK, w2) \<and>
    sha_finish_fn mem_bcrypt w2 = Some (PD_INTEGRITY_OK, digest, w3) \<and>
    digest = checksum (concat [[1], [2, 3]]) \<and> length digest = PD_SHA256_BYTES"
proof -
  let ?w1 = "(\<lparr>sh_algorithm_handle = 1, sh_hash_handle = 1, sh_object_buffer = 1, sh_object_length = 64, sh_active = True\<rparr>,
    \<lparr>mb_provider = True, mb_buffer = True, mb_hash = Some [], mb_seed = 7\<rparr>)"
  let ?w2 = "(fst ?w1, snd ?w1\<lparr>mb_hash := Some [1, 2, 3]\<rparr>)"
  have i: "sha_inv mb_live mb_hashing (zero_sha256, idle_bc)" by (simp add: sha_inv_def zero_sha256_def)
  have b: "sha_begin_fn mem_bcrypt (zero_sha256, idle_bc) = Some (PD_INTEGRITY_OK, ?w1)" by (simp add: sha_sample_defs)
  have f: "sha_feed mem_bcrypt [[1], [2, 3]] ?w1 = Some (PD_INTEGRITY_OK, ?w2)" by (simp add: sha_sample_defs)
  have e: "sha_finish_fn mem_bcrypt ?w2 = Some (PD_INTEGRITY_OK, replicate 32 6, zero_sha256, idle_bc)" by (simp add: sha_sample_defs)
  from win32_sha256_digest [OF mem_crypto.bcrypt_service_axioms i b f e] b f e show ?thesis by blast
qed

end
