(* ===== verification/PD_Messages.thy ===== *)
theory PD_Messages
  imports PD_Frame PD_Integrity PD_Filename
begin

unbundle bit_operations_syntax

text \<open>
  The payload codecs of the protocol: the FILE_BEGIN metadata (\<^verbatim>\<open>file_begin.c\<close>), the
  acknowledgement (\<^verbatim>\<open>ack.c\<close>) and the relay message that puts a frame header and its payload into
  one WebSocket message (\<^verbatim>\<open>relay_message.c\<close>). For each the byte layout is stated once and the
  decoder is shown to accept exactly the encodings of well-formed values.
\<close>

section \<open>file_begin.c\<close>

definition PD_FILE_BEGIN_FIXED_SIZE :: nat where "PD_FILE_BEGIN_FIXED_SIZE = 42"

lemma PD_FILE_BEGIN_FIXED_SIZE_42 [simp]: "PD_FILE_BEGIN_FIXED_SIZE = 42"
  by (simp add: PD_FILE_BEGIN_FIXED_SIZE_def)

datatype pd_file_begin_result =
    PD_FILE_BEGIN_OK
  | PD_FILE_BEGIN_INVALID_ARGUMENT
  | PD_FILE_BEGIN_INVALID_FILENAME
  | PD_FILE_BEGIN_BUFFER_TOO_SMALL
  | PD_FILE_BEGIN_MALFORMED

record pd_file_begin =
  fb_file_size :: u64
  fb_sha256 :: "u8 list"
  fb_filename :: "u8 list"

text \<open>The arrays of the struct have their declared sizes.\<close>

definition file_begin_shape :: "pd_file_begin \<Rightarrow> bool" where
  "file_begin_shape md \<longleftrightarrow> length (fb_sha256 md) = PD_SHA256_BYTES \<and> length (fb_filename md) = PD_FILENAME_CAPACITY"

definition pd_file_begin_zero :: pd_file_begin where
  "pd_file_begin_zero = \<lparr>fb_file_size = 0, fb_sha256 = replicate PD_SHA256_BYTES 0,
     fb_filename = replicate PD_FILENAME_CAPACITY 0\<rparr>"

definition pd_file_begin_encode ::
  "pd_file_begin option \<Rightarrow> u8 list option \<Rightarrow> nat \<Rightarrow> nat option \<Rightarrow>
     (pd_file_begin_result \<times> u8 list option \<times> nat option) option" where
  "pd_file_begin_encode metadata output output_capacity bytes_written =
     (let written0 = map_option (\<lambda>_. 0) bytes_written in
      case (metadata, output) of
        (Some md, Some out) \<Rightarrow> do {
          filename_length \<leftarrow> strlen (fb_filename md);
          if filename_length = 0 \<or> PD_FILENAME_MAX_BYTES < filename_length
          then Some (PD_FILE_BEGIN_INVALID_FILENAME, output, written0)
          else let required = PD_FILE_BEGIN_FIXED_SIZE + filename_length in
          if output_capacity < required then Some (PD_FILE_BEGIN_BUFFER_TOO_SMALL, output, written0)
          else do {
            m \<leftarrow> pd_write_u64_be out 0 (fb_file_size md);
            m \<leftarrow> memcpy m 8 (fb_sha256 md) 0 PD_SHA256_BYTES;
            m \<leftarrow> pd_write_u16_be m 40 (word_of_nat filename_length);
            m \<leftarrow> memcpy m PD_FILE_BEGIN_FIXED_SIZE (fb_filename md) 0 filename_length;
            Some (PD_FILE_BEGIN_OK, Some m, map_option (\<lambda>_. required) bytes_written) } }
      | _ \<Rightarrow> Some (PD_FILE_BEGIN_INVALID_ARGUMENT, output, written0))"

definition pd_file_begin_decode ::
  "u8 list option \<Rightarrow> nat \<Rightarrow> pd_file_begin option \<Rightarrow> (pd_file_begin_result \<times> pd_file_begin option) option" where
  "pd_file_begin_decode payload payload_size metadata =
     (case (payload, metadata) of
        (Some p, Some _) \<Rightarrow>
          if payload_size < PD_FILE_BEGIN_FIXED_SIZE then Some (PD_FILE_BEGIN_MALFORMED, metadata)
          else do {
            filename_length_u16 \<leftarrow> pd_read_u16_be p 40;
            let filename_length = unat filename_length_u16 in
            if filename_length = 0 \<or> PD_FILENAME_MAX_BYTES < filename_length \<or>
               payload_size \<noteq> PD_FILE_BEGIN_FIXED_SIZE + filename_length
            then Some (PD_FILE_BEGIN_MALFORMED, metadata)
            else do {
              name \<leftarrow> mem_slice p PD_FILE_BEGIN_FIXED_SIZE filename_length;
              if 0 \<in> set name then Some (PD_FILE_BEGIN_MALFORMED, metadata)
              else do {
                file_size \<leftarrow> pd_read_u64_be p 0;
                sha \<leftarrow> memcpy (fb_sha256 pd_file_begin_zero) 0 p 8 PD_SHA256_BYTES;
                fname \<leftarrow> memcpy (fb_filename pd_file_begin_zero) 0 p PD_FILE_BEGIN_FIXED_SIZE filename_length;
                fname \<leftarrow> wr fname filename_length 0;
                Some (PD_FILE_BEGIN_OK,
                      Some \<lparr>fb_file_size = file_size, fb_sha256 = sha, fb_filename = fname\<rparr>) } } }
      | _ \<Rightarrow> Some (PD_FILE_BEGIN_INVALID_ARGUMENT, metadata))"

subsection \<open>The layout\<close>

definition file_begin_wire :: "u64 \<Rightarrow> u8 list \<Rightarrow> u8 list \<Rightarrow> u8 list" where
  "file_begin_wire fsize sha name = be64 fsize @ sha @ be16 (word_of_nat (length name)) @ name"

text \<open>The struct that holds a size, a digest and a name: the name array is padded with zeros.\<close>

definition file_begin_of :: "u64 \<Rightarrow> u8 list \<Rightarrow> u8 list \<Rightarrow> pd_file_begin" where
  "file_begin_of fsize sha name =
     \<lparr>fb_file_size = fsize, fb_sha256 = sha, fb_filename = name @ replicate (121 - length name) 0\<rparr>"

definition wire_name :: "u8 list \<Rightarrow> bool" where
  "wire_name name \<longleftrightarrow> name \<noteq> [] \<and> length name \<le> 120 \<and> 0 \<notin> set name"

lemma length_file_begin_wire [simp]:
  "length sha = 32 \<Longrightarrow> length (file_begin_wire fsize sha name) = 42 + length name"
  by (simp add: file_begin_wire_def)

lemma pd_file_begin_encode_eq:
  assumes "0 \<in> set (fb_filename md)" and "length (fb_sha256 md) = 32" and "cap \<le> length out"
  shows "pd_file_begin_encode (Some md) (Some out) cap bw = Some
    (let name = c_str (fb_filename md) in
     if \<not> wire_name name then (PD_FILE_BEGIN_INVALID_FILENAME, Some out, map_option (\<lambda>_. 0) bw)
     else if cap < 42 + length name then (PD_FILE_BEGIN_BUFFER_TOO_SMALL, Some out, map_option (\<lambda>_. 0) bw)
     else (PD_FILE_BEGIN_OK,
           Some (file_begin_wire (fb_file_size md) (fb_sha256 md) name @ drop (42 + length name) out),
           map_option (\<lambda>_. 42 + length name) bw))"
proof -
  define name where "name = c_str (fb_filename md)"
  have slice: "mem_slice (fb_sha256 md) 0 32 = Some (fb_sha256 md)"
      "mem_slice (fb_filename md) 0 (length name) = Some name"
    using assms(1,2) length_c_str_less [OF assms(1)] by (simp_all add: mem_slice_def name_def)
  have "strlen (fb_filename md) = Some (length name)"
    using assms(1) by (simp add: strlen_def name_def)
  moreover have "wire_name name \<longleftrightarrow> name \<noteq> [] \<and> length name \<le> 120"
    by (simp add: wire_name_def name_def)
  ultimately show ?thesis
    using assms(2,3)
    by (auto simp: pd_file_begin_encode_def memcpy_def slice name_def [symmetric] mem_simps Let_def
        file_begin_wire_def) (simp add: put_0)
qed

text \<open>
  The decoder accepts exactly the layouts of a name of 1 to 120 bytes without NUL, of exactly
  the stated size, and is defined on every buffer that holds the payload.
\<close>

lemma take_segments: "a \<le> b \<Longrightarrow> take b xs = take a xs @ take (b - a) (drop a xs)"
  by (metis le_add_diff_inverse take_add)

lemma file_begin_segments:
  assumes "42 \<le> psize" and "psize \<le> length p"
  obtains v f sha name where
    "pd_read_u64_be p 0 = Some v" "pd_read_u16_be p 40 = Some f"
    "mem_slice p 8 32 = Some sha" "length sha = 32"
    "mem_slice p 42 (psize - 42) = Some name" "length name = psize - 42"
    "take psize p = be64 v @ sha @ be16 f @ name"
proof -
  obtain v f where v: "pd_read_u64_be p 0 = Some v" and f: "pd_read_u16_be p 40 = Some f"
    using assms pd_read_defined(3) [of 0 p] pd_read_defined(1) [of 40 p] by auto
  have "take 8 p = be64 v" "take 2 (drop 40 p) = be16 f"
    using be64_of_read [OF v] be16_of_read [OF f] assms by (simp_all add: mem_slice_def)
  moreover have "take psize p = take 8 p @ take 32 (drop 8 p) @ take 2 (drop 40 p) @ take (psize - 42) (drop 42 p)"
    using assms take_segments [of 42 psize p] take_segments [of 40 42 p] take_segments [of 8 40 p] by simp
  ultimately show ?thesis
    using assms by (intro that [OF v f]) (simp_all add: mem_slice_def)
qed

lemma unat_u16_small: "n < 65536 \<Longrightarrow> unat (word_of_nat n :: u16) = n"
  by (simp add: unat_of_nat)

lemma pd_file_begin_decode_ok_iff:
  assumes "psize \<le> length p"
  shows "pd_file_begin_decode (Some p) psize (Some md0) = Some (PD_FILE_BEGIN_OK, Some md) \<longleftrightarrow>
    (\<exists>fsize sha name. length sha = 32 \<and> wire_name name \<and> psize = 42 + length name \<and>
       take psize p = file_begin_wire fsize sha name \<and> md = file_begin_of fsize sha name)"
    (is "?dec \<longleftrightarrow> ?spec")
proof (cases "psize < 42")
  case True
  then show ?thesis by (auto simp: pd_file_begin_decode_def)
next
  case False
  then have "42 \<le> psize" by simp
  then obtain v f sha name where seg:
    "pd_read_u64_be p 0 = Some v" "pd_read_u16_be p 40 = Some f"
    "mem_slice p 8 32 = Some sha" "length sha = 32"
    "mem_slice p 42 (psize - 42) = Some name" "length name = psize - 42"
    "take psize p = be64 v @ sha @ be16 f @ name"
    using assms file_begin_segments by metis
  have put: "put (replicate 32 0) 0 sha = Some sha" using seg(4) by (simp add: put_def)
  have fill: "put (replicate 121 0) 0 (name @ [0]) = Some (name @ replicate (121 - length name) 0)"
    if "length name \<le> 120"
    using that by (simp add: put_def replicate_Suc [symmetric] Suc_diff_le del: replicate_Suc)
  have "?dec \<longleftrightarrow> wire_name name \<and> unat f = length name \<and> md = file_begin_of v sha name"
    using False seg(1-6) put fill
    by (auto simp: pd_file_begin_decode_def Let_def pd_file_begin_zero_def memcpy_def wire_name_def
        file_begin_of_def mem_simps split: if_splits)
  moreover have "?spec \<longleftrightarrow> wire_name name \<and> unat f = length name \<and> md = file_begin_of v sha name"
  proof
    assume ?spec
    then obtain fsize sha' name' where *: "length sha' = 32" "wire_name name'" "psize = 42 + length name'"
      "be64 v @ sha @ be16 f @ name = be64 fsize @ sha' @ be16 (word_of_nat (length name')) @ name'"
      "md = file_begin_of fsize sha' name'"
      by (auto simp: seg(7) file_begin_wire_def)
    then have "v = fsize \<and> sha = sha' \<and> f = word_of_nat (length name') \<and> name = name'"
      by (simp add: seg(4) be64_inject be16_inject)
    with * show "wire_name name \<and> unat f = length name \<and> md = file_begin_of v sha name"
      by (simp add: wire_name_def unat_u16_small)
  next
    assume *: "wire_name name \<and> unat f = length name \<and> md = file_begin_of v sha name"
    then have "take psize p = file_begin_wire v sha name"
      by (simp add: seg(7) file_begin_wire_def) (metis of_nat_unat ucast_id)
    with * show ?spec
      using seg(4,6) False by (intro exI [of _ v] exI [of _ sha] exI [of _ name]) simp
  qed
  ultimately show ?thesis by simp
qed

subsection \<open>Properties\<close>

lemma replicate_121: "n \<le> 120 \<Longrightarrow> replicate (121 - n) 0 = 0 # replicate (120 - n) 0"
  by (simp add: replicate_Suc [symmetric] Suc_diff_le [symmetric] del: replicate_Suc)

lemma c_str_file_begin_of [simp]: "wire_name name \<Longrightarrow> c_str (fb_filename (file_begin_of fsize sha name)) = name"
  by (simp add: wire_name_def file_begin_of_def replicate_121)

lemma file_begin_of_sel [simp]:
  "fb_file_size (file_begin_of fsize sha name) = fsize" "fb_sha256 (file_begin_of fsize sha name) = sha"
  by (simp_all add: file_begin_of_def)

lemma file_begin_of_shape: "wire_name name \<Longrightarrow> length sha = 32 \<Longrightarrow> file_begin_shape (file_begin_of fsize sha name)"
  by (simp add: file_begin_shape_def file_begin_of_def wire_name_def)

lemma file_begin_of_nul: "wire_name name \<Longrightarrow> 0 \<in> set (fb_filename (file_begin_of fsize sha name))"
  by (simp add: file_begin_of_def wire_name_def)

lemma pd_file_begin_decode_defined:
  assumes "psize \<le> length p"
  shows "\<exists>r md. pd_file_begin_decode (Some p) psize (Some md0) = Some (r, Some md) \<and> (r \<noteq> PD_FILE_BEGIN_OK \<longrightarrow> md = md0)"
proof (cases "psize < 42")
  case True
  then show ?thesis by (simp add: pd_file_begin_decode_def)
next
  case False
  then have "42 \<le> psize" by simp
  then obtain v f sha name where seg:
    "pd_read_u64_be p 0 = Some v" "pd_read_u16_be p 40 = Some f"
    "mem_slice p 8 32 = Some sha" "length sha = 32"
    "mem_slice p 42 (psize - 42) = Some name" "length name = psize - 42"
    using assms file_begin_segments by metis
  then show ?thesis
    using False by (auto simp: pd_file_begin_decode_def Let_def pd_file_begin_zero_def memcpy_def mem_simps put_def)
qed

section \<open>ack.c\<close>

definition PD_ACK_PAYLOAD_SIZE :: nat where "PD_ACK_PAYLOAD_SIZE = 12"

lemma PD_ACK_PAYLOAD_SIZE_12 [simp]: "PD_ACK_PAYLOAD_SIZE = 12"
  by (simp add: PD_ACK_PAYLOAD_SIZE_def)

type_synonym pd_ack_status = u32

definition PD_ACK_OK :: pd_ack_status where "PD_ACK_OK = 0"
definition PD_ACK_PROTOCOL_ERROR :: pd_ack_status where "PD_ACK_PROTOCOL_ERROR = 1"
definition PD_ACK_STORAGE_ERROR :: pd_ack_status where "PD_ACK_STORAGE_ERROR = 2"
definition PD_ACK_INTEGRITY_ERROR :: pd_ack_status where "PD_ACK_INTEGRITY_ERROR = 3"
definition PD_ACK_REJECTED :: pd_ack_status where "PD_ACK_REJECTED = 4"

lemmas PD_ACK_status_defs = PD_ACK_OK_def PD_ACK_PROTOCOL_ERROR_def PD_ACK_STORAGE_ERROR_def
  PD_ACK_INTEGRITY_ERROR_def PD_ACK_REJECTED_def

datatype pd_ack_result =
    PD_ACK_RESULT_OK
  | PD_ACK_INVALID_ARGUMENT
  | PD_ACK_INVALID_TYPE
  | PD_ACK_INVALID_STATUS
  | PD_ACK_MALFORMED

record pd_ack =
  ack_acknowledged_type :: pd_message_type
  ack_status :: pd_ack_status
  ack_received_bytes :: u64

definition pd_ack_type_is_allowed :: "pd_message_type \<Rightarrow> bool" where
  "pd_ack_type_is_allowed type \<longleftrightarrow> type = PD_MSG_FILE_BEGIN \<or> type = PD_MSG_CHUNK \<or> type = PD_MSG_FILE_END"

definition pd_ack_status_is_valid :: "u8 \<Rightarrow> bool" where
  "pd_ack_status_is_valid status \<longleftrightarrow> status \<le> ucast PD_ACK_REJECTED"

definition pd_ack_encode :: "pd_ack option \<Rightarrow> u8 list option \<Rightarrow> (pd_ack_result \<times> u8 list option) option" where
  "pd_ack_encode ack output =
     (case (ack, output) of
        (Some a, Some out) \<Rightarrow>
          if \<not> pd_ack_type_is_allowed (ack_acknowledged_type a) then Some (PD_ACK_INVALID_TYPE, output)
          else if \<not> pd_ack_status_is_valid (ucast (ack_status a)) then Some (PD_ACK_INVALID_STATUS, output)
          else do {
            m \<leftarrow> wr out 0 (ucast (ack_acknowledged_type a));
            m \<leftarrow> wr m 1 (ucast (ack_status a));
            m \<leftarrow> wr m 2 0;
            m \<leftarrow> wr m 3 0;
            m \<leftarrow> pd_write_u64_be m 4 (ack_received_bytes a);
            Some (PD_ACK_RESULT_OK, Some m) }
      | _ \<Rightarrow> Some (PD_ACK_INVALID_ARGUMENT, output))"

definition pd_ack_decode :: "u8 list option \<Rightarrow> nat \<Rightarrow> pd_ack option \<Rightarrow> (pd_ack_result \<times> pd_ack option) option" where
  "pd_ack_decode input input_size ack =
     (case (input, ack) of
        (Some inp, Some _) \<Rightarrow> do {
          malformed \<leftarrow> c_or (Some (input_size \<noteq> PD_ACK_PAYLOAD_SIZE)) (c_or (rd_ne inp 2 0) (rd_ne inp 3 0));
          if malformed then Some (PD_ACK_MALFORMED, ack) else do {
          b0 \<leftarrow> rd inp 0;
          status \<leftarrow> rd inp 1;
          let type = ucast b0 in
          if \<not> pd_ack_type_is_allowed type then Some (PD_ACK_INVALID_TYPE, ack)
          else if \<not> pd_ack_status_is_valid status then Some (PD_ACK_INVALID_STATUS, ack)
          else do {
            received \<leftarrow> pd_read_u64_be inp 4;
            Some (PD_ACK_RESULT_OK, Some \<lparr>ack_acknowledged_type = type, ack_status = ucast status,
                                          ack_received_bytes = received\<rparr>) } } }
      | _ \<Rightarrow> Some (PD_ACK_INVALID_ARGUMENT, ack))"

definition ack_valid :: "pd_ack \<Rightarrow> bool" where
  "ack_valid a \<longleftrightarrow> ack_acknowledged_type a \<in> {3, 4, 5} \<and> ack_status a \<le> 4"

lemma ack_valid_iff: "ack_valid a \<longleftrightarrow> pd_ack_type_is_allowed (ack_acknowledged_type a) \<and> ack_status a \<le> PD_ACK_REJECTED"
  by (simp add: ack_valid_def pd_ack_type_is_allowed_def PD_MSG_defs PD_ACK_status_defs)

definition ack_wire :: "pd_ack \<Rightarrow> u8 list" where
  "ack_wire a = [ucast (ack_acknowledged_type a), ucast (ack_status a), 0, 0] @ be64 (ack_received_bytes a)"

lemma length_ack_wire [simp]: "length (ack_wire a) = 12"
  by (simp add: ack_wire_def)

lemma ack_valid_status: "ack_valid a \<Longrightarrow> pd_ack_status_is_valid (ucast (ack_status a))"
  by (auto simp: ack_valid_iff pd_ack_status_is_valid_def PD_ACK_status_defs word_le_nat_alt ucast_small)

lemma pd_ack_encode_wire:
  assumes "ack_valid a" and "12 \<le> length out"
  shows "pd_ack_encode (Some a) (Some out) = Some (PD_ACK_RESULT_OK, Some (ack_wire a @ drop 12 out))"
  using assms ack_valid_status [OF assms(1)]
  by (simp add: pd_ack_encode_def ack_valid_iff mem_simps ack_wire_def) (simp add: put_0)

lemma valid_byte_status:
  "pd_ack_status_is_valid b \<and> s = ucast b \<longleftrightarrow> b = ucast (s :: u32) \<and> s \<le> PD_ACK_REJECTED" for b :: u8
proof -
  have "ucast (ucast b :: u32) = b"
    by (rule bit_word_eqI) (simp add: bit_simps)
  moreover have "unat (ucast b :: u32) = unat b"
    using unsigned_less [of b, where ?'a = nat] by (simp add: unsigned_ucast_eq take_bit_nat_eq_self)
  ultimately show ?thesis
    using ucast_small [of s]
    by (auto simp: pd_ack_status_is_valid_def PD_ACK_status_defs word_le_nat_alt)
qed

lemma allowed_byte_type:
  "pd_ack_type_is_allowed (ucast b) \<and> t = ucast b \<longleftrightarrow> b = ucast (t :: u32) \<and> pd_ack_type_is_allowed t" for b :: u8
proof -
  have "ucast (ucast b :: u32) = b"
    by (rule bit_word_eqI) (simp add: bit_simps)
  then show ?thesis
    by (auto simp: pd_ack_type_is_allowed_def PD_MSG_defs)
qed

lemma pd_ack_decode_ok_iff:
  assumes "12 \<le> length inp"
  shows "pd_ack_decode (Some inp) n (Some a0) = Some (PD_ACK_RESULT_OK, Some a) \<longleftrightarrow>
    n = 12 \<and> ack_valid a \<and> take 12 inp = ack_wire a"
proof -
  obtain b0 b1 b2 b3 b4 b5 b6 b7 b8 b9 b10 b11 rest
    where inp: "inp = b0 # b1 # b2 # b3 # b4 # b5 # b6 # b7 # b8 # b9 # b10 # b11 # rest"
    using assms by (rule length_ge_12)
  obtain t s r where a: "a = \<lparr>ack_acknowledged_type = t, ack_status = s, ack_received_bytes = r\<rparr>"
    by (cases a)
  obtain R where R: "pd_read_u64_be inp 4 = Some R"
    using assms pd_read_defined(3) [of 4 inp] by auto
  have "[b4, b5, b6, b7, b8, b9, b10, b11] = be64 R"
    using be64_of_read [OF R] by (simp add: mem_slice_def inp)
  then have wire: "take 12 inp = ack_wire a \<longleftrightarrow> b0 = ucast t \<and> b1 = ucast s \<and> b2 = 0 \<and> b3 = 0 \<and> r = R"
    by (simp add: inp ack_wire_def a be64_inject) blast
  have rds: "rd_ne inp 2 0 = Some (b2 \<noteq> 0)" "rd_ne inp 3 0 = Some (b3 \<noteq> 0)" "rd inp 0 = Some b0" "rd inp (Suc 0) = Some b1"
    by (simp_all add: inp rd_ne_def rd_def)
  have dec: "pd_ack_decode (Some inp) n (Some a0) = Some (PD_ACK_RESULT_OK, Some a) \<longleftrightarrow>
      n = 12 \<and> b2 = 0 \<and> b3 = 0 \<and> (pd_ack_type_is_allowed (ucast b0) \<and> t = ucast b0) \<and>
      (pd_ack_status_is_valid b1 \<and> s = ucast b1) \<and> r = R"
    unfolding a by (auto simp: pd_ack_decode_def rds R Let_def split: if_splits)
  show ?thesis
    unfolding wire dec valid_byte_status allowed_byte_type by (auto simp: ack_valid_iff a)
qed

section \<open>relay_message.c\<close>

definition PD_RELAY_WS_MESSAGE_MAX_SIZE :: nat where "PD_RELAY_WS_MESSAGE_MAX_SIZE = 60 * 1024"
definition PD_RELAY_MAX_PAYLOAD :: nat where
  "PD_RELAY_MAX_PAYLOAD = PD_RELAY_WS_MESSAGE_MAX_SIZE - PD_FRAME_HEADER_SIZE"

lemma PD_RELAY_sizes [simp]: "PD_RELAY_WS_MESSAGE_MAX_SIZE = 61440" "PD_RELAY_MAX_PAYLOAD = 61428"
  by (simp_all add: PD_RELAY_WS_MESSAGE_MAX_SIZE_def PD_RELAY_MAX_PAYLOAD_def)

datatype pd_relay_message_result =
    PD_RELAY_MESSAGE_OK
  | PD_RELAY_MESSAGE_INVALID_ARGUMENT
  | PD_RELAY_MESSAGE_PAYLOAD_TOO_LARGE
  | PD_RELAY_MESSAGE_BUFFER_TOO_SMALL
  | PD_RELAY_MESSAGE_MALFORMED

record pd_relay_message_view =
  rv_header :: pd_frame_header
  rv_payload :: "u8 list option"
  rv_payload_size :: nat

definition pd_frame_header_zero :: pd_frame_header where
  "pd_frame_header_zero = \<lparr>fh_type = 0, fh_flags = 0, fh_payload_length = 0\<rparr>"

definition pd_relay_message_encode ::
  "pd_frame_header option \<Rightarrow> u8 list option \<Rightarrow> nat \<Rightarrow> u8 list option \<Rightarrow> nat \<Rightarrow> nat option \<Rightarrow>
     (pd_relay_message_result \<times> u8 list option \<times> nat option) option" where
  "pd_relay_message_encode header payload payload_size output output_capacity bytes_written =
     (let written0 = map_option (\<lambda>_. 0) bytes_written in
      case (header, output) of
        (Some h, Some out) \<Rightarrow>
          if payload = None \<and> payload_size \<noteq> 0
          then Some (PD_RELAY_MESSAGE_INVALID_ARGUMENT, output, written0)
          else if PD_RELAY_MAX_PAYLOAD < payload_size \<or> unat (fh_payload_length h) \<noteq> payload_size
          then Some (PD_RELAY_MESSAGE_PAYLOAD_TOO_LARGE, output, written0)
          else let required = PD_FRAME_HEADER_SIZE + payload_size in
          if output_capacity < required
          then Some (PD_RELAY_MESSAGE_BUFFER_TOO_SMALL, output, written0)
          else do {
            (fr, output') \<leftarrow> pd_frame_encode_header header output;
            if fr \<noteq> PD_FRAME_OK then Some (PD_RELAY_MESSAGE_MALFORMED, output', written0)
            else do {
              m \<leftarrow> (case (payload, output') of
                      (Some p, Some out') \<Rightarrow>
                        if payload_size \<noteq> 0
                        then map_option Some (memcpy out' PD_FRAME_HEADER_SIZE p 0 payload_size)
                        else Some output'
                    | _ \<Rightarrow> Some output');
              Some (PD_RELAY_MESSAGE_OK, m, map_option (\<lambda>_. required) bytes_written) } }
      | _ \<Rightarrow> Some (PD_RELAY_MESSAGE_INVALID_ARGUMENT, output, written0))"

definition pd_relay_message_decode ::
  "u8 list option \<Rightarrow> nat \<Rightarrow> pd_relay_message_view option \<Rightarrow>
     (pd_relay_message_result \<times> pd_relay_message_view option) option" where
  "pd_relay_message_decode message message_size view =
     (case (message, view) of
        (Some msg, Some _) \<Rightarrow>
          if message_size < PD_FRAME_HEADER_SIZE \<or> PD_RELAY_WS_MESSAGE_MAX_SIZE < message_size
          then Some (PD_RELAY_MESSAGE_MALFORMED, view)
          else do {
            (fr, header) \<leftarrow> pd_frame_decode_header message (Some pd_frame_header_zero);
            case (fr, header) of
              (PD_FRAME_OK, Some h) \<Rightarrow>
                let payload_size = message_size - PD_FRAME_HEADER_SIZE in
                if PD_RELAY_MAX_PAYLOAD < payload_size \<or> unat (fh_payload_length h) \<noteq> payload_size
                then Some (PD_RELAY_MESSAGE_MALFORMED, view)
                else Some (PD_RELAY_MESSAGE_OK, Some \<lparr>rv_header = h,
                       rv_payload = (if payload_size = 0 then None else Some (drop PD_FRAME_HEADER_SIZE msg)),
                       rv_payload_size = payload_size\<rparr>)
            | _ \<Rightarrow> Some (PD_RELAY_MESSAGE_MALFORMED, view) }
      | _ \<Rightarrow> Some (PD_RELAY_MESSAGE_INVALID_ARGUMENT, view))"

text \<open>A frame as the relay carries it: a valid header whose length field is the payload's.\<close>

definition relay_frame_valid :: "pd_frame_header \<Rightarrow> u8 list \<Rightarrow> bool" where
  "relay_frame_valid h payload \<longleftrightarrow> frame_header_valid h \<and> unat (fh_payload_length h) = length payload \<and>
     length payload \<le> PD_RELAY_MAX_PAYLOAD"

text \<open>The bytes a view designates.\<close>

definition view_payload :: "pd_relay_message_view \<Rightarrow> u8 list" where
  "view_payload v = (case rv_payload v of None \<Rightarrow> [] | Some p \<Rightarrow> take (rv_payload_size v) p)"

lemma pd_relay_message_encode_eq:
  assumes "relay_frame_valid h payload" and "cap \<le> length out" and "12 + length payload \<le> cap"
  shows "pd_relay_message_encode (Some h) (Some payload) (length payload) (Some out) cap bw =
    Some (PD_RELAY_MESSAGE_OK, Some (frame_wire h @ payload @ drop (12 + length payload) out),
      map_option (\<lambda>_. 12 + length payload) bw)"
proof -
  have "pd_frame_encode_header (Some h) (Some out) = Some (PD_FRAME_OK, Some (frame_wire h @ drop 12 out))"
    using assms frame_header_valid_encodable
    by (intro pd_frame_encode_header_wire) (auto simp: relay_frame_valid_def)
  then show ?thesis
    using assms
    by (simp add: pd_relay_message_encode_def relay_frame_valid_def Let_def memcpy_def put_def add.commute)
qed

lemma pd_frame_decode_header_cases:
  assumes "12 \<le> length inp"
  shows "\<exists>r h. pd_frame_decode_header (Some inp) (Some h0) = Some (r, Some h)"
  using assms by (rule length_ge_12) (simp add: pd_frame_decode_header_bytes)

lemma pd_relay_message_decode_ok_iff:
  assumes "n \<le> length msg"
  shows "pd_relay_message_decode (Some msg) n (Some v0) = Some (PD_RELAY_MESSAGE_OK, Some v) \<longleftrightarrow>
    (\<exists>h payload. relay_frame_valid h payload \<and> take n msg = frame_wire h @ payload \<and> n = 12 + length payload \<and>
       v = \<lparr>rv_header = h, rv_payload = (if payload = [] then None else Some (drop 12 msg)),
            rv_payload_size = length payload\<rparr>)" (is "_ = ?spec")
proof (cases "12 \<le> n")
  case False
  then show ?thesis by (auto simp: pd_relay_message_decode_def)
next
  case True
  then have split: "take n msg = take 12 msg @ take (n - 12) (drop 12 msg)"
    by (rule take_segments)
  obtain r h where dec: "pd_frame_decode_header (Some msg) (Some pd_frame_header_zero) = Some (r, Some h)"
    using True assms pd_frame_decode_header_cases [of msg] by fastforce
  have ok: "r = PD_FRAME_OK \<and> h' = h \<longleftrightarrow> frame_header_valid h' \<and> take 12 msg = frame_wire h'" for h'
    using pd_frame_decode_header_ok_iff [of msg pd_frame_header_zero h'] True assms by (auto simp: dec)
  have len: "length (take (n - 12) (drop 12 msg)) = n - 12"
    using True assms by simp
  have "?spec \<longleftrightarrow> r = PD_FRAME_OK \<and> relay_frame_valid h (take (n - 12) (drop 12 msg)) \<and>
      v = \<lparr>rv_header = h, rv_payload = (if n = 12 then None else Some (drop 12 msg)), rv_payload_size = n - 12\<rparr>"
  proof
    assume ?spec
    then obtain h' payload where s: "relay_frame_valid h' payload" "take n msg = frame_wire h' @ payload"
      "n = 12 + length payload" "v = \<lparr>rv_header = h', rv_payload = (if payload = [] then None else Some (drop 12 msg)),
            rv_payload_size = length payload\<rparr>" by blast
    then have "take 12 msg = frame_wire h' \<and> take (n - 12) (drop 12 msg) = payload"
      using split True assms by (simp add: append_eq_append_conv)
    then show "r = PD_FRAME_OK \<and> relay_frame_valid h (take (n - 12) (drop 12 msg)) \<and>
      v = \<lparr>rv_header = h, rv_payload = (if n = 12 then None else Some (drop 12 msg)), rv_payload_size = n - 12\<rparr>"
      using s ok [of h'] by (auto simp: relay_frame_valid_def)
  next
    assume *: "r = PD_FRAME_OK \<and> relay_frame_valid h (take (n - 12) (drop 12 msg)) \<and>
      v = \<lparr>rv_header = h, rv_payload = (if n = 12 then None else Some (drop 12 msg)), rv_payload_size = n - 12\<rparr>"
    then show ?spec
      using ok [of h] split len True
      by (intro exI [of _ h] exI [of _ "take (n - 12) (drop 12 msg)"]) auto
  qed
  moreover have "pd_relay_message_decode (Some msg) n (Some v0) = Some (PD_RELAY_MESSAGE_OK, Some v) \<longleftrightarrow>
      r = PD_FRAME_OK \<and> relay_frame_valid h (take (n - 12) (drop 12 msg)) \<and>
      v = \<lparr>rv_header = h, rv_payload = (if n = 12 then None else Some (drop 12 msg)), rv_payload_size = n - 12\<rparr>"
    using True assms ok [of h] len
    by (auto simp: pd_relay_message_decode_def dec Let_def relay_frame_valid_def
        split: pd_frame_result.splits if_splits)
  ultimately show ?thesis by blast
qed

section \<open>The codec contract\<close>

text \<open>
  What a pair of encoder and decoder of the wire format promises: a well-formed value survives
  the round trip, and whatever the decoder accepts is the encoding of a well-formed value. The
  facts a peer relies on (an encoding determines its value, a value has one encoding) follow
  once and for all.
\<close>

locale wire_codec =
  fixes encode :: "'a \<Rightarrow> u8 list"
    and decode :: "u8 list \<Rightarrow> 'a option"
    and wf :: "'a \<Rightarrow> bool"
  assumes decode_encode: "wf a \<Longrightarrow> decode (encode a) = Some a"
    and decode_sound: "decode bs = Some a \<Longrightarrow> wf a \<and> encode a = bs"
begin

lemma decode_iff: "decode bs = Some a \<longleftrightarrow> wf a \<and> encode a = bs"
  using decode_encode decode_sound by blast

lemma encode_inject: "wf a \<Longrightarrow> wf b \<Longrightarrow> encode a = encode b \<longleftrightarrow> a = b"
  using decode_encode by (metis option.inject)

lemma decode_inject: "decode xs = Some a \<Longrightarrow> decode ys = Some a \<Longrightarrow> xs = ys"
  using decode_sound by blast

end

text \<open>The four codecs on exact-size buffers.\<close>

definition frame_print :: "pd_frame_header \<Rightarrow> u8 list" where
  "frame_print h = (case pd_frame_encode_header (Some h) (Some (replicate 12 0)) of
     Some (PD_FRAME_OK, Some m) \<Rightarrow> m | _ \<Rightarrow> [])"

definition frame_parse :: "u8 list \<Rightarrow> pd_frame_header option" where
  "frame_parse bs = (if length bs = 12 then
     case pd_frame_decode_header (Some bs) (Some pd_frame_header_zero) of
       Some (PD_FRAME_OK, h) \<Rightarrow> h | _ \<Rightarrow> None else None)"

definition ack_print :: "pd_ack \<Rightarrow> u8 list" where
  "ack_print a = (case pd_ack_encode (Some a) (Some (replicate 12 0)) of
     Some (PD_ACK_RESULT_OK, Some m) \<Rightarrow> m | _ \<Rightarrow> [])"

definition ack_parse :: "u8 list \<Rightarrow> pd_ack option" where
  "ack_parse bs = (if length bs = 12 then
     case pd_ack_decode (Some bs) (length bs) (Some \<lparr>ack_acknowledged_type = 0, ack_status = 0, ack_received_bytes = 0\<rparr>) of
       Some (PD_ACK_RESULT_OK, a) \<Rightarrow> a | _ \<Rightarrow> None else None)"

definition file_begin_print :: "pd_file_begin \<Rightarrow> u8 list" where
  "file_begin_print md = (case pd_file_begin_encode (Some md) (Some (replicate 162 0)) 162 (Some 0) of
     Some (PD_FILE_BEGIN_OK, Some m, Some n) \<Rightarrow> take n m | _ \<Rightarrow> [])"

definition file_begin_parse :: "u8 list \<Rightarrow> pd_file_begin option" where
  "file_begin_parse bs = (case pd_file_begin_decode (Some bs) (length bs) (Some pd_file_begin_zero) of
     Some (PD_FILE_BEGIN_OK, md) \<Rightarrow> md | _ \<Rightarrow> None)"

text \<open>Well-formed metadata: the struct of a size, a digest and a name, zero-padded.\<close>

definition file_begin_valid :: "pd_file_begin \<Rightarrow> bool" where
  "file_begin_valid md \<longleftrightarrow> length (fb_sha256 md) = 32 \<and> 0 \<in> set (fb_filename md) \<and>
     wire_name (c_str (fb_filename md)) \<and>
     fb_filename md = c_str (fb_filename md) @ replicate (121 - length (c_str (fb_filename md))) 0"

lemma file_begin_valid_of: "wire_name name \<Longrightarrow> length sha = 32 \<Longrightarrow> file_begin_valid (file_begin_of fsize sha name)"
  using file_begin_of_nul [of name fsize sha]
  by (simp add: file_begin_valid_def) (simp add: file_begin_of_def)

lemma file_begin_valid_eq:
  "file_begin_valid md \<Longrightarrow> md = file_begin_of (fb_file_size md) (fb_sha256 md) (c_str (fb_filename md))"
  by (cases md) (simp add: file_begin_valid_def file_begin_of_def)

lemma frame_print_eq: "frame_header_valid h \<Longrightarrow> frame_print h = frame_wire h"
  by (simp add: frame_print_def pd_frame_encode_header_wire frame_header_valid_encodable)

lemma ack_print_eq: "ack_valid a \<Longrightarrow> ack_print a = ack_wire a"
  by (simp add: ack_print_def pd_ack_encode_wire)

lemma file_begin_print_eq:
  "file_begin_valid md \<Longrightarrow>
    file_begin_print md = file_begin_wire (fb_file_size md) (fb_sha256 md) (c_str (fb_filename md))"
  by (auto simp: file_begin_print_def file_begin_valid_def pd_file_begin_encode_eq Let_def wire_name_def)

lemma frame_parse_iff: "frame_parse bs = Some h \<longleftrightarrow> frame_header_valid h \<and> bs = frame_wire h"
proof (cases "length bs = 12")
  case True
  obtain r h' where dec: "pd_frame_decode_header (Some bs) (Some pd_frame_header_zero) = Some (r, Some h')"
    using pd_frame_decode_header_cases [of bs] True by fastforce
  then show ?thesis
    using pd_frame_decode_header_ok_iff [of bs pd_frame_header_zero h] True
    by (auto simp: frame_parse_def split: pd_frame_result.splits)
qed (auto simp: frame_parse_def)

lemma ack_parse_iff: "ack_parse bs = Some a \<longleftrightarrow> ack_valid a \<and> bs = ack_wire a"
proof (cases "length bs = 12")
  case True
  then show ?thesis
    using pd_ack_decode_ok_iff [of bs 12 _ a]
    by (auto simp: ack_parse_def split: option.splits prod.splits pd_ack_result.splits)
qed (auto simp: ack_parse_def)

lemma file_begin_ex_iff:
  "(\<exists>fsize sha name. length sha = 32 \<and> wire_name name \<and> n = 42 + length name \<and>
      bs = file_begin_wire fsize sha name \<and> md = file_begin_of fsize sha name) \<longleftrightarrow>
   file_begin_valid md \<and> n = length bs \<and>
     bs = file_begin_wire (fb_file_size md) (fb_sha256 md) (c_str (fb_filename md))"
proof
  assume "\<exists>fsize sha name. length sha = 32 \<and> wire_name name \<and> n = 42 + length name \<and>
      bs = file_begin_wire fsize sha name \<and> md = file_begin_of fsize sha name"
  then show "file_begin_valid md \<and> n = length bs \<and>
     bs = file_begin_wire (fb_file_size md) (fb_sha256 md) (c_str (fb_filename md))"
    using file_begin_valid_of by auto
next
  assume a: "file_begin_valid md \<and> n = length bs \<and>
     bs = file_begin_wire (fb_file_size md) (fb_sha256 md) (c_str (fb_filename md))"
  show "\<exists>fsize sha name. length sha = 32 \<and> wire_name name \<and> n = 42 + length name \<and>
      bs = file_begin_wire fsize sha name \<and> md = file_begin_of fsize sha name"
    by (rule exI [of _ "fb_file_size md"], rule exI [of _ "fb_sha256 md"], rule exI [of _ "c_str (fb_filename md)"])
      (use a file_begin_valid_eq [of md] in \<open>auto simp: file_begin_valid_def\<close>)
qed

lemma file_begin_parse_iff:
  "file_begin_parse bs = Some md \<longleftrightarrow> file_begin_valid md \<and>
    bs = file_begin_wire (fb_file_size md) (fb_sha256 md) (c_str (fb_filename md))"
proof -
  obtain r md' where dec: "pd_file_begin_decode (Some bs) (length bs) (Some pd_file_begin_zero) = Some (r, Some md')"
    using pd_file_begin_decode_defined [of "length bs" bs] by fastforce
  then have "file_begin_parse bs = Some md \<longleftrightarrow>
      pd_file_begin_decode (Some bs) (length bs) (Some pd_file_begin_zero) = Some (PD_FILE_BEGIN_OK, Some md)"
    by (auto simp: file_begin_parse_def split: pd_file_begin_result.splits)
  then show ?thesis
    using file_begin_ex_iff [of "length bs" bs md] by (simp add: pd_file_begin_decode_ok_iff)
qed

interpretation frame_codec: wire_codec frame_print frame_parse frame_header_valid
  by unfold_locales (auto simp: frame_parse_iff frame_print_eq)

interpretation ack_codec: wire_codec ack_print ack_parse ack_valid
  by unfold_locales (auto simp: ack_parse_iff ack_print_eq)

interpretation file_begin_codec: wire_codec file_begin_print file_begin_parse file_begin_valid
  by unfold_locales (auto simp: file_begin_parse_iff file_begin_print_eq)

section \<open>Properties of the wire format\<close>

text \<open>C24: The frame header codec is exact: on any buffer of at least 12 bytes the decoder is
  defined, and it accepts precisely the encodings of headers with a message type of the
  vocabulary, zero flags and a payload length of at most 1 MiB.\<close>

theorem frame_decode_exact:
  assumes "12 \<le> length inp"
  shows "(\<exists>r h'. pd_frame_decode_header (Some inp) (Some h0) = Some (r, Some h')) \<and>
    (pd_frame_decode_header (Some inp) (Some h0) = Some (PD_FRAME_OK, Some h) \<longleftrightarrow>
     frame_header_valid h \<and> take 12 inp = frame_wire h)"
  using pd_frame_decode_header_cases [OF assms, of h0] pd_frame_decode_header_ok_iff [OF assms, of h0 h]
  by (auto simp: frame_print_eq)

theorem frame_decode_exact_witness:
  "(\<exists>r h'. pd_frame_decode_header (Some [0x50, 0x44, 0x52, 0x50, 1, 4, 0, 0, 0, 0, 1, 2]) (Some pd_frame_header_zero)
      = Some (r, Some h')) \<and>
    (pd_frame_decode_header (Some [0x50, 0x44, 0x52, 0x50, 1, 4, 0, 0, 0, 0, 1, 2]) (Some pd_frame_header_zero)
      = Some (PD_FRAME_OK, Some \<lparr>fh_type = 4, fh_flags = 0, fh_payload_length = 258\<rparr>) \<longleftrightarrow>
     frame_header_valid \<lparr>fh_type = 4, fh_flags = 0, fh_payload_length = 258\<rparr> \<and>
     take 12 [0x50, 0x44, 0x52, 0x50, 1, 4, 0, 0, 0, 0, 1, 2 :: u8] =
       frame_wire \<lparr>fh_type = 4, fh_flags = 0, fh_payload_length = 258\<rparr>)"
  by (rule frame_decode_exact) simp

text \<open>Encoding a header is defined on any 12-byte buffer, leaves the bytes behind it alone,
  and reports success exactly when the low byte of the type is a message type, the flags are
  zero and the payload length is within 1 MiB; on an error the buffer is untouched.\<close>

lemma frame_encode_total:
  assumes "12 \<le> length out"
  shows "\<exists>r out'. pd_frame_encode_header (Some h) (Some out) = Some (r, Some out') \<and> length out' = length out \<and>
    drop 12 out' = drop 12 out \<and> (r = PD_FRAME_OK \<longleftrightarrow> frame_encodable h) \<and>
    (r = PD_FRAME_OK \<longrightarrow> take 12 out' = frame_wire h) \<and> (r \<noteq> PD_FRAME_OK \<longrightarrow> out' = out)"
proof (cases "frame_encodable h")
  case True
  then show ?thesis using assms by (simp add: pd_frame_encode_header_wire)
next
  case False
  then show ?thesis using pd_frame_encode_header_reject [OF False, of out] by auto
qed

text \<open>C25: FILE_BEGIN metadata survives the round trip through a buffer: encoding a record with
  a name of 1 to 120 bytes writes exactly 42 plus its length, and decoding those bytes gives
  the file size, digest and name back.\<close>

theorem file_begin_roundtrip:
  assumes "file_begin_valid md" and "cap \<le> length out" and "42 + length (c_str (fb_filename md)) \<le> cap"
  shows "\<exists>out' n. pd_file_begin_encode (Some md) (Some out) cap (Some 0) = Some (PD_FILE_BEGIN_OK, Some out', Some n) \<and>
    n = 42 + length (c_str (fb_filename md)) \<and> drop n out' = drop n out \<and>
    pd_file_begin_decode (Some out') n (Some md0) = Some (PD_FILE_BEGIN_OK, Some md)"
proof -
  define name where "name = c_str (fb_filename md)"
  let ?out' = "file_begin_wire (fb_file_size md) (fb_sha256 md) name @ drop (42 + length name) out"
  have v: "length (fb_sha256 md) = 32" "wire_name name" "0 \<in> set (fb_filename md)"
    using assms(1) by (simp_all add: file_begin_valid_def name_def)
  have "pd_file_begin_decode (Some ?out') (42 + length name) (Some md0) = Some (PD_FILE_BEGIN_OK, Some md)"
    by (subst pd_file_begin_decode_ok_iff)
      (use v assms file_begin_valid_eq [OF assms(1)] in \<open>auto simp: name_def [symmetric]\<close>)
  moreover have "pd_file_begin_encode (Some md) (Some out) cap (Some 0) =
      Some (PD_FILE_BEGIN_OK, Some ?out', Some (42 + length name))"
    using v assms by (simp add: pd_file_begin_encode_eq Let_def name_def)
  ultimately show ?thesis using v(1) by (auto simp: name_def [symmetric])
qed

theorem file_begin_roundtrip_witness:
  "\<exists>out' n. pd_file_begin_encode (Some (file_begin_of 3 (replicate 32 9) (c_lit ''a.pdf''))) (Some (replicate 50 1)) 50 (Some 0)
      = Some (PD_FILE_BEGIN_OK, Some out', Some n) \<and>
    n = 42 + length (c_str (fb_filename (file_begin_of 3 (replicate 32 9) (c_lit ''a.pdf'')))) \<and>
    drop n out' = drop n (replicate 50 1) \<and>
    pd_file_begin_decode (Some out') n (Some pd_file_begin_zero) =
      Some (PD_FILE_BEGIN_OK, Some (file_begin_of 3 (replicate 32 9) (c_lit ''a.pdf'')))"
proof -
  have w: "wire_name (c_lit ''a.pdf'')" by (simp add: wire_name_def c_lit_def)
  show ?thesis
    by (rule file_begin_roundtrip) (use w file_begin_valid_of [OF w] in simp_all)
qed

text \<open>C26: The FILE_BEGIN decoder is exact and memory safe: for every payload that fits its buffer
  it is defined, never changes the record on failure, and accepts precisely the encodings of
  well-formed metadata, of exactly the stated size.\<close>

theorem file_begin_decode_exact:
  assumes "n \<le> length p"
  shows "\<exists>r md'. pd_file_begin_decode (Some p) n (Some md0) = Some (r, Some md') \<and>
    (r \<noteq> PD_FILE_BEGIN_OK \<longrightarrow> md' = md0) \<and>
    (r = PD_FILE_BEGIN_OK \<longrightarrow> file_begin_valid md') \<and>
    (\<forall>md. r = PD_FILE_BEGIN_OK \<and> md' = md \<longleftrightarrow> file_begin_valid md \<and> take n p = file_begin_wire (fb_file_size md) (fb_sha256 md) (c_str (fb_filename md)))"
proof -
  obtain r md' where dec: "pd_file_begin_decode (Some p) n (Some md0) = Some (r, Some md')"
    and keep: "r \<noteq> PD_FILE_BEGIN_OK \<longrightarrow> md' = md0"
    using pd_file_begin_decode_defined [OF assms] by blast
  have iff: "r = PD_FILE_BEGIN_OK \<and> md' = md \<longleftrightarrow> file_begin_valid md \<and> take n p = file_begin_wire (fb_file_size md) (fb_sha256 md) (c_str (fb_filename md))" for md
  proof -
    have "r = PD_FILE_BEGIN_OK \<and> md' = md \<longleftrightarrow> (\<exists>fsize sha name. length sha = 32 \<and> wire_name name \<and>
        n = 42 + length name \<and> take n p = file_begin_wire fsize sha name \<and> md = file_begin_of fsize sha name)"
      using pd_file_begin_decode_ok_iff [OF assms, of md0 md] by (simp add: dec)
    then show ?thesis
      using assms by (simp only: file_begin_ex_iff) (auto simp: file_begin_print_eq)
  qed
  then have "r = PD_FILE_BEGIN_OK \<longrightarrow> file_begin_valid md'" by blast
  with dec keep iff show ?thesis by blast
qed

theorem file_begin_decode_exact_witness:
  "\<exists>r md'. pd_file_begin_decode (Some (replicate 50 0)) 43 (Some pd_file_begin_zero) = Some (r, Some md') \<and>
    (r \<noteq> PD_FILE_BEGIN_OK \<longrightarrow> md' = pd_file_begin_zero) \<and>
    (r = PD_FILE_BEGIN_OK \<longrightarrow> file_begin_valid md') \<and>
    (\<forall>md. r = PD_FILE_BEGIN_OK \<and> md' = md \<longleftrightarrow> file_begin_valid md \<and> take 43 (replicate 50 0) = file_begin_wire (fb_file_size md) (fb_sha256 md) (c_str (fb_filename md)))"
  by (rule file_begin_decode_exact) simp

text \<open>C27: The acknowledgement codec is exact: decoding is defined on any 12-byte buffer and
  accepts precisely the encodings of acknowledgements of FILE_BEGIN, CHUNK or FILE_END with one
  of the five statuses, and encoding such an acknowledgement produces those bytes.\<close>

theorem ack_codec_exact:
  assumes "12 \<le> length inp"
  shows "(\<exists>r a'. pd_ack_decode (Some inp) n (Some a0) = Some (r, Some a')) \<and>
    (pd_ack_decode (Some inp) n (Some a0) = Some (PD_ACK_RESULT_OK, Some a) \<longleftrightarrow>
      n = 12 \<and> ack_valid a \<and> take 12 inp = ack_wire a) \<and>
    (ack_valid a \<longrightarrow> pd_ack_encode (Some a) (Some inp) = Some (PD_ACK_RESULT_OK, Some (ack_wire a @ drop 12 inp)))"
proof -
  obtain v where "pd_read_u64_be inp 4 = Some v"
    using assms pd_read_defined(3) [of 4 inp] by auto
  then have "\<exists>r a'. pd_ack_decode (Some inp) n (Some a0) = Some (r, Some a')"
    using assms by (auto simp: pd_ack_decode_def mem_simps rd_def Let_def)
  then show ?thesis
    using pd_ack_decode_ok_iff [OF assms, of n a0 a] assms
    by (auto simp: ack_print_eq pd_ack_encode_wire)
qed

theorem ack_codec_exact_witness:
  "pd_ack_encode (Some \<lparr>ack_acknowledged_type = 4, ack_status = 0, ack_received_bytes = 256\<rparr>) (Some (replicate 12 7)) =
     Some (PD_ACK_RESULT_OK, Some (ack_wire \<lparr>ack_acknowledged_type = 4, ack_status = 0, ack_received_bytes = 256\<rparr>
       @ drop 12 (replicate 12 7))) \<and>
   (\<exists>r a'. pd_ack_decode (Some (replicate 12 7)) 12
     (Some \<lparr>ack_acknowledged_type = 4, ack_status = 0, ack_received_bytes = 256\<rparr>) = Some (r, Some a'))"
proof -
  let ?a = "\<lparr>ack_acknowledged_type = 4, ack_status = 0, ack_received_bytes = 256\<rparr> :: pd_ack"
  have "ack_valid ?a"
    by (simp add: ack_valid_def pd_ack_type_is_allowed_def PD_MSG_defs PD_ACK_status_defs)
  then show ?thesis
    using ack_codec_exact [of "replicate 12 7" 12 ?a ?a] by (simp only: length_replicate)
qed

text \<open>C28: A frame survives the relay message round trip: encoding a valid header with its payload
  into a large enough buffer writes header and payload back to back, and decoding the message
  gives the same header and payload.\<close>

theorem relay_message_roundtrip:
  assumes "relay_frame_valid h payload" and "cap \<le> length out" and "12 + length payload \<le> cap"
  shows "\<exists>out' n v. pd_relay_message_encode (Some h) (Some payload) (length payload) (Some out) cap (Some 0)
      = Some (PD_RELAY_MESSAGE_OK, Some out', Some n) \<and> n = 12 + length payload \<and> drop n out' = drop n out \<and>
    pd_relay_message_decode (Some out') n (Some v0) = Some (PD_RELAY_MESSAGE_OK, Some v) \<and>
    rv_header v = h \<and> view_payload v = payload"
proof -
  let ?out' = "frame_wire h @ payload @ drop (12 + length payload) out"
  let ?v = "\<lparr>rv_header = h, rv_payload = (if payload = [] then None else Some (drop 12 ?out')),
            rv_payload_size = length payload\<rparr>"
  have "pd_relay_message_decode (Some ?out') (12 + length payload) (Some v0) = Some (PD_RELAY_MESSAGE_OK, Some ?v)"
    by (subst pd_relay_message_decode_ok_iff)
      (use assms in \<open>auto intro!: exI [of _ h] exI [of _ payload]\<close>)
  moreover have "view_payload ?v = payload" by (simp add: view_payload_def)
  moreover have "drop (12 + length payload) ?out' = drop (12 + length payload) out" by simp
  ultimately show ?thesis
    using pd_relay_message_encode_eq [OF assms, of "Some 0"] by (metis option.simps(9) pd_relay_message_view.select_convs(1))
qed

theorem relay_message_roundtrip_witness:
  "\<exists>out' n v. pd_relay_message_encode (Some \<lparr>fh_type = 4, fh_flags = 0, fh_payload_length = 3\<rparr>) (Some [1, 2, 3])
      (length [1, 2, 3 :: u8]) (Some (replicate 20 0)) 20 (Some 0)
      = Some (PD_RELAY_MESSAGE_OK, Some out', Some n) \<and> n = 12 + length [1, 2, 3 :: u8] \<and>
    drop n out' = drop n (replicate 20 0) \<and>
    pd_relay_message_decode (Some out') n
      (Some \<lparr>rv_header = pd_frame_header_zero, rv_payload = None, rv_payload_size = 0\<rparr>) =
      Some (PD_RELAY_MESSAGE_OK, Some v) \<and>
    rv_header v = \<lparr>fh_type = 4, fh_flags = 0, fh_payload_length = 3\<rparr> \<and> view_payload v = [1, 2, 3]"
  by (rule relay_message_roundtrip) (simp_all add: relay_frame_valid_def frame_header_valid_def)

lemma relay_decode_total:
  assumes "n \<le> length msg"
  shows "\<exists>r v. pd_relay_message_decode (Some msg) n (Some v0) = Some (r, Some v) \<and>
    (r \<noteq> PD_RELAY_MESSAGE_OK \<longrightarrow> v = v0) \<and>
    (r = PD_RELAY_MESSAGE_OK \<longrightarrow> relay_frame_valid (rv_header v) (view_payload v) \<and>
       rv_payload_size v = length (view_payload v) \<and>
       take n msg = frame_wire (rv_header v) @ view_payload v)"
proof -
  have "\<exists>r v. pd_relay_message_decode (Some msg) n (Some v0) = Some (r, Some v) \<and> (r \<noteq> PD_RELAY_MESSAGE_OK \<longrightarrow> v = v0)"
  proof (cases "12 \<le> n")
    case True
    then show ?thesis
      using pd_frame_decode_header_cases [of msg pd_frame_header_zero] assms
      by (fastforce simp: pd_relay_message_decode_def Let_def split: pd_frame_result.splits)
  qed (simp add: pd_relay_message_decode_def)
  moreover have "relay_frame_valid (rv_header v) (view_payload v) \<and>
       rv_payload_size v = length (view_payload v) \<and> take n msg = frame_wire (rv_header v) @ view_payload v"
    if dec: "pd_relay_message_decode (Some msg) n (Some v0) = Some (PD_RELAY_MESSAGE_OK, Some v)" for v
  proof -
    obtain h payload where *: "relay_frame_valid h payload" "take n msg = frame_wire h @ payload" "n = 12 + length payload"
      "v = \<lparr>rv_header = h, rv_payload = (if payload = [] then None else Some (drop 12 msg)),
            rv_payload_size = length payload\<rparr>"
      using dec pd_relay_message_decode_ok_iff [OF assms, of v0 v] by blast
    have "take (length payload) (drop 12 msg) = drop 12 (take n msg)"
      by (simp add: *(3) drop_take)
    then have "view_payload v = payload"
      using *(2,4) by (simp add: view_payload_def)
    then show ?thesis using * by (simp add: frame_print_eq relay_frame_valid_def)
  qed
  ultimately show ?thesis by (metis (no_types, lifting))
qed

text \<open>C29: Whatever message the relay delivers, decoding it is memory safe, and it is accepted
  only if it is a valid frame header followed by exactly the payload it announces.\<close>

theorem relay_message_decode_sound:
  assumes "n \<le> length msg"
  shows "\<exists>r v. pd_relay_message_decode (Some msg) n (Some v0) = Some (r, Some v) \<and>
    (r \<noteq> PD_RELAY_MESSAGE_OK \<longrightarrow> v = v0) \<and>
    (r = PD_RELAY_MESSAGE_OK \<longrightarrow> relay_frame_valid (rv_header v) (view_payload v) \<and>
       rv_payload_size v = length (view_payload v) \<and>
       take n msg = frame_wire (rv_header v) @ view_payload v)"
  using assms by (rule relay_decode_total)

theorem relay_message_decode_sound_witness:
  "\<exists>r v. pd_relay_message_decode (Some (replicate 20 0)) 20
      (Some \<lparr>rv_header = pd_frame_header_zero, rv_payload = None, rv_payload_size = 0\<rparr>) = Some (r, Some v) \<and>
    (r \<noteq> PD_RELAY_MESSAGE_OK \<longrightarrow> v = \<lparr>rv_header = pd_frame_header_zero, rv_payload = None, rv_payload_size = 0\<rparr>) \<and>
    (r = PD_RELAY_MESSAGE_OK \<longrightarrow> relay_frame_valid (rv_header v) (view_payload v) \<and>
       rv_payload_size v = length (view_payload v) \<and>
       take 20 (replicate 20 0) = frame_wire (rv_header v) @ view_payload v)"
  by (rule relay_message_decode_sound) simp

end
