(* ===== verification/PD_ReceiverProtocol.thy ===== *)
theory PD_ReceiverProtocol
  imports PD_Messages
begin

text \<open>
  The receiver protocol (\<^verbatim>\<open>receiver_protocol.c\<close>): it takes decoded frames one at a time, checks them
  against its state and drives a file handler through four callbacks. The handler's context is the
  state \<open>'c\<close>; \<open>receive_handler\<close> is the contract the protocol relies on.
\<close>

section \<open>Data\<close>

datatype pd_receiver_protocol_state =
    PD_RECEIVER_PROTOCOL_WAIT_FILE
  | PD_RECEIVER_PROTOCOL_RECEIVING
  | PD_RECEIVER_PROTOCOL_COMPLETE
  | PD_RECEIVER_PROTOCOL_FAILED

datatype pd_receiver_protocol_result =
    PD_RECEIVER_PROTOCOL_OK
  | PD_RECEIVER_PROTOCOL_INVALID_ARGUMENT
  | PD_RECEIVER_PROTOCOL_INVALID_STATE
  | PD_RECEIVER_PROTOCOL_MALFORMED_FRAME
  | PD_RECEIVER_PROTOCOL_UNEXPECTED_MESSAGE
  | PD_RECEIVER_PROTOCOL_INVALID_METADATA
  | PD_RECEIVER_PROTOCOL_HANDLER_ERROR

record 'c pd_receiver_protocol_ops =
  po_begin_file :: "('c \<Rightarrow> pd_file_begin option \<Rightarrow> u8 list option \<Rightarrow> (bool \<times> 'c) option) option"
  po_write_chunk :: "('c \<Rightarrow> u8 list option \<Rightarrow> nat \<Rightarrow> (bool \<times> 'c) option) option"
  po_finish_file :: "('c \<Rightarrow> (bool \<times> 'c) option) option"
  po_abort_file :: "('c \<Rightarrow> 'c option) option"

record 'c pd_receiver_protocol =
  rp_ops :: "'c pd_receiver_protocol_ops option"
  rp_current_file :: pd_file_begin
  rp_sanitized_filename :: "u8 list"
  rp_state :: pd_receiver_protocol_state
  rp_file_active :: bool

section \<open>Operations\<close>

definition pd_receiver_protocol_ops_valid :: "'c pd_receiver_protocol_ops option \<Rightarrow> bool" where
  "pd_receiver_protocol_ops_valid ops =
     (case ops of
        None \<Rightarrow> False
      | Some t \<Rightarrow> po_begin_file t \<noteq> None \<and> po_write_chunk t \<noteq> None \<and>
                  po_finish_file t \<noteq> None \<and> po_abort_file t \<noteq> None)"

text \<open>The release of an active file, shared by failing and aborting.\<close>

definition protocol_release ::
  "'c pd_receiver_protocol \<Rightarrow> 'c \<Rightarrow> ('c pd_receiver_protocol \<times> 'c) option" where
  "protocol_release protocol c =
     (if rp_file_active protocol
      then do {
        ops \<leftarrow> rp_ops protocol;
        f \<leftarrow> po_abort_file ops;
        c \<leftarrow> f c;
        Some (protocol\<lparr>rp_file_active := False\<rparr>, c) }
      else Some (protocol, c))"

definition pd_receiver_protocol_fail ::
  "'c pd_receiver_protocol \<Rightarrow> pd_receiver_protocol_result \<Rightarrow> 'c \<Rightarrow>
   (pd_receiver_protocol_result \<times> 'c pd_receiver_protocol option \<times> 'c) option" where
  "pd_receiver_protocol_fail protocol result c = do {
     (protocol, c) \<leftarrow> protocol_release protocol c;
     Some (result, Some (protocol\<lparr>rp_state := PD_RECEIVER_PROTOCOL_FAILED\<rparr>), c) }"

definition pd_receiver_protocol_init ::
  "'c pd_receiver_protocol option \<Rightarrow> 'c pd_receiver_protocol_ops option \<Rightarrow>
   pd_receiver_protocol_result \<times> 'c pd_receiver_protocol option" where
  "pd_receiver_protocol_init protocol ops =
     (if protocol = None \<or> \<not> pd_receiver_protocol_ops_valid ops
      then (PD_RECEIVER_PROTOCOL_INVALID_ARGUMENT, protocol)
      else (PD_RECEIVER_PROTOCOL_OK, Some \<lparr>rp_ops = ops, rp_current_file = pd_file_begin_zero,
        rp_sanitized_filename = replicate PD_FILENAME_CAPACITY 0,
        rp_state = PD_RECEIVER_PROTOCOL_WAIT_FILE, rp_file_active = False\<rparr>))"

text \<open>The locals \<^verbatim>\<open>metadata\<close> and \<^verbatim>\<open>sanitized\<close> start indeterminate; both are read only after the call
  that fills them succeeded, so they are zero here.\<close>

definition pd_receiver_protocol_begin_file ::
  "'c pd_receiver_protocol \<Rightarrow> u8 list option \<Rightarrow> nat \<Rightarrow> 'c \<Rightarrow>
   (pd_receiver_protocol_result \<times> 'c pd_receiver_protocol option \<times> 'c) option" where
  "pd_receiver_protocol_begin_file protocol payload payload_size c = do {
     (r, md) \<leftarrow> pd_file_begin_decode payload payload_size (Some pd_file_begin_zero);
     if r \<noteq> PD_FILE_BEGIN_OK then pd_receiver_protocol_fail protocol PD_RECEIVER_PROTOCOL_INVALID_METADATA c
     else do {
       metadata \<leftarrow> md;
       (fr, out, _) \<leftarrow> pd_filename_sanitize (Some (fb_filename metadata))
         (Some (replicate PD_FILENAME_CAPACITY 0)) PD_FILENAME_CAPACITY None;
       if fr \<noteq> PD_FILENAME_OK then pd_receiver_protocol_fail protocol PD_RECEIVER_PROTOCOL_INVALID_METADATA c
       else do {
         sanitized \<leftarrow> out;
         ops \<leftarrow> rp_ops protocol;
         f \<leftarrow> po_begin_file ops;
         (ok, c) \<leftarrow> f c (Some metadata) (Some sanitized);
         if \<not> ok then pd_receiver_protocol_fail protocol PD_RECEIVER_PROTOCOL_HANDLER_ERROR c
         else do {
           n \<leftarrow> strlen sanitized;
           name \<leftarrow> memcpy (rp_sanitized_filename protocol) 0 sanitized 0 (n + 1);
           Some (PD_RECEIVER_PROTOCOL_OK, Some (protocol\<lparr>rp_current_file := metadata,
             rp_sanitized_filename := name, rp_file_active := True,
             rp_state := PD_RECEIVER_PROTOCOL_RECEIVING\<rparr>), c) } } } }"

definition pd_receiver_protocol_write_chunk ::
  "'c pd_receiver_protocol \<Rightarrow> u8 list option \<Rightarrow> nat \<Rightarrow> 'c \<Rightarrow>
   (pd_receiver_protocol_result \<times> 'c pd_receiver_protocol option \<times> 'c) option" where
  "pd_receiver_protocol_write_chunk protocol payload payload_size c =
     (if payload = None \<or> payload_size = 0 \<or> PD_FRAME_MAX_PAYLOAD < payload_size
      then pd_receiver_protocol_fail protocol PD_RECEIVER_PROTOCOL_MALFORMED_FRAME c
      else do {
        ops \<leftarrow> rp_ops protocol;
        f \<leftarrow> po_write_chunk ops;
        (ok, c) \<leftarrow> f c payload payload_size;
        if \<not> ok then pd_receiver_protocol_fail protocol PD_RECEIVER_PROTOCOL_HANDLER_ERROR c
        else Some (PD_RECEIVER_PROTOCOL_OK, Some protocol, c) })"

definition pd_receiver_protocol_finish_file ::
  "'c pd_receiver_protocol \<Rightarrow> nat \<Rightarrow> 'c \<Rightarrow>
   (pd_receiver_protocol_result \<times> 'c pd_receiver_protocol option \<times> 'c) option" where
  "pd_receiver_protocol_finish_file protocol payload_size c =
     (if payload_size \<noteq> 0
      then pd_receiver_protocol_fail protocol PD_RECEIVER_PROTOCOL_MALFORMED_FRAME c
      else do {
        ops \<leftarrow> rp_ops protocol;
        f \<leftarrow> po_finish_file ops;
        (ok, c) \<leftarrow> f c;
        if \<not> ok then pd_receiver_protocol_fail protocol PD_RECEIVER_PROTOCOL_HANDLER_ERROR c
        else Some (PD_RECEIVER_PROTOCOL_OK, Some (protocol\<lparr>rp_file_active := False,
               rp_state := PD_RECEIVER_PROTOCOL_COMPLETE\<rparr>), c) })"

definition pd_receiver_protocol_handle ::
  "'c pd_receiver_protocol option \<Rightarrow> pd_frame_header option \<Rightarrow> u8 list option \<Rightarrow> nat \<Rightarrow> 'c \<Rightarrow>
   (pd_receiver_protocol_result \<times> 'c pd_receiver_protocol option \<times> 'c) option" where
  "pd_receiver_protocol_handle protocol header payload payload_size c =
     (case (protocol, header) of
        (Some p, Some h) \<Rightarrow>
          if payload = None \<and> payload_size \<noteq> 0 \<or> \<not> pd_receiver_protocol_ops_valid (rp_ops p)
          then Some (PD_RECEIVER_PROTOCOL_INVALID_ARGUMENT, protocol, c)
          else if rp_state p = PD_RECEIVER_PROTOCOL_COMPLETE \<or> rp_state p = PD_RECEIVER_PROTOCOL_FAILED
          then Some (PD_RECEIVER_PROTOCOL_INVALID_STATE, protocol, c)
          else if \<not> pd_message_type_is_valid (ucast (fh_type h)) \<or> fh_flags h \<noteq> 0 \<or>
                  word_of_nat PD_FRAME_MAX_PAYLOAD < fh_payload_length h \<or>
                  unat (fh_payload_length h) \<noteq> payload_size
          then pd_receiver_protocol_fail p PD_RECEIVER_PROTOCOL_MALFORMED_FRAME c
          else if rp_state p = PD_RECEIVER_PROTOCOL_WAIT_FILE
          then if fh_type h \<noteq> PD_MSG_FILE_BEGIN
               then pd_receiver_protocol_fail p PD_RECEIVER_PROTOCOL_UNEXPECTED_MESSAGE c
               else pd_receiver_protocol_begin_file p payload payload_size c
          else if fh_type h = PD_MSG_CHUNK then pd_receiver_protocol_write_chunk p payload payload_size c
          else if fh_type h = PD_MSG_FILE_END then pd_receiver_protocol_finish_file p payload_size c
          else pd_receiver_protocol_fail p PD_RECEIVER_PROTOCOL_UNEXPECTED_MESSAGE c
      | _ \<Rightarrow> Some (PD_RECEIVER_PROTOCOL_INVALID_ARGUMENT, protocol, c))"

definition pd_receiver_protocol_abort ::
  "'c pd_receiver_protocol option \<Rightarrow> 'c \<Rightarrow> ('c pd_receiver_protocol option \<times> 'c) option" where
  "pd_receiver_protocol_abort protocol c =
     (case protocol of
        None \<Rightarrow> Some (protocol, c)
      | Some p \<Rightarrow>
          if rp_state p = PD_RECEIVER_PROTOCOL_COMPLETE \<or> rp_state p = PD_RECEIVER_PROTOCOL_FAILED
          then Some (protocol, c)
          else do {
            (p, c) \<leftarrow> protocol_release p c;
            Some (Some (p\<lparr>rp_state := PD_RECEIVER_PROTOCOL_FAILED\<rparr>), c) })"

section \<open>The contract of a handler\<close>

definition handler_table where
  "handler_table begin_op chunk_op finish_op abort_op =
     \<lparr>po_begin_file = Some begin_op, po_write_chunk = Some chunk_op, po_finish_file = Some finish_op,
      po_abort_file = Some abort_op\<rparr>"

text \<open>
  \<open>current\<close> is the announced size, the announced digest and the bytes accepted so far of the file a
  handler is receiving, \<open>delivered\<close> the contents of the file under its final name. The handler is
  asked to begin only with well-formed metadata and a safe name. A successful finish delivers
  exactly the accepted bytes, and they have the announced size and digest; nothing else it does
  once a file has begun changes the delivered file.
\<close>

locale receive_handler =
  fixes begin_op :: "'c \<Rightarrow> pd_file_begin option \<Rightarrow> u8 list option \<Rightarrow> (bool \<times> 'c) option"
    and chunk_op :: "'c \<Rightarrow> u8 list option \<Rightarrow> nat \<Rightarrow> (bool \<times> 'c) option"
    and finish_op :: "'c \<Rightarrow> (bool \<times> 'c) option"
    and abort_op :: "'c \<Rightarrow> 'c option"
    and handler_inv :: "'c \<Rightarrow> bool"
    and current :: "'c \<Rightarrow> (u64 \<times> u8 list \<times> u8 list) option"
    and delivered :: "'c \<Rightarrow> u8 list option"
    and hash :: "u8 list \<Rightarrow> u8 list"
  assumes handler_begin: "handler_inv c \<Longrightarrow> current c = None \<Longrightarrow> file_begin_shape md \<Longrightarrow>
      length name = 121 \<Longrightarrow> 0 \<in> set name \<Longrightarrow> safe_name (c_str name) \<Longrightarrow>
      \<exists>ok c'. begin_op c (Some md) (Some name) = Some (ok, c') \<and> handler_inv c' \<and>
        current c' = (if ok then Some (fb_file_size md, fb_sha256 md, []) else None)"
    and handler_chunk: "handler_inv c \<Longrightarrow> current c = Some (announced, sha, bs) \<Longrightarrow> n \<le> length d \<Longrightarrow> 0 < n \<Longrightarrow>
      \<exists>ok c'. chunk_op c (Some d) n = Some (ok, c') \<and> handler_inv c' \<and> delivered c' = delivered c \<and>
        (ok \<longrightarrow> current c' = Some (announced, sha, bs @ take n d) \<and> length bs + n \<le> unat announced)"
    and handler_finish: "handler_inv c \<Longrightarrow> current c = Some (announced, sha, bs) \<Longrightarrow>
      \<exists>ok c'. finish_op c = Some (ok, c') \<and> handler_inv c' \<and>
        (if ok then current c' = None \<and> delivered c' = Some bs \<and> length bs = unat announced \<and> hash bs = sha
         else delivered c' = delivered c)"
    and handler_abort: "handler_inv c \<Longrightarrow>
      \<exists>c'. abort_op c = Some c' \<and> handler_inv c' \<and> current c' = None \<and> delivered c' = delivered c"

section \<open>The invariant\<close>

text \<open>
  A file is active exactly while the protocol is receiving; then the handler is receiving the
  announced file under a safe name.
\<close>

definition protocol_inv where
  "protocol_inv table handler_inv current p c \<longleftrightarrow>
     rp_ops p = Some table \<and> handler_inv c \<and> length (rp_sanitized_filename p) = 121 \<and>
     rp_file_active p = (rp_state p = PD_RECEIVER_PROTOCOL_RECEIVING) \<and>
     (case rp_state p of
        PD_RECEIVER_PROTOCOL_WAIT_FILE \<Rightarrow> current c = None
      | PD_RECEIVER_PROTOCOL_RECEIVING \<Rightarrow>
          safe_name (c_str (rp_sanitized_filename p)) \<and>
          (\<exists>bs. current c = Some (fb_file_size (rp_current_file p), fb_sha256 (rp_current_file p), bs) \<and>
                length bs \<le> unat (fb_file_size (rp_current_file p)))
      | _ \<Rightarrow> True)"

text \<open>The bytes the handler has accepted of the current file.\<close>

definition accepted_bytes :: "('c \<Rightarrow> (u64 \<times> u8 list \<times> u8 list) option) \<Rightarrow> 'c \<Rightarrow> u8 list" where
  "accepted_bytes current c = (case current c of None \<Rightarrow> [] | Some (_, _, bs) \<Rightarrow> bs)"

text \<open>A frame the protocol looks at further: a known type, no flags and the length of its payload.\<close>

definition frame_consistent :: "pd_frame_header \<Rightarrow> nat \<Rightarrow> bool" where
  "frame_consistent h n \<longleftrightarrow> (ucast (fh_type h) :: u8) \<in> {1..7} \<and> fh_flags h = 0 \<and>
     unat (fh_payload_length h) = n \<and> n \<le> PD_FRAME_MAX_PAYLOAD"

lemma frame_consistent_guard:
  "(\<not> pd_message_type_is_valid (ucast (fh_type h)) \<or> fh_flags h \<noteq> 0 \<or>
    word_of_nat PD_FRAME_MAX_PAYLOAD < fh_payload_length h \<or> unat (fh_payload_length h) \<noteq> n) \<longleftrightarrow>
   \<not> frame_consistent h n"
  unfolding frame_consistent_def max_payload_less_iff pd_message_type_is_valid_iff atLeastAtMost_iff by auto

context receive_handler
begin

abbreviation "table \<equiv> handler_table begin_op chunk_op finish_op abort_op"

abbreviation "pinv \<equiv> protocol_inv table handler_inv current"

lemma table_ops [simp]:
  "po_begin_file table = Some begin_op" "po_write_chunk table = Some chunk_op"
  "po_finish_file table = Some finish_op" "po_abort_file table = Some abort_op"
  "pd_receiver_protocol_ops_valid (Some table)"
  by (simp_all add: handler_table_def pd_receiver_protocol_ops_valid_def)

lemma init_inv:
  "handler_inv c \<Longrightarrow> current c = None \<Longrightarrow>
   \<exists>p. pd_receiver_protocol_init (Some p0) (Some table) = (PD_RECEIVER_PROTOCOL_OK, Some p) \<and> pinv p c \<and>
     rp_state p = PD_RECEIVER_PROTOCOL_WAIT_FILE"
  by (simp add: pd_receiver_protocol_init_def protocol_inv_def)

text \<open>Failing releases an active file and never changes the delivered one.\<close>

lemma fail_spec:
  assumes "rp_ops p = Some table" and "handler_inv c" and "length (rp_sanitized_filename p) = 121"
  shows "\<exists>p' c'. pd_receiver_protocol_fail p e c = Some (e, Some p', c') \<and> pinv p' c' \<and>
    rp_state p' = PD_RECEIVER_PROTOCOL_FAILED \<and> rp_current_file p' = rp_current_file p \<and> delivered c' = delivered c \<and>
    (rp_file_active p \<longrightarrow> current c' = None)"
proof -
  obtain c' where "abort_op c = Some c'" "handler_inv c'" "current c' = None" "delivered c' = delivered c"
    using handler_abort [OF assms(2)] by blast
  then show ?thesis
    using assms by (cases "rp_file_active p")
      (simp_all add: pd_receiver_protocol_fail_def protocol_release_def protocol_inv_def)
qed

lemma fail_inv:
  assumes "pinv p c"
  shows "\<exists>p' c'. pd_receiver_protocol_fail p e c = Some (e, Some p', c') \<and> pinv p' c' \<and>
    rp_state p' = PD_RECEIVER_PROTOCOL_FAILED \<and> rp_current_file p' = rp_current_file p \<and> delivered c' = delivered c \<and>
    (rp_file_active p \<longrightarrow> current c' = None)"
  by (rule fail_spec) (use assms in \<open>auto simp: protocol_inv_def\<close>)

lemma begin_file_spec:
  assumes "pinv p c" and "rp_state p = PD_RECEIVER_PROTOCOL_WAIT_FILE" and "n \<le> length d"
  shows "\<exists>res p' c'. pd_receiver_protocol_begin_file p (Some d) n c = Some (res, Some p', c') \<and> pinv p' c' \<and>
    (if res = PD_RECEIVER_PROTOCOL_OK
     then rp_state p' = PD_RECEIVER_PROTOCOL_RECEIVING \<and> accepted_bytes current c' = [] \<and>
       (\<exists>fsize sha name. wire_name name \<and> length sha = 32 \<and> take n d = file_begin_wire fsize sha name \<and>
          rp_current_file p' = file_begin_of fsize sha name \<and> safe_name (sanitized name) \<and>
          c_str (rp_sanitized_filename p') = sanitized name)
     else rp_state p' = PD_RECEIVER_PROTOCOL_FAILED)"
proof -
  have p: "rp_ops p = Some table" "handler_inv c" "length (rp_sanitized_filename p) = 121" "current c = None"
    using assms(1,2) by (auto simp: protocol_inv_def)
  note bad = fail_inv [OF assms(1), of PD_RECEIVER_PROTOCOL_INVALID_METADATA]
  obtain r md where dec: "pd_file_begin_decode (Some d) n (Some pd_file_begin_zero) = Some (r, Some md)"
    using pd_file_begin_decode_defined [OF assms(3)] by blast
  show ?thesis
  proof (cases "r = PD_FILE_BEGIN_OK")
    case False
    then show ?thesis using bad by (auto simp: pd_receiver_protocol_begin_file_def dec)
  next
    case True
    then obtain fsize sha name where w: "wire_name name" "length sha = 32" "take n d = file_begin_wire fsize sha name"
      "md = file_begin_of fsize sha name"
      using dec pd_file_begin_decode_ok_iff assms(3) by blast
    let ?t = "sanitized name"
    have san: "pd_filename_sanitize (Some (fb_filename md)) (Some (replicate 121 0)) 121 None =
      Some (if 120 < length ?t then (PD_FILENAME_TOO_LONG, Some (replicate 121 0), None)
            else (PD_FILENAME_OK, Some (?t @ 0 # replicate (120 - length ?t) 0), None))"
      using w(1) by (simp add: pd_filename_sanitize_eq w(4) file_begin_of_nul Let_def) (simp add: wire_name_def)
    show ?thesis
    proof (cases "120 < length ?t")
      case True
      then show ?thesis using bad \<open>r = PD_FILE_BEGIN_OK\<close> by (auto simp: pd_receiver_protocol_begin_file_def dec san)
    next
      case False
      let ?out = "?t @ 0 # replicate (120 - length ?t) (0 :: u8)"
      have safe: "safe_name ?t" using False by (intro sanitized_safe) simp
      then have nul: "0 \<notin> set ?t" by (rule safe_name_no_nul)
      obtain ok c1 where b: "begin_op c (Some md) (Some ?out) = Some (ok, c1)" "handler_inv c1"
        "current c1 = (if ok then Some (fsize, sha, []) else None)"
        using handler_begin [OF p(2,4), of md ?out] w nul safe False file_begin_of_shape by auto
      have fin: "\<exists>p' c'. pd_receiver_protocol_fail p PD_RECEIVER_PROTOCOL_HANDLER_ERROR c1 =
          Some (PD_RECEIVER_PROTOCOL_HANDLER_ERROR, Some p', c') \<and> pinv p' c' \<and> rp_state p' = PD_RECEIVER_PROTOCOL_FAILED \<and>
          rp_current_file p' = rp_current_file p \<and> delivered c' = delivered c1 \<and> (rp_file_active p \<longrightarrow> current c' = None)"
        by (rule fail_spec [OF p(1) b(2) p(3)])
      have "memcpy (rp_sanitized_filename p) 0 ?out 0 (length ?t + 1) =
          Some (?t @ 0 # drop (length ?t + 1) (rp_sanitized_filename p))"
        using False p(3) by (simp add: memcpy_def mem_slice_def put_0)
      then have "pd_receiver_protocol_begin_file p (Some d) n c =
        (if \<not> ok then pd_receiver_protocol_fail p PD_RECEIVER_PROTOCOL_HANDLER_ERROR c1
         else Some (PD_RECEIVER_PROTOCOL_OK, Some (p\<lparr>rp_current_file := md,
           rp_sanitized_filename := ?t @ 0 # drop (length ?t + 1) (rp_sanitized_filename p),
           rp_file_active := True, rp_state := PD_RECEIVER_PROTOCOL_RECEIVING\<rparr>), c1))"
        using \<open>r = PD_FILE_BEGIN_OK\<close> False p(1) b(1) nul
        by (simp add: pd_receiver_protocol_begin_file_def dec san)
      then show ?thesis
        using fin b p nul safe w False by (cases ok) (auto simp: protocol_inv_def accepted_bytes_def)
    qed
  qed
qed

end

context receive_handler
begin

lemma write_chunk_spec:
  assumes "pinv p c" and "rp_state p = PD_RECEIVER_PROTOCOL_RECEIVING"
    and "n \<le> length (the_default [] payload)" and "payload = None \<longrightarrow> n = 0"
  shows "\<exists>res p' c'. pd_receiver_protocol_write_chunk p payload n c = Some (res, Some p', c') \<and> pinv p' c' \<and>
    delivered c' = delivered c \<and>
    (if res = PD_RECEIVER_PROTOCOL_OK
     then p' = p \<and> 0 < n \<and> accepted_bytes current c' = accepted_bytes current c @ take n (the_default [] payload)
     else rp_state p' = PD_RECEIVER_PROTOCOL_FAILED \<and> current c' = None)"
proof (cases "payload = None \<or> n = 0 \<or> PD_FRAME_MAX_PAYLOAD < n")
  case True
  have "rp_file_active p" using assms(1,2) by (simp add: protocol_inv_def)
  then show ?thesis
    using True fail_inv [OF assms(1), of PD_RECEIVER_PROTOCOL_MALFORMED_FRAME]
    by (auto simp: pd_receiver_protocol_write_chunk_def)
next
  case False
  then obtain d where d: "payload = Some d" "0 < n" "n \<le> length d" using assms(3) by auto
  obtain bs where p: "rp_ops p = Some table" "handler_inv c" "length (rp_sanitized_filename p) = 121" "rp_file_active p"
    "current c = Some (fb_file_size (rp_current_file p), fb_sha256 (rp_current_file p), bs)"
    using assms(1,2) by (auto simp: protocol_inv_def)
  obtain ok c1 where k: "chunk_op c (Some d) n = Some (ok, c1)" "handler_inv c1" "delivered c1 = delivered c"
    "ok \<Longrightarrow> current c1 = Some (fb_file_size (rp_current_file p), fb_sha256 (rp_current_file p), bs @ take n d) \<and>
      length bs + n \<le> unat (fb_file_size (rp_current_file p))"
    using handler_chunk [OF p(2,5) d(3,2)] by blast
  have "pd_receiver_protocol_write_chunk p payload n c =
    (if \<not> ok then pd_receiver_protocol_fail p PD_RECEIVER_PROTOCOL_HANDLER_ERROR c1
     else Some (PD_RECEIVER_PROTOCOL_OK, Some p, c1))"
    using False p(1) k(1) by (simp add: pd_receiver_protocol_write_chunk_def d(1))
  moreover have "ok \<Longrightarrow> pinv p c1"
    using assms(1,2) k(2,4) d(3) by (auto simp: protocol_inv_def)
  ultimately show ?thesis
    using fail_spec [OF p(1) k(2) p(3), of PD_RECEIVER_PROTOCOL_HANDLER_ERROR] k(3,4) p(4,5) d(1,2)
    by (cases ok) (auto simp: accepted_bytes_def)
qed

lemma finish_file_spec:
  assumes "pinv p c" and "rp_state p = PD_RECEIVER_PROTOCOL_RECEIVING"
  shows "\<exists>res p' c'. pd_receiver_protocol_finish_file p n c = Some (res, Some p', c') \<and> pinv p' c' \<and>
    current c' = None \<and>
    (if res = PD_RECEIVER_PROTOCOL_OK
     then rp_state p' = PD_RECEIVER_PROTOCOL_COMPLETE \<and> n = 0 \<and> rp_current_file p' = rp_current_file p \<and>
       delivered c' = Some (accepted_bytes current c) \<and>
       length (accepted_bytes current c) = unat (fb_file_size (rp_current_file p)) \<and>
       hash (accepted_bytes current c) = fb_sha256 (rp_current_file p)
     else rp_state p' = PD_RECEIVER_PROTOCOL_FAILED \<and> delivered c' = delivered c)"
proof (cases "n = 0")
  case False
  have "rp_file_active p" using assms(1,2) by (simp add: protocol_inv_def)
  then show ?thesis
    using False fail_inv [OF assms(1), of PD_RECEIVER_PROTOCOL_MALFORMED_FRAME]
    by (auto simp: pd_receiver_protocol_finish_file_def)
next
  case True
  obtain bs where p: "rp_ops p = Some table" "handler_inv c" "length (rp_sanitized_filename p) = 121" "rp_file_active p"
    "current c = Some (fb_file_size (rp_current_file p), fb_sha256 (rp_current_file p), bs)"
    using assms(1,2) by (auto simp: protocol_inv_def)
  obtain ok c1 where k: "finish_op c = Some (ok, c1)" "handler_inv c1"
    "if ok then current c1 = None \<and> delivered c1 = Some bs \<and>
       length bs = unat (fb_file_size (rp_current_file p)) \<and> hash bs = fb_sha256 (rp_current_file p)
     else delivered c1 = delivered c"
    using handler_finish [OF p(2,5)] by blast
  have "pd_receiver_protocol_finish_file p n c =
    (if \<not> ok then pd_receiver_protocol_fail p PD_RECEIVER_PROTOCOL_HANDLER_ERROR c1
     else Some (PD_RECEIVER_PROTOCOL_OK, Some (p\<lparr>rp_file_active := False, rp_state := PD_RECEIVER_PROTOCOL_COMPLETE\<rparr>), c1))"
    using p(1) k(1) True by (simp add: pd_receiver_protocol_finish_file_def)
  then show ?thesis
    using fail_spec [OF p(1) k(2) p(3), of PD_RECEIVER_PROTOCOL_HANDLER_ERROR] k(2,3) p True
    by (cases ok) (auto simp: accepted_bytes_def protocol_inv_def)
qed

lemma abort_spec:
  assumes "pinv p c"
  shows "\<exists>p' c'. pd_receiver_protocol_abort (Some p) c = Some (Some p', c') \<and> pinv p' c' \<and>
    delivered c' = delivered c \<and> rp_current_file p' = rp_current_file p \<and>
    (if rp_state p = PD_RECEIVER_PROTOCOL_COMPLETE \<or> rp_state p = PD_RECEIVER_PROTOCOL_FAILED
     then p' = p \<and> c' = c else rp_state p' = PD_RECEIVER_PROTOCOL_FAILED \<and> current c' = None)"
proof -
  have p: "rp_ops p = Some table" "handler_inv c" using assms by (auto simp: protocol_inv_def)
  obtain c' where "abort_op c = Some c'" "handler_inv c'" "current c' = None" "delivered c' = delivered c"
    using handler_abort [OF p(2)] by blast
  then show ?thesis
    using assms p by (cases "rp_state p") (simp_all add: pd_receiver_protocol_abort_def protocol_release_def protocol_inv_def)
qed

end

section \<open>One frame\<close>

text \<open>
  What accepting a frame means: the first frame announces a file, every further one is a chunk
  appended to it, and the last one completes it.
\<close>

definition frame_accepted where
  "frame_accepted current delivered hash h payload n p c p' c' \<longleftrightarrow>
     frame_consistent h n \<and>
     (rp_state p = PD_RECEIVER_PROTOCOL_WAIT_FILE \<and> fh_type h = PD_MSG_FILE_BEGIN \<and>
        rp_state p' = PD_RECEIVER_PROTOCOL_RECEIVING \<and> accepted_bytes current c' = [] \<and>
        (\<exists>fsize sha name. wire_name name \<and> length sha = 32 \<and>
           take n (the_default [] payload) = file_begin_wire fsize sha name \<and>
           rp_current_file p' = file_begin_of fsize sha name \<and> safe_name (sanitized name) \<and>
           c_str (rp_sanitized_filename p') = sanitized name)
      \<or> rp_state p = PD_RECEIVER_PROTOCOL_RECEIVING \<and> fh_type h = PD_MSG_CHUNK \<and> p' = p \<and> 0 < n \<and>
        accepted_bytes current c' = accepted_bytes current c @ take n (the_default [] payload) \<and>
        delivered c' = delivered c
      \<or> rp_state p = PD_RECEIVER_PROTOCOL_RECEIVING \<and> fh_type h = PD_MSG_FILE_END \<and> n = 0 \<and>
        rp_state p' = PD_RECEIVER_PROTOCOL_COMPLETE \<and> rp_current_file p' = rp_current_file p \<and>
        delivered c' = Some (accepted_bytes current c) \<and>
        length (accepted_bytes current c) = unat (fb_file_size (rp_current_file p)) \<and>
        hash (accepted_bytes current c) = fb_sha256 (rp_current_file p))"

definition protocol_done :: "'c pd_receiver_protocol \<Rightarrow> bool" where
  "protocol_done p \<longleftrightarrow> rp_state p = PD_RECEIVER_PROTOCOL_COMPLETE \<or> rp_state p = PD_RECEIVER_PROTOCOL_FAILED"

lemma msg_types_distinct [simp]: "PD_MSG_CHUNK \<noteq> PD_MSG_FILE_END" "PD_MSG_FILE_END \<noteq> PD_MSG_CHUNK"
  "PD_MSG_FILE_BEGIN \<noteq> PD_MSG_CHUNK" "PD_MSG_FILE_BEGIN \<noteq> PD_MSG_FILE_END"
  "PD_MSG_CHUNK \<noteq> PD_MSG_FILE_BEGIN" "PD_MSG_FILE_END \<noteq> PD_MSG_FILE_BEGIN"
  by (simp_all add: PD_MSG_defs)

context receive_handler
begin

lemma begin_file_absent:
  assumes "pinv p c"
  shows "\<exists>p' c'. pd_receiver_protocol_begin_file p None n c = Some (PD_RECEIVER_PROTOCOL_INVALID_METADATA, Some p', c') \<and>
    pinv p' c' \<and> rp_state p' = PD_RECEIVER_PROTOCOL_FAILED"
  using fail_inv [OF assms, of PD_RECEIVER_PROTOCOL_INVALID_METADATA]
  by (auto simp: pd_receiver_protocol_begin_file_def pd_file_begin_decode_def)

lemma handle_dispatch:
  assumes "pinv p c" and "payload = None \<longrightarrow> n = 0" and "\<not> protocol_done p"
  shows "pd_receiver_protocol_handle (Some p) (Some h) payload n c =
    (if \<not> frame_consistent h n then pd_receiver_protocol_fail p PD_RECEIVER_PROTOCOL_MALFORMED_FRAME c
     else if rp_state p = PD_RECEIVER_PROTOCOL_WAIT_FILE \<and> fh_type h = PD_MSG_FILE_BEGIN
     then pd_receiver_protocol_begin_file p payload n c
     else if rp_state p = PD_RECEIVER_PROTOCOL_RECEIVING \<and> fh_type h = PD_MSG_CHUNK
     then pd_receiver_protocol_write_chunk p payload n c
     else if rp_state p = PD_RECEIVER_PROTOCOL_RECEIVING \<and> fh_type h = PD_MSG_FILE_END
     then pd_receiver_protocol_finish_file p n c
     else pd_receiver_protocol_fail p PD_RECEIVER_PROTOCOL_UNEXPECTED_MESSAGE c)"
proof -
  have ops: "pd_receiver_protocol_ops_valid (rp_ops p)"
    using assms(1) by (simp add: protocol_inv_def)
  have st: "rp_state p = PD_RECEIVER_PROTOCOL_WAIT_FILE \<or> rp_state p = PD_RECEIVER_PROTOCOL_RECEIVING"
    using assms(3) by (cases "rp_state p") (simp_all add: protocol_done_def)
  show ?thesis
    unfolding pd_receiver_protocol_handle_def prod.case option.case frame_consistent_guard
    using ops st assms(2) by auto
qed

lemma handle_spec:
  assumes "pinv p c" and "n \<le> length (the_default [] payload)" and "payload = None \<longrightarrow> n = 0"
  shows "\<exists>res p' c'. pd_receiver_protocol_handle (Some p) (Some h) payload n c = Some (res, Some p', c') \<and>
    pinv p' c' \<and>
    (if protocol_done p then res = PD_RECEIVER_PROTOCOL_INVALID_STATE \<and> p' = p \<and> c' = c
     else if res = PD_RECEIVER_PROTOCOL_OK then frame_accepted current delivered hash h payload n p c p' c'
     else rp_state p' = PD_RECEIVER_PROTOCOL_FAILED \<and>
       (rp_state p = PD_RECEIVER_PROTOCOL_RECEIVING \<longrightarrow> delivered c' = delivered c \<and> current c' = None))"
proof (cases "protocol_done p")
  case True
  have "pd_receiver_protocol_ops_valid (rp_ops p)" using assms(1) by (simp add: protocol_inv_def)
  then show ?thesis
    using True assms by (auto simp: pd_receiver_protocol_handle_def protocol_done_def)
next
  case False
  note dispatch = handle_dispatch [OF assms(1,3) False, of h]
  have act: "rp_state p = PD_RECEIVER_PROTOCOL_RECEIVING \<Longrightarrow> rp_file_active p"
    using assms(1) by (simp add: protocol_inv_def)
  consider (begin_file) "frame_consistent h n" "rp_state p = PD_RECEIVER_PROTOCOL_WAIT_FILE" "fh_type h = PD_MSG_FILE_BEGIN"
    | (chunk) "frame_consistent h n" "rp_state p = PD_RECEIVER_PROTOCOL_RECEIVING" "fh_type h = PD_MSG_CHUNK"
    | (finish) "frame_consistent h n" "rp_state p = PD_RECEIVER_PROTOCOL_RECEIVING" "fh_type h = PD_MSG_FILE_END"
    | (malformed) "\<not> frame_consistent h n"
    | (unexpected) "frame_consistent h n" "\<not> (rp_state p = PD_RECEIVER_PROTOCOL_WAIT_FILE \<and> fh_type h = PD_MSG_FILE_BEGIN)"
        "\<not> (rp_state p = PD_RECEIVER_PROTOCOL_RECEIVING \<and> (fh_type h = PD_MSG_CHUNK \<or> fh_type h = PD_MSG_FILE_END))"
    by blast
  then show ?thesis
  proof cases
    case begin_file
    show ?thesis
    proof (cases payload)
      case None
      then show ?thesis unfolding dispatch using begin_file begin_file_absent [OF assms(1), of n] False by auto
    next
      case (Some d)
      then have len: "n \<le> length d" using assms(2) by simp
      obtain res p' c' where "pd_receiver_protocol_begin_file p payload n c = Some (res, Some p', c')" "pinv p' c'"
        "res = PD_RECEIVER_PROTOCOL_OK \<Longrightarrow> frame_accepted current delivered hash h payload n p c p' c'"
        "res \<noteq> PD_RECEIVER_PROTOCOL_OK \<Longrightarrow> rp_state p' = PD_RECEIVER_PROTOCOL_FAILED"
        using begin_file_spec [OF assms(1) begin_file(2) len] begin_file Some by (auto simp: frame_accepted_def)
      then show ?thesis unfolding dispatch using begin_file False by simp
    qed
  next
    case chunk
    obtain res p' c' where "pd_receiver_protocol_write_chunk p payload n c = Some (res, Some p', c')" "pinv p' c'"
      "res = PD_RECEIVER_PROTOCOL_OK \<Longrightarrow> frame_accepted current delivered hash h payload n p c p' c'"
      "res \<noteq> PD_RECEIVER_PROTOCOL_OK \<Longrightarrow>
        rp_state p' = PD_RECEIVER_PROTOCOL_FAILED \<and> delivered c' = delivered c \<and> current c' = None"
      using write_chunk_spec [OF assms(1) chunk(2) assms(2,3)] chunk by (auto simp: frame_accepted_def)
    then show ?thesis unfolding dispatch using chunk False by simp
  next
    case finish
    obtain res p' c' where "pd_receiver_protocol_finish_file p n c = Some (res, Some p', c')" "pinv p' c'"
      "res = PD_RECEIVER_PROTOCOL_OK \<Longrightarrow> frame_accepted current delivered hash h payload n p c p' c'"
      "res \<noteq> PD_RECEIVER_PROTOCOL_OK \<Longrightarrow>
        rp_state p' = PD_RECEIVER_PROTOCOL_FAILED \<and> delivered c' = delivered c \<and> current c' = None"
      using finish_file_spec [OF assms(1) finish(2), of n] finish by (auto simp: frame_accepted_def)
    then show ?thesis unfolding dispatch using finish False by simp
  next
    case malformed
    then show ?thesis
      using fail_inv [OF assms(1), of PD_RECEIVER_PROTOCOL_MALFORMED_FRAME] False act by (auto simp: dispatch)
  next
    case unexpected
    then have "pd_receiver_protocol_handle (Some p) (Some h) payload n c =
        pd_receiver_protocol_fail p PD_RECEIVER_PROTOCOL_UNEXPECTED_MESSAGE c"
      unfolding dispatch by auto
    then show ?thesis
      using fail_inv [OF assms(1), of PD_RECEIVER_PROTOCOL_UNEXPECTED_MESSAGE] False act by auto
  qed
qed

end

section \<open>A handler in memory\<close>

text \<open>A handler that keeps the file in memory and checks it at the end, for the witnesses.\<close>

type_synonym mem_handler = "(u64 \<times> u8 list \<times> u8 list) option \<times> u8 list option"

definition zero_hash :: "u8 list \<Rightarrow> u8 list" where
  "zero_hash bs = replicate 32 0"

definition memh_begin :: "mem_handler \<Rightarrow> pd_file_begin option \<Rightarrow> u8 list option \<Rightarrow> (bool \<times> mem_handler) option" where
  "memh_begin c md name = do { m \<leftarrow> md; Some (True, Some (fb_file_size m, fb_sha256 m, []), snd c) }"

definition memh_chunk :: "mem_handler \<Rightarrow> u8 list option \<Rightarrow> nat \<Rightarrow> (bool \<times> mem_handler) option" where
  "memh_chunk c data n = do {
     d \<leftarrow> data; xs \<leftarrow> mem_slice d 0 n;
     Some (case fst c of
       None \<Rightarrow> (False, c)
     | Some (fsize, sha, bs) \<Rightarrow>
         if length bs + n \<le> unat fsize then (True, Some (fsize, sha, bs @ xs), snd c) else (False, c)) }"

definition memh_finish :: "mem_handler \<Rightarrow> (bool \<times> mem_handler) option" where
  "memh_finish c = Some (case fst c of
     None \<Rightarrow> (False, c)
   | Some (fsize, sha, bs) \<Rightarrow>
       if length bs = unat fsize \<and> zero_hash bs = sha then (True, None, Some bs) else (False, c))"

definition memh_abort :: "mem_handler \<Rightarrow> mem_handler option" where
  "memh_abort c = Some (None, snd c)"

lemmas memory_handler = memh_begin_def memh_chunk_def memh_finish_def memh_abort_def zero_hash_def

interpretation memory_handler: receive_handler memh_begin memh_chunk memh_finish memh_abort "\<lambda>_. True" fst snd zero_hash
proof unfold_locales
  fix c :: mem_handler and announced sha bs n and d :: "u8 list"
  assume "fst c = Some (announced, sha, bs)" "n \<le> length d" "0 < n"
  then show "\<exists>ok c'. memh_chunk c (Some d) n = Some (ok, c') \<and> True \<and> snd c' = snd c \<and>
      (ok \<longrightarrow> fst c' = Some (announced, sha, bs @ take n d) \<and> length bs + n \<le> unat announced)"
    by (cases c; cases "length bs + n \<le> unat announced") (auto simp: memh_chunk_def mem_slice_def)
next
  fix c :: mem_handler and announced sha bs
  assume "fst c = Some (announced, sha, bs)"
  then show "\<exists>ok c'. memh_finish c = Some (ok, c') \<and> True \<and>
      (if ok then fst c' = None \<and> snd c' = Some bs \<and> length bs = unat announced \<and> zero_hash bs = sha
       else snd c' = snd c)"
    by (cases c; cases "length bs = unat announced \<and> zero_hash bs = sha") (auto simp: memh_finish_def)
qed (auto simp: memh_begin_def memh_abort_def)

abbreviation mem_table :: "mem_handler pd_receiver_protocol_ops" where
  "mem_table \<equiv> handler_table memh_begin memh_chunk memh_finish memh_abort"

section \<open>Properties\<close>

text \<open>C8: With any handler that keeps its contract, the protocol takes every frame, well-formed or not,
  without undefined behaviour and keeps its invariant. A frame is accepted only as the announcement of
  a file while none is active, as a non-empty chunk of the active file, or as its end; only the last
  delivers a file, and it delivers exactly the accepted bytes, of the announced size and digest. Every
  other frame moves the protocol to its failed state, and a finished protocol ignores frames.\<close>

theorem protocol_handle_sound:
  assumes "receive_handler bo ko fo ao hinv current delivered hash"
    and "protocol_inv (handler_table bo ko fo ao) hinv current p c"
    and "n \<le> length (the_default [] payload)" and "payload = None \<longrightarrow> n = 0"
  shows "\<exists>res p' c'. pd_receiver_protocol_handle (Some p) (Some h) payload n c = Some (res, Some p', c') \<and>
    protocol_inv (handler_table bo ko fo ao) hinv current p' c' \<and>
    (if protocol_done p then res = PD_RECEIVER_PROTOCOL_INVALID_STATE \<and> p' = p \<and> c' = c
     else if res = PD_RECEIVER_PROTOCOL_OK then frame_accepted current delivered hash h payload n p c p' c'
     else rp_state p' = PD_RECEIVER_PROTOCOL_FAILED \<and>
       (rp_state p = PD_RECEIVER_PROTOCOL_RECEIVING \<longrightarrow> delivered c' = delivered c \<and> current c' = None))"
  by (rule receive_handler.handle_spec [OF assms])

definition example_protocol :: "mem_handler pd_receiver_protocol" where
  "example_protocol = \<lparr>rp_ops = Some mem_table, rp_current_file = file_begin_of 2 (replicate 32 0) (c_lit ''a''),
     rp_sanitized_filename = c_lit ''a'' @ replicate 120 0, rp_state = PD_RECEIVER_PROTOCOL_RECEIVING,
     rp_file_active = True\<rparr>"

lemma safe_a: "safe_name (c_lit ''a'')"
  by code_simp

lemma c_str_replicate [simp]: "0 < k \<Longrightarrow> 0 \<notin> set s \<Longrightarrow> c_str (s @ replicate k 0) = s"
  by (cases k) simp_all

lemma example_protocol_inv: "protocol_inv mem_table (\<lambda>_. True) fst example_protocol (Some (2, replicate 32 0, [7]), None)"
  using safe_a safe_name_no_nul [OF safe_a] by (simp add: protocol_inv_def example_protocol_def del: of_char_of)

theorem protocol_handle_sound_witness:
  "\<exists>p' c'. pd_receiver_protocol_handle (Some example_protocol)
      (Some \<lparr>fh_type = PD_MSG_FILE_END, fh_flags = 0, fh_payload_length = 0\<rparr>) None 0
      (Some (2, replicate 32 0, [7]), None) = Some (PD_RECEIVER_PROTOCOL_HANDLER_ERROR, Some p', c') \<and>
    rp_state p' = PD_RECEIVER_PROTOCOL_FAILED \<and> snd c' = None"
proof -
  let ?h = "\<lparr>fh_type = PD_MSG_FILE_END, fh_flags = 0, fh_payload_length = 0\<rparr>"
  obtain res p' c' where r: "pd_receiver_protocol_handle (Some example_protocol) (Some ?h) None 0
      (Some (2, replicate 32 0, [7]), None) = Some (res, Some p', c')"
    "res \<noteq> PD_RECEIVER_PROTOCOL_OK \<Longrightarrow> rp_state p' = PD_RECEIVER_PROTOCOL_FAILED \<and> snd c' = None"
    using protocol_handle_sound [OF memory_handler.receive_handler_axioms example_protocol_inv, of 0 None ?h]
    by (auto simp: example_protocol_def protocol_done_def split: if_splits)
  moreover have "res = PD_RECEIVER_PROTOCOL_HANDLER_ERROR"
    using r(1) by (auto simp: pd_receiver_protocol_handle_def example_protocol_def PD_MSG_defs
      pd_message_type_is_valid_iff pd_receiver_protocol_finish_file_def memh_finish_def
      pd_receiver_protocol_fail_def protocol_release_def memh_abort_def)
  ultimately show ?thesis by simp
qed

text \<open>Aborting the protocol never changes a delivered file, leaves no file active in the handler, and
  does nothing once the protocol has completed or failed.\<close>

lemma protocol_abort_safe:
  assumes "receive_handler bo ko fo ao hinv current delivered hash"
    and "protocol_inv (handler_table bo ko fo ao) hinv current p c"
  shows "\<exists>p' c'. pd_receiver_protocol_abort (Some p) c = Some (Some p', c') \<and>
    protocol_inv (handler_table bo ko fo ao) hinv current p' c' \<and> delivered c' = delivered c \<and>
    (if protocol_done p then p' = p \<and> c' = c
     else rp_state p' = PD_RECEIVER_PROTOCOL_FAILED \<and> \<not> rp_file_active p' \<and> current c' = None)"
proof -
  obtain p' c' where "pd_receiver_protocol_abort (Some p) c = Some (Some p', c')"
    "protocol_inv (handler_table bo ko fo ao) hinv current p' c'" "delivered c' = delivered c"
    "if protocol_done p then p' = p \<and> c' = c else rp_state p' = PD_RECEIVER_PROTOCOL_FAILED \<and> current c' = None"
    using receive_handler.abort_spec [OF assms] unfolding protocol_done_def by blast
  moreover have "rp_state p' = PD_RECEIVER_PROTOCOL_FAILED \<Longrightarrow> \<not> rp_file_active p'"
    using calculation(2) by (simp add: protocol_inv_def)
  ultimately show ?thesis by simp
qed

end
