(* ===== verification/PD_Win32ReceiveHandler.thy ===== *)
theory PD_Win32ReceiveHandler
  imports PD_Win32FileSink PD_Win32Crypto PD_ReceiverProtocol
begin

text \<open>
  The receive handler of the Windows receiver (\<^verbatim>\<open>win32_receive_handler.c\<close>): the object behind the
  protocol's callbacks. It draws a job identifier, places a file sink below its receive directory,
  and drives one file receiver over that sink and the SHA-256 backend.

  The state is the handler object with the file system \<open>'f\<close> and the cryptographic service \<open>'b\<close>. The
  handler is shown to keep the contract \<open>receive_handler\<close> of the protocol for every file system and
  service that keep theirs.
\<close>

section \<open>Data\<close>

record ('f, 'b) pd_win32_receive_handler =
  wh_root_directory :: "wchar list"
  wh_job_id :: "u8 list"
  wh_sink :: pd_win32_file_sink
  wh_sha256 :: pd_win32_sha256
  wh_receiver :: "('f sink_state, 'b sha_state) pd_file_receiver"
  wh_initialized :: bool
  wh_active :: bool

datatype pd_win32_receive_handler_result =
    PD_WIN32_RECEIVE_HANDLER_OK
  | PD_WIN32_RECEIVE_HANDLER_INVALID_ARGUMENT
  | PD_WIN32_RECEIVE_HANDLER_PATH_TOO_LONG

type_synonym ('f, 'b) handler_world = "('f, 'b) pd_win32_receive_handler \<times> 'f \<times> 'b"

section \<open>Operations\<close>

text \<open>The object after \<^verbatim>\<open>memset\<close>: null pointers, zero bytes and the enumeration values of zero.\<close>

definition zero_handler :: "('f, 'b) pd_win32_receive_handler" where
  "zero_handler = \<lparr>wh_root_directory = replicate PD_WIN32_PATH_CAPACITY 0, wh_job_id = replicate PD_JOB_ID_CAPACITY 0,
     wh_sink = \<lparr>ws_file_handle = 0, ws_job_directory = replicate PD_WIN32_PATH_CAPACITY 0,
       ws_staging_path = replicate PD_WIN32_PATH_CAPACITY 0, ws_final_path = replicate PD_WIN32_PATH_CAPACITY 0,
       ws_initialized = False\<rparr>,
     wh_sha256 = zero_sha256,
     wh_receiver = \<lparr>fr_sink_ops = None, fr_integrity_ops = None, fr_expected_sha256 = replicate PD_SHA256_BYTES 0,
       fr_expected_bytes = 0, fr_received_bytes = 0, fr_state = PD_FILE_RECEIVE_IDLE, fr_sink_started = False,
       fr_integrity_configured = False, fr_integrity_started = False\<rparr>,
     wh_initialized = False, wh_active = False\<rparr>"

definition pd_win32_receive_handler_init ::
  "('f, 'b) pd_win32_receive_handler option \<Rightarrow> wchar list option \<Rightarrow>
   (pd_win32_receive_handler_result \<times> ('f, 'b) pd_win32_receive_handler option) option" where
  "pd_win32_receive_handler_init handler root_directory =
     (case (handler, root_directory) of
        (Some h, Some root) \<Rightarrow> do {
          first \<leftarrow> rd root 0;
          if first = 0 then Some (PD_WIN32_RECEIVE_HANDLER_INVALID_ARGUMENT, handler)
          else do {
            root_length \<leftarrow> wcslen root;
            if PD_WIN32_PATH_CAPACITY < root_length + 1 then Some (PD_WIN32_RECEIVE_HANDLER_PATH_TOO_LONG, handler)
            else do {
              let h = zero_handler;
              d \<leftarrow> memcpy (wh_root_directory h) 0 root 0 (root_length + 1);
              Some (PD_WIN32_RECEIVE_HANDLER_OK, Some (h\<lparr>wh_root_directory := d, wh_initialized := True\<rparr>)) } } }
      | _ \<Rightarrow> Some (PD_WIN32_RECEIVE_HANDLER_INVALID_ARGUMENT, handler))"

definition pd_win32_receive_begin ::
  "'f win32_file_api \<Rightarrow> 'b bcrypt_api \<Rightarrow> ('f, 'b) pd_win32_receive_handler option \<Rightarrow> pd_file_begin option \<Rightarrow> u8 list option \<Rightarrow>
   'f \<Rightarrow> 'b \<Rightarrow> (bool \<times> ('f, 'b) pd_win32_receive_handler option \<times> 'f \<times> 'b) option" where
  "pd_win32_receive_begin fapi bapi context metadata sanitized_filename f b =
     (case (context, metadata, sanitized_filename) of
        (Some h, Some md, Some _) \<Rightarrow>
          if \<not> wh_initialized h \<or> wh_active h then Some (False, context, f, b)
          else do {
            (jr, job_id, b) \<leftarrow> pd_job_id_create (Some (wh_job_id h)) (Some (win32_fill bapi)) b;
            job_id \<leftarrow> job_id;
            let h = h\<lparr>wh_job_id := job_id\<rparr>;
            if jr \<noteq> PD_JOB_ID_OK then Some (False, Some h, f, b)
            else do {
              (sr, sink, f) \<leftarrow> pd_win32_file_sink_init fapi (Some (wh_sink h)) (Some (wh_root_directory h))
                (Some (wh_job_id h)) sanitized_filename f;
              sink \<leftarrow> sink;
              let h = h\<lparr>wh_sink := sink\<rparr>;
              if sr \<noteq> PD_WIN32_SINK_OK then Some (False, Some h, f, b)
              else do {
                sha \<leftarrow> pd_win32_sha256_init (Some (wh_sha256 h));
                let h = h\<lparr>wh_sha256 := sha\<rparr>;
                let (rr, receiver) = pd_file_receiver_init (Some (wh_receiver h)) (Some (pd_win32_file_sink_ops fapi)) (fb_file_size md);
                receiver \<leftarrow> receiver;
                let h = h\<lparr>wh_receiver := receiver\<rparr>;
                if rr \<noteq> PD_FILE_RECEIVE_OK then Some (False, Some h, f, b)
                else do {
                  (cr, receiver) \<leftarrow> pd_file_receiver_configure_integrity (Some (wh_receiver h)) (Some (pd_win32_sha256_ops bapi))
                    (Some (fb_sha256 md));
                  receiver \<leftarrow> receiver;
                  let h = h\<lparr>wh_receiver := receiver\<rparr>;
                  if cr \<noteq> PD_FILE_RECEIVE_OK then Some (False, Some h, f, b)
                  else do {
                    (br, receiver, (sink, f), (sha, b)) \<leftarrow>
                      pd_file_receiver_begin (Some (wh_receiver h)) (wh_sink h, f) (wh_sha256 h, b);
                    receiver \<leftarrow> receiver;
                    let h = h\<lparr>wh_receiver := receiver, wh_sink := sink, wh_sha256 := sha\<rparr>;
                    if br \<noteq> PD_FILE_RECEIVE_OK then Some (False, Some h, f, b)
                    else Some (True, Some (h\<lparr>wh_active := True\<rparr>), f, b) } } } } }
      | _ \<Rightarrow> Some (False, context, f, b))"

definition pd_win32_receive_chunk ::
  "('f, 'b) pd_win32_receive_handler option \<Rightarrow> u8 list option \<Rightarrow> nat \<Rightarrow> 'f \<Rightarrow> 'b \<Rightarrow>
   (bool \<times> ('f, 'b) pd_win32_receive_handler option \<times> 'f \<times> 'b) option" where
  "pd_win32_receive_chunk context data data_size f b =
     (case context of
        None \<Rightarrow> Some (False, context, f, b)
      | Some h \<Rightarrow>
          if \<not> wh_active h then Some (False, context, f, b)
          else do {
            (result, receiver, (sink, f), (sha, b)) \<leftarrow>
              pd_file_receiver_write (Some (wh_receiver h)) data data_size (wh_sink h, f) (wh_sha256 h, b);
            receiver \<leftarrow> receiver;
            Some (result = PD_FILE_RECEIVE_OK,
              Some (h\<lparr>wh_receiver := receiver, wh_sink := sink, wh_sha256 := sha\<rparr>), f, b) })"

definition pd_win32_receive_finish ::
  "('f, 'b) pd_win32_receive_handler option \<Rightarrow> 'f \<Rightarrow> 'b \<Rightarrow> (bool \<times> ('f, 'b) pd_win32_receive_handler option \<times> 'f \<times> 'b) option" where
  "pd_win32_receive_finish context f b =
     (case context of
        None \<Rightarrow> Some (False, context, f, b)
      | Some h \<Rightarrow>
          if \<not> wh_active h then Some (False, context, f, b)
          else do {
            (result, receiver, (sink, f), (sha, b)) \<leftarrow>
              pd_file_receiver_finish (Some (wh_receiver h)) (wh_sink h, f) (wh_sha256 h, b);
            receiver \<leftarrow> receiver;
            Some (result = PD_FILE_RECEIVE_OK,
              Some (h\<lparr>wh_receiver := receiver, wh_sink := sink, wh_sha256 := sha, wh_active := False\<rparr>), f, b) })"

definition pd_win32_receive_abort ::
  "('f, 'b) pd_win32_receive_handler option \<Rightarrow> 'f \<Rightarrow> 'b \<Rightarrow> (('f, 'b) pd_win32_receive_handler option \<times> 'f \<times> 'b) option" where
  "pd_win32_receive_abort context f b =
     (case context of
        None \<Rightarrow> Some (context, f, b)
      | Some h \<Rightarrow>
          if \<not> wh_active h then Some (context, f, b)
          else do {
            (receiver, (sink, f), (sha, b)) \<leftarrow> pd_file_receiver_abort (Some (wh_receiver h)) (wh_sink h, f) (wh_sha256 h, b);
            receiver \<leftarrow> receiver;
            Some (Some (h\<lparr>wh_receiver := receiver, wh_sink := sink, wh_sha256 := sha, wh_active := False\<rparr>), f, b) })"

definition handler_begin_fn ::
  "'f win32_file_api \<Rightarrow> 'b bcrypt_api \<Rightarrow> ('f, 'b) handler_world \<Rightarrow> pd_file_begin option \<Rightarrow> u8 list option \<Rightarrow>
   (bool \<times> ('f, 'b) handler_world) option" where
  "handler_begin_fn fapi bapi w md name = (case w of (h, f, b) \<Rightarrow> do {
     (ok, h', f, b) \<leftarrow> pd_win32_receive_begin fapi bapi (Some h) md name f b; h' \<leftarrow> h'; Some (ok, h', f, b) })"

definition handler_chunk_fn ::
  "('f, 'b) handler_world \<Rightarrow> u8 list option \<Rightarrow> nat \<Rightarrow> (bool \<times> ('f, 'b) handler_world) option" where
  "handler_chunk_fn w d n = (case w of (h, f, b) \<Rightarrow> do {
     (ok, h', f, b) \<leftarrow> pd_win32_receive_chunk (Some h) d n f b; h' \<leftarrow> h'; Some (ok, h', f, b) })"

definition handler_finish_fn :: "('f, 'b) handler_world \<Rightarrow> (bool \<times> ('f, 'b) handler_world) option" where
  "handler_finish_fn w = (case w of (h, f, b) \<Rightarrow> do {
     (ok, h', f, b) \<leftarrow> pd_win32_receive_finish (Some h) f b; h' \<leftarrow> h'; Some (ok, h', f, b) })"

definition handler_abort_fn :: "('f, 'b) handler_world \<Rightarrow> ('f, 'b) handler_world option" where
  "handler_abort_fn w = (case w of (h, f, b) \<Rightarrow> do {
     (h', f, b) \<leftarrow> pd_win32_receive_abort (Some h) f b; h' \<leftarrow> h'; Some (h', f, b) })"

definition pd_win32_receive_handler_ops ::
  "'f win32_file_api \<Rightarrow> 'b bcrypt_api \<Rightarrow> ('f, 'b) handler_world pd_receiver_protocol_ops" where
  "pd_win32_receive_handler_ops fapi bapi =
     handler_table (handler_begin_fn fapi bapi) handler_chunk_fn handler_finish_fn handler_abort_fn"

definition pd_win32_receive_handler_final_path :: "('f, 'b) pd_win32_receive_handler option \<Rightarrow> wchar list option option" where
  "pd_win32_receive_handler_final_path handler =
     (case handler of
        None \<Rightarrow> Some None
      | Some h \<Rightarrow>
          if \<not> wh_initialized h then Some None
          else do {
            first \<leftarrow> rd (ws_final_path (wh_sink h)) 0;
            Some (if first = 0 then None else Some (ws_final_path (wh_sink h))) })"

section \<open>The handler keeps the contract of the protocol\<close>

locale win32_env =
  win32_jobs fapi canon files opened root + bcrypt_service bapi live hashing hash
  for fapi :: "'f win32_file_api" and canon :: "wchar list \<Rightarrow> 'k" and files opened root
    and bapi :: "'b bcrypt_api" and live hashing hash

sublocale win32_env \<subseteq> recv: receive_env "sink_begin_fn fapi" "sink_write_fn fapi" "sink_commit_fn fapi" "sink_abort_fn fapi"
  "wsink_job_inv canon files opened root" "wsink_staged canon files" "wsink_published canon files"
  "sha_begin_fn bapi" "sha_update_fn bapi" "sha_finish_fn bapi" "sha_abort_fn bapi"
  "sha_inv live hashing" "sha_absorbed hashing" hash
  by intro_locales

text \<open>The receiver of a handler is in its own invariant while the handler is active.\<close>

definition handler_shape :: "wchar list \<Rightarrow> ('f, 'b) pd_win32_receive_handler \<Rightarrow> bool" where
  "handler_shape root h \<longleftrightarrow> w_str (wh_root_directory h) = root \<and> length (wh_root_directory h) = 260 \<and> 0 \<in> set (wh_root_directory h) \<and> length (wh_job_id h) = 33"

definition whandler_inv where
  "whandler_inv fapi canon files opened root bapi live hashing w \<longleftrightarrow> (case w of (h, f, b) \<Rightarrow>
     handler_shape root h \<and>
     (wh_active h \<longrightarrow> fr_integrity_configured (wh_receiver h) \<and>
        recv_inv (pd_win32_file_sink_ops fapi) (pd_win32_sha256_ops bapi) (wsink_job_inv canon files opened root) (wsink_staged canon files)
          (sha_inv live hashing) (sha_absorbed hashing) (wh_receiver h) (wh_sink h, f) (wh_sha256 h, b)))"

definition whandler_current where
  "whandler_current canon files w = (case w of (h, f, b) \<Rightarrow>
     if wh_active h \<and> fr_state (wh_receiver h) = PD_FILE_RECEIVE_RECEIVING
     then Some (fr_expected_bytes (wh_receiver h), fr_expected_sha256 (wh_receiver h),
            the_default [] (wsink_staged canon files (wh_sink h, f)))
     else None)"

definition whandler_delivered where
  "whandler_delivered canon files root w = (case w of (h, f, b) \<Rightarrow>
     if sink_located root (wh_sink h) then wsink_published canon files (wh_sink h, f) else None)"

lemmas handler_views = whandler_inv_def whandler_current_def whandler_delivered_def

context win32_env
begin

abbreviation "winv \<equiv> whandler_inv fapi canon files opened root bapi live hashing"

abbreviation "wcurrent \<equiv> whandler_current canon files"

abbreviation "wdelivered \<equiv> whandler_delivered canon files root"

lemma win_tables:
  "pd_win32_file_sink_ops fapi = recv.stab" "pd_win32_sha256_ops bapi = recv.itab"
  by (simp_all add: pd_win32_file_sink_ops_def pd_win32_sha256_ops_def)


text \<open>The set-up of a job: the two backends are at rest, the receiver begins on them.\<close>

lemma receiver_started:
  assumes "wsink_job_inv canon files opened root (sink, f)" and "staged_s (sink, f) = None" and "length sha = 32"
  shows "\<exists>r1 r2 br r3 sink' f' c' b'.
    pd_file_receiver_init (Some r0) (Some (pd_win32_file_sink_ops fapi)) n = (PD_FILE_RECEIVE_OK, Some r1) \<and>
    pd_file_receiver_configure_integrity (Some r1) (Some (pd_win32_sha256_ops bapi)) (Some sha) = Some (PD_FILE_RECEIVE_OK, Some r2) \<and>
    pd_file_receiver_begin (Some r2) (sink, f) (zero_sha256, b) = Some (br, Some r3, (sink', f'), (c', b')) \<and>
    (br = PD_FILE_RECEIVE_OK \<longrightarrow> recv.rinv r3 (sink', f') (c', b') \<and> fr_integrity_configured r3 \<and>
       fr_state r3 = PD_FILE_RECEIVE_RECEIVING \<and> staged_s (sink', f') = Some [] \<and>
       fr_expected_bytes r3 = n \<and> fr_expected_sha256 r3 = sha)"
proof -
  have h: "inv_h (zero_sha256, b)" "absorbed_h (zero_sha256, b) = None" by (simp_all add: sha_absorbed_def)
  obtain r1 r2 where c: "pd_file_receiver_init (Some r0) (Some recv.stab) n = (PD_FILE_RECEIVE_OK, Some r1)"
    "pd_file_receiver_configure_integrity (Some r1) (Some recv.itab) (Some sha) = Some (PD_FILE_RECEIVE_OK, Some r2)"
    "recv.rinv r2 (sink, f) (zero_sha256, b)" "fr_state r2 = PD_FILE_RECEIVE_IDLE" "fr_expected_bytes r2 = n"
    "fr_expected_sha256 r2 = sha" "fr_integrity_configured r2"
    using recv.init_configure [OF assms(1) h(1) assms(2) h(2) assms(3)] by metis
  from recv.begin_spec [OF c(3,4)] c show ?thesis
    unfolding win_tables by (auto split: if_splits)
qed

lemma handler_begin_ok:
  assumes "winv (h, f, b)" and "wcurrent (h, f, b) = None" and "file_begin_shape md" and "0 \<in> set name"
  shows "\<exists>ok w'. handler_begin_fn fapi bapi (h, f, b) (Some md) (Some name) = Some (ok, w') \<and> winv w' \<and>
    wcurrent w' = (if ok then Some (fb_file_size md, fb_sha256 md, []) else None)"
proof (cases "wh_initialized h \<and> \<not> wh_active h")
  case False
  then show ?thesis using assms(1,2) by (auto simp: handler_begin_fn_def pd_win32_receive_begin_def)
next
  case True
  have shape: "length (wh_root_directory h) = 260" "0 \<in> set (wh_root_directory h)" "length (wh_job_id h) = 33"
    and root: "w_str (wh_root_directory h) = root"
    using assms(1) by (auto simp: whandler_inv_def handler_shape_def)
  obtain jok bytes b1 where fill: "win32_fill bapi b 16 = (jok, bytes, b1)" by (metis prod_cases3)
  have job: "pd_job_id_create (Some (wh_job_id h)) (Some (win32_fill bapi)) b =
      Some (if jok then (PD_JOB_ID_OK, Some (hex_of bytes @ [0]), b1) else (PD_JOB_ID_ENTROPY_FAILURE, Some (0 # tl (wh_job_id h)), b1))"
    using win_random.job_id_create_eq [OF shape(3), of b] fill by simp
  show ?thesis
  proof (cases jok)
    case False
    then show ?thesis using True job shape root
      by (auto simp: handler_begin_fn_def pd_win32_receive_begin_def handler_views handler_shape_def)
  next
    case drawn: True
    let ?j = "hex_of bytes @ [0]"
    have j: "length ?j = 33" "c_str ?j = hex_of bytes" "lower_hex 32 (hex_of bytes)"
      using win32_fill_length [OF fill] lower_hex_hex_of [of bytes] by (simp_all add: hex_of_no_nul)
    obtain sr sink f1 where si: "pd_win32_file_sink_init fapi (Some (wh_sink h)) (Some (wh_root_directory h)) (Some ?j) (Some name) f =
        Some (sr, Some sink, f1)" "init_outcome fapi (wh_root_directory h) ?j name f sr (wh_sink h) sink"
      using init_spec [OF shape(2) _ assms(4), of ?j "wh_sink h" f] by auto
    show ?thesis
    proof (cases "sr = PD_WIN32_SINK_OK")
      case False
      then show ?thesis using True drawn job si(1) shape root j
        by (auto simp: handler_begin_fn_def pd_win32_receive_begin_def handler_views handler_shape_def)
    next
      case placed: True
      obtain wide where pl: "sink_placed (w_str (wh_root_directory h)) (c_str ?j) wide sink"
        using init_ok_placed si(2) placed by blast
      have ji: "wsink_job_inv canon files opened root (sink, f1)"
        using placed_inv(1) [OF pl] placed_located [OF pl] j assms(1) by (simp add: wsink_job_inv_def whandler_inv_def handler_shape_def)
      have sha: "length (fb_sha256 md) = 32" using assms(3) by (simp add: file_begin_shape_def)
      obtain r1 r2 br r3 sink' f' c' b' where r:
        "pd_file_receiver_init (Some (wh_receiver h)) (Some (pd_win32_file_sink_ops fapi)) (fb_file_size md) = (PD_FILE_RECEIVE_OK, Some r1)"
        "pd_file_receiver_configure_integrity (Some r1) (Some (pd_win32_sha256_ops bapi)) (Some (fb_sha256 md)) = Some (PD_FILE_RECEIVE_OK, Some r2)"
        "pd_file_receiver_begin (Some r2) (sink, f1) (zero_sha256, b1) = Some (br, Some r3, (sink', f'), (c', b'))"
        "br = PD_FILE_RECEIVE_OK \<longrightarrow> recv.rinv r3 (sink', f') (c', b') \<and> fr_integrity_configured r3 \<and>
           fr_state r3 = PD_FILE_RECEIVE_RECEIVING \<and> staged_s (sink', f') = Some [] \<and>
           fr_expected_bytes r3 = fb_file_size md \<and> fr_expected_sha256 r3 = fb_sha256 md"
        using receiver_started [OF ji placed_inv(2) [OF pl] sha] by blast
      then show ?thesis
        using True drawn job si(1) placed shape root j
        by (cases "br = PD_FILE_RECEIVE_OK")
          (auto simp: handler_begin_fn_def pd_win32_receive_begin_def handler_views handler_shape_def
            pd_win32_sha256_init_def win_tables)
    qed
  qed
qed


lemma receiving_view:
  assumes "winv (h, f, b)" and "wcurrent (h, f, b) = Some (announced, sha, bs)"
  shows "wh_active h" and "fr_state (wh_receiver h) = PD_FILE_RECEIVE_RECEIVING" and "staged_s (wh_sink h, f) = Some bs"
    and "fr_expected_bytes (wh_receiver h) = announced" and "fr_expected_sha256 (wh_receiver h) = sha"
    and "fr_integrity_configured (wh_receiver h)" and "recv.rinv (wh_receiver h) (wh_sink h, f) (wh_sha256 h, b)"
    and "handler_shape root h" and "sink_located root (wh_sink h)"
proof -
  show a: "wh_active h" "fr_state (wh_receiver h) = PD_FILE_RECEIVE_RECEIVING"
    "fr_expected_bytes (wh_receiver h) = announced" "fr_expected_sha256 (wh_receiver h) = sha"
    using assms(2) by (auto simp: whandler_current_def split: if_splits)
  show r: "recv.rinv (wh_receiver h) (wh_sink h, f) (wh_sha256 h, b)" "fr_integrity_configured (wh_receiver h)" "handler_shape root h"
    using assms(1) a(1) by (simp_all add: whandler_inv_def win_tables)
  then show "staged_s (wh_sink h, f) = Some bs" "sink_located root (wh_sink h)"
    using assms(2) a(1,2) by (auto simp: whandler_current_def recv_inv_def wsink_job_inv_def)
qed

lemma recv_located: "recv.rinv r (sink, f) (c, b) \<Longrightarrow> sink_located root sink"
  by (simp add: recv_inv_def wsink_job_inv_def)

lemma handler_chunk_ok:
  assumes "winv (h, f, b)" and "wcurrent (h, f, b) = Some (announced, sha, bs)" and "n \<le> length d"
  shows "\<exists>ok w'. handler_chunk_fn (h, f, b) (Some d) n = Some (ok, w') \<and> winv w' \<and> wdelivered w' = wdelivered (h, f, b) \<and>
    (ok \<longrightarrow> wcurrent w' = Some (announced, sha, bs @ take n d) \<and> length bs + n \<le> unat announced)"
proof -
  note v = receiving_view [OF assms(1,2)]
  obtain res r' sink' f' c' b' where w: "pd_file_receiver_write (Some (wh_receiver h)) (Some d) n (wh_sink h, f) (wh_sha256 h, b) =
      Some (res, Some r', (sink', f'), (c', b'))" "recv.rinv r' (sink', f') (c', b')"
    "published_s (sink', f') = published_s (wh_sink h, f)" and
    res: "case res of
       PD_FILE_RECEIVE_OK \<Rightarrow> r' = (wh_receiver h)\<lparr>fr_received_bytes := fr_received_bytes (wh_receiver h) + word_of_nat n\<rparr> \<and>
         staged_s (sink', f') = Some (bs @ take n d) \<and> 0 < n \<and> n \<le> PD_FRAME_MAX_PAYLOAD \<and>
         length bs + n \<le> unat (fr_expected_bytes (wh_receiver h))
     | PD_FILE_RECEIVE_SINK_ERROR \<Rightarrow> r' = failed (wh_receiver h)
     | PD_FILE_RECEIVE_INTEGRITY_ERROR \<Rightarrow> r' = failed (wh_receiver h)
     | _ \<Rightarrow> r' = wh_receiver h \<and> (sink', f') = (wh_sink h, f) \<and> (c', b') = (wh_sha256 h, b)"
    using recv.write_spec [OF v(7,2,3) assms(3)] by (metis surj_pair)
  have w5: "fr_integrity_configured r'" using res v(6) by (cases res) (simp_all add: failed_def)
  let ?h = "h\<lparr>wh_receiver := r', wh_sink := sink', wh_sha256 := c'\<rparr>"
  have "handler_chunk_fn (h, f, b) (Some d) n = Some (res = PD_FILE_RECEIVE_OK, ?h, f', b')"
    using v(1) w(1) by (simp add: handler_chunk_fn_def pd_win32_receive_chunk_def)
  moreover have "winv (?h, f', b')"
    using v(8) w(2) w5 by (simp add: whandler_inv_def win_tables handler_shape_def)
  moreover have "wdelivered (?h, f', b') = wdelivered (h, f, b)"
    using w(3) v(9) recv_located [OF w(2)] by (simp add: whandler_delivered_def)
  moreover have "wcurrent (?h, f', b') = Some (announced, sha, bs @ take n d) \<and> length bs + n \<le> unat announced" if "res = PD_FILE_RECEIVE_OK"
    using res that v by (simp add: whandler_current_def)
  ultimately show ?thesis by blast
qed

lemma handler_finish_ok:
  assumes "winv (h, f, b)" and "wcurrent (h, f, b) = Some (announced, sha, bs)"
  shows "\<exists>ok h' f' b'. handler_finish_fn (h, f, b) = Some (ok, h', f', b') \<and> winv (h', f', b') \<and> \<not> wh_active h' \<and>
    wcurrent (h', f', b') = None \<and>
    (if ok then wdelivered (h', f', b') = Some bs \<and> length bs = unat announced \<and> hash bs = sha
     else wdelivered (h', f', b') = wdelivered (h, f, b)) \<and>
    (if length bs = unat announced then staged_s (wh_sink h', f') = None \<and> absorbed_h (wh_sha256 h', b') = None
     else \<not> ok \<and> wh_sink h' = wh_sink h \<and> wh_sha256 h' = wh_sha256 h \<and> f' = f \<and> b' = b)"
proof -
  note v = receiving_view [OF assms]
  have len: "length bs = unat (fr_received_bytes (wh_receiver h))" using v(2,3,7) by (auto simp: recv_inv_def)
  have all: "length bs = unat announced \<longleftrightarrow> fr_received_bytes (wh_receiver h) = fr_expected_bytes (wh_receiver h)"
    unfolding len v(4) [symmetric] by (auto intro: unsigned_word_eqI)
  obtain res r' sink' f' c' b' where w: "pd_file_receiver_finish (Some (wh_receiver h)) (wh_sink h, f) (wh_sha256 h, b) =
      Some (res, Some r', (sink', f'), (c', b'))" "recv.rinv r' (sink', f') (c', b')"
    "if res = PD_FILE_RECEIVE_OK
     then fr_state r' = PD_FILE_RECEIVE_COMPLETE \<and> published_s (sink', f') = Some bs \<and>
       length bs = unat (fr_expected_bytes (wh_receiver h)) \<and>
       (fr_integrity_configured (wh_receiver h) \<longrightarrow> hash bs = fr_expected_sha256 (wh_receiver h))
     else published_s (sink', f') = published_s (wh_sink h, f) \<and>
       (if res = PD_FILE_RECEIVE_INCOMPLETE
        then fr_received_bytes (wh_receiver h) \<noteq> fr_expected_bytes (wh_receiver h) \<and> r' = wh_receiver h \<and>
          (sink', f') = (wh_sink h, f) \<and> (c', b') = (wh_sha256 h, b)
        else fr_state r' = PD_FILE_RECEIVE_FAILED)"
    using recv.finish_spec [OF v(7,2,3)] by (metis surj_pair)
  have early: "res = PD_FILE_RECEIVE_INCOMPLETE" if "fr_received_bytes (wh_receiver h) \<noteq> fr_expected_bytes (wh_receiver h)"
    using w(1) v(2) that by (simp add: pd_file_receiver_finish_def)
  let ?h = "h\<lparr>wh_receiver := r', wh_sink := sink', wh_sha256 := c', wh_active := False\<rparr>"
  have call: "handler_finish_fn (h, f, b) = Some (res = PD_FILE_RECEIVE_OK, ?h, f', b')"
    using v(1) w(1) by (simp add: handler_finish_fn_def pd_win32_receive_finish_def)
  have rest: "staged_s (sink', f') = None \<and> absorbed_h (c', b') = None" if "length bs = unat announced"
    using recv_inv_released [OF w(2)] w(3) that all by (auto split: if_splits)
  have "winv (?h, f', b')" "wcurrent (?h, f', b') = None" using v(8) by (simp_all add: handler_views handler_shape_def)
  moreover have "if res = PD_FILE_RECEIVE_OK then wdelivered (?h, f', b') = Some bs \<and> length bs = unat announced \<and> hash bs = sha
      else wdelivered (?h, f', b') = wdelivered (h, f, b)"
    using w(3) v(4-6,9) recv_located [OF w(2)] by (simp add: whandler_delivered_def split: if_splits)
  moreover have "res \<noteq> PD_FILE_RECEIVE_OK \<and> sink' = wh_sink h \<and> c' = wh_sha256 h \<and> f' = f \<and> b' = b" if "length bs \<noteq> unat announced"
    using w(3) early that all by simp
  ultimately show ?thesis using call rest v(9) by (simp add: whandler_delivered_def split: if_splits)
qed

text \<open>
  What a finish does to the system: run over the backends with their resources in the invariant, it
  leaves no handle and no hash object behind once all announced bytes have arrived.
\<close>

lemma all_arrived:
  assumes "winv (h, f, b)" and "wcurrent (h, f, b) = Some (announced, sha, bs)" and "length bs = unat announced"
  shows "fr_received_bytes (wh_receiver h) = fr_expected_bytes (wh_receiver h)"
proof -
  note v = receiving_view [OF assms(1,2)]
  have "length bs = unat (fr_received_bytes (wh_receiver h))" using v(2,3,7) by (auto simp: recv_inv_def)
  then show ?thesis using assms(3) v(4) by (simp add: word_unat_eq_iff)
qed

lemma receiver_finish_releases:
  assumes "winv (h, f, b)" and "wcurrent (h, f, b) = Some (announced, sha, bs)" and "length bs = unat announced"
    and "pd_file_receiver_finish (Some (wh_receiver h)) (wh_sink h, f) (wh_sha256 h, b) = Some (res, Some r', (sink', f'), (c', b'))"
  shows "live b' = live b - sha_owned (wh_sha256 h)"
    and "always_closes fapi opened \<Longrightarrow> opened f' = (opened f)(ws_file_handle (wh_sink h) := None)"
proof -
  note v = receiving_view [OF assms(1,2)]
  note rest = all_arrived [OF assms(1-3)]
  let ?B = "(opened f)(ws_file_handle (wh_sink h) := None)" and ?L = "live b - sha_owned (wh_sha256 h)"
  have hi: "sha_held_inv live hashing ?L (wh_sha256 h, b)" and si: "wsink_job_inv canon files opened root (wh_sink h, f)"
    using v(7) by (simp_all add: recv_inv_def sha_held_inv_def sha_foreign_def)
  have env: "receive_env (sink_begin_fn fapi) (sink_write_fn fapi) (sink_commit_fn fapi) (sink_abort_fn fapi)
      (wsink_job_inv canon files opened root) (wsink_staged canon files) (wsink_published canon files)
      (sha_begin_fn bapi) (sha_update_fn bapi) (sha_finish_fn bapi) (sha_abort_fn bapi)
      (sha_held_inv live hashing ?L) (sha_absorbed hashing) hash"
    by (intro receive_env.intro win_sink.file_sink_axioms held_hash)
  have rh: "recv_inv recv.stab recv.itab (wsink_job_inv canon files opened root) (wsink_staged canon files)
      (sha_held_inv live hashing ?L) (sha_absorbed hashing) (wh_receiver h) (wh_sink h, f) (wh_sha256 h, b)"
    using v(7) hi by (simp add: recv_inv_def)
  from receive_env.finish_spec [OF env rh v(2,3)] assms(4)
  have i: "recv_inv recv.stab recv.itab (wsink_job_inv canon files opened root) (wsink_staged canon files)
      (sha_held_inv live hashing ?L) (sha_absorbed hashing) r' (sink', f') (c', b')" and st: "fr_state r' \<noteq> PD_FILE_RECEIVE_RECEIVING"
    using rest by (auto split: if_splits)
  then show "live b' = ?L" using sha_held_released [of live hashing ?L "(c', b')"] by (simp add: recv_inv_def)
  assume closes: "always_closes fapi opened"
  have env': "receive_env (sink_begin_fn fapi) (sink_write_fn fapi) (sink_commit_fn fapi) (sink_abort_fn fapi)
      (wsink_held_inv canon files opened root ?B) (wsink_staged canon files) (wsink_published canon files)
      (sha_begin_fn bapi) (sha_update_fn bapi) (sha_finish_fn bapi) (sha_abort_fn bapi)
      (sha_inv live hashing) (sha_absorbed hashing) hash"
    by (intro receive_env.intro held_sink [OF closes] win_hash.integrity_hash_axioms)
  have rs: "recv_inv recv.stab recv.itab (wsink_held_inv canon files opened root ?B) (wsink_staged canon files)
      (sha_inv live hashing) (sha_absorbed hashing) (wh_receiver h) (wh_sink h, f) (wh_sha256 h, b)"
    using v(7,3,2) held_open [OF si] by (simp add: recv_inv_def)
  from receive_env.finish_spec [OF env' rs v(2,3)] assms(4)
  have "recv_inv recv.stab recv.itab (wsink_held_inv canon files opened root ?B) (wsink_staged canon files)
      (sha_inv live hashing) (sha_absorbed hashing) r' (sink', f') (c', b')" by auto
  then show "opened f' = ?B" using st held_released [of canon files opened root ?B "(sink', f')"] by (simp add: recv_inv_def)
qed

text \<open>
  And when it succeeds: the size and the digest agree, no file has the final name, and none of the calls
  it makes to the system fails.
\<close>

lemma receiver_finish_succeeds:
  assumes "winv (h, f, b)" and "wcurrent (h, f, b) = Some (announced, sha, bs)" and "length bs = unat announced"
    and "hash bs = sha" and "wdelivered (h, f, b) = None"
    and "commit_reliable fapi canon files opened" and "hash_reliable bapi live"
  shows "\<exists>r' sw' hw'. pd_file_receiver_finish (Some (wh_receiver h)) (wh_sink h, f) (wh_sha256 h, b) =
    Some (PD_FILE_RECEIVE_OK, Some r', sw', hw')"
proof -
  note v = receiving_view [OF assms(1,2)]
  have r: "fr_received_bytes (wh_receiver h) = fr_expected_bytes (wh_receiver h)" "fr_integrity_started (wh_receiver h)"
    "fr_sink_ops (wh_receiver h) = Some recv.stab" "fr_integrity_ops (wh_receiver h) = Some recv.itab"
    "inv_h (wh_sha256 h, b)" "absorbed_h (wh_sha256 h, b) = Some bs" "inv_s (wh_sink h, f)" "length (fr_expected_sha256 (wh_receiver h)) = 32"
    using all_arrived [OF assms(1-3)] v(2,3,6,7) by (auto simp: recv_inv_def wsink_job_inv_def)
  obtain hw' where fin: "sha_finish_fn bapi (wh_sha256 h, b) = Some (PD_INTEGRITY_OK, hash bs, hw')"
    using sha_finish_succeeds [OF r(5,6) assms(7)] by blast
  have "published_s (wh_sink h, f) = None" using assms(5) v(9) by (simp add: whandler_delivered_def)
  then obtain sw' where com: "sink_commit_fn fapi (wh_sink h, f) = Some (PD_FILE_SINK_OK, sw')"
    using commit_succeeds [OF r(7) v(3) _ assms(6)] by blast
  have "pd_digest_equal (Some (hash bs)) (Some (fr_expected_sha256 (wh_receiver h))) = Some True"
    using r(8) v(5) assms(4) digest_length [of bs] by (simp add: pd_digest_equal_iff)
  then show ?thesis
    using v(2,6) r(1-4) fin com by (simp add: pd_file_receiver_finish_def finish_commit_def)
qed

lemma handler_abort_ok:
  assumes "winv (h, f, b)"
  shows "\<exists>h' f' b'. handler_abort_fn (h, f, b) = Some (h', f', b') \<and> winv (h', f', b') \<and> \<not> wh_active h' \<and>
    wdelivered (h', f', b') = wdelivered (h, f, b) \<and>
    (if wh_active h then staged_s (wh_sink h', f') = None \<and> absorbed_h (wh_sha256 h', b') = None
     else (h', f', b') = (h, f, b))"
proof (cases "wh_active h")
  case False
  then show ?thesis using assms by (simp add: handler_abort_fn_def pd_win32_receive_abort_def)
next
  case True
  have r: "recv.rinv (wh_receiver h) (wh_sink h, f) (wh_sha256 h, b)" "handler_shape root h"
    using assms True by (simp_all add: whandler_inv_def win_tables)
  obtain r' sink' f' c' b' where a: "pd_file_receiver_abort (Some (wh_receiver h)) (wh_sink h, f) (wh_sha256 h, b) =
      Some (Some r', (sink', f'), (c', b'))" "recv.rinv r' (sink', f') (c', b')"
    "published_s (sink', f') = published_s (wh_sink h, f)" "fr_state r' \<noteq> PD_FILE_RECEIVE_RECEIVING"
    using recv.abort_spec [OF r(1)] by (auto split: if_splits)
  let ?h = "h\<lparr>wh_receiver := r', wh_sink := sink', wh_sha256 := c', wh_active := False\<rparr>"
  have "handler_abort_fn (h, f, b) = Some (?h, f', b')"
    using True a(1) by (simp add: handler_abort_fn_def pd_win32_receive_abort_def)
  then show ?thesis
    using a(3) r(2) True recv_inv_released [OF a(2,4)] recv_located [OF a(2)] recv_located [OF r(1)]
    by (simp add: whandler_inv_def whandler_delivered_def handler_shape_def)
qed

end

sublocale win32_env \<subseteq> win_handler: receive_handler "handler_begin_fn fapi bapi" handler_chunk_fn handler_finish_fn handler_abort_fn
  "whandler_inv fapi canon files opened root bapi live hashing" "whandler_current canon files" "whandler_delivered canon files root" hash
proof (unfold_locales, goal_cases)
  case (1 c md name)
  then show ?case using handler_begin_ok by (cases c) simp
next
  case (2 c announced sha bs n d)
  then show ?case using handler_chunk_ok [of "fst c" "fst (snd c)" "snd (snd c)"] by simp
next
  case (3 c announced sha bs)
  obtain h f b where c: "c = (h, f, b)" by (metis surj_pair)
  obtain ok h' f' b' where "handler_finish_fn c = Some (ok, h', f', b')" "winv (h', f', b')" "wcurrent (h', f', b') = None"
    "if ok then wdelivered (h', f', b') = Some bs \<and> length bs = unat announced \<and> hash bs = sha
     else wdelivered (h', f', b') = wdelivered c"
    using handler_finish_ok [of h f b] 3 unfolding c by blast
  then show ?case by (intro exI [of _ ok] exI [of _ "(h', f', b')"]) simp
next
  case (4 c)
  then show ?case using handler_abort_ok [of "fst c" "fst (snd c)" "snd (snd c)"] by (auto simp: whandler_current_def)
qed

interpretation mem_env: win32_env mem_file_api "\<lambda>p. p" mf_files mf_open "w_lit ''C:''" mem_bcrypt mb_live mb_hashing checksum
  by intro_locales

lemma handler_init_eq:
  assumes "0 \<in> set root"
  shows "pd_win32_receive_handler_init (Some h) (Some root) = Some (
    if w_str root = [] then (PD_WIN32_RECEIVE_HANDLER_INVALID_ARGUMENT, Some h)
    else if 260 \<le> length (w_str root) then (PD_WIN32_RECEIVE_HANDLER_PATH_TOO_LONG, Some h)
    else (PD_WIN32_RECEIVE_HANDLER_OK, Some (zero_handler\<lparr>wh_root_directory := w_str root @ replicate (260 - length (w_str root)) 0,
       wh_initialized := True\<rparr>)))"
proof -
  obtain first where first: "rd root 0 = Some first" "first = 0 \<longleftrightarrow> w_str root = []"
    using assms by (cases root) (auto simp: rd_def w_str_def)
  have "memcpy (replicate 260 0) 0 root 0 (length (w_str root) + 1) = Some (w_str root @ replicate (260 - length (w_str root)) 0)"
    if "length (w_str root) < 260"
    using that w_str_slice [OF assms] put_text [of "w_str root" "replicate 260 0" 0]
    by (simp add: memcpy_def replicate_Suc [symmetric] Suc_diff_Suc del: replicate_Suc)
  then show ?thesis
    using first assms by (auto simp: pd_win32_receive_handler_init_def wcslen_eq Let_def zero_handler_def)
qed

section \<open>A handler in the middle of a transfer\<close>

text \<open>A handler that has received the bytes \<open>bs\<close> of a file of three bytes, for the witnesses.\<close>

definition padded :: "wchar list \<Rightarrow> wchar list" where
  "padded p = p @ replicate (260 - length p) 0"

definition sample_dir :: "wchar list" where
  "sample_dir = path_join (w_lit ''C:'') (map ucast (replicate 32 (97 :: u8)))"

definition sample_final :: "wchar list" where
  "sample_final = path_join sample_dir (w_lit ''a'')"

definition sample_staging :: "wchar list" where
  "sample_staging = sample_final @ w_lit ''.part''"

definition sample_sink :: pd_win32_file_sink where
  "sample_sink = \<lparr>ws_file_handle = 1, ws_job_directory = padded sample_dir,
     ws_staging_path = padded sample_staging, ws_final_path = padded sample_final, ws_initialized = True\<rparr>"

definition sample_receiver :: "u8 list \<Rightarrow> (mem_fs sink_state, mem_bc sha_state) pd_file_receiver" where
  "sample_receiver bs = \<lparr>fr_sink_ops = Some (pd_win32_file_sink_ops mem_file_api), fr_integrity_ops = Some (pd_win32_sha256_ops mem_bcrypt),
     fr_expected_sha256 = replicate 32 6, fr_expected_bytes = 3, fr_received_bytes = word_of_nat (length bs),
     fr_state = PD_FILE_RECEIVE_RECEIVING, fr_sink_started = True, fr_integrity_configured = True, fr_integrity_started = True\<rparr>"

definition sample_receiving :: "u8 list \<Rightarrow> (mem_fs, mem_bc) handler_world" where
  "sample_receiving bs = (
     \<lparr>wh_root_directory = padded (w_lit ''C:''), wh_job_id = replicate 32 97 @ [0], wh_sink = sample_sink,
      wh_sha256 = \<lparr>sh_algorithm_handle = 1, sh_hash_handle = 1, sh_object_buffer = 1, sh_object_length = 64, sh_active = True\<rparr>,
      wh_receiver = sample_receiver bs, wh_initialized = True, wh_active = True\<rparr>,
     \<lparr>mf_files = [sample_staging \<mapsto> bs], mf_open = [1 \<mapsto> sample_staging], mf_next = 2\<rparr>,
     \<lparr>mb_provider = True, mb_buffer = True, mb_hash = Some bs, mb_seed = 7\<rparr>)"

lemma padded_shape:
  assumes "0 \<notin> set p" and "length p < 260"
  shows "w_str (padded p) = p" and "length (padded p) = 260" and "0 \<in> set (padded p)"
proof -
  have "padded p = p @ 0 # replicate (259 - length p) 0"
    using assms(2) by (simp add: padded_def replicate_Suc [symmetric] Suc_diff_le del: replicate_Suc)
  then show "w_str (padded p) = p" "length (padded p) = 260" "0 \<in> set (padded p)" using assms by simp_all
qed

lemma sample_paths:
  "0 \<notin> set (w_lit ''C:'')" "length (w_lit ''C:'') = 2" "0 \<notin> set sample_final" "length sample_final = 37"
  "0 \<notin> set sample_staging" "length sample_staging = 42"
  "0 \<notin> set sample_dir"
  "length sample_dir = 35"
  by (simp_all add: sample_staging_def sample_final_def sample_dir_def path_join_def w_lit_def)

lemma sample_located: "sink_located (w_lit ''C:'') sample_sink"
  unfolding sink_located_def
  by (intro exI [of _ "replicate 32 (97 :: u8)"] exI [of _ "w_lit ''a''"])
    (simp add: sample_sink_def padded_shape sample_paths lower_hex_def lower_hex_char_def sample_staging_def [symmetric],
      simp add: sample_staging_def sample_final_def sample_dir_def w_lit_def)

abbreviation "mem_winv \<equiv> whandler_inv mem_file_api (\<lambda>p. p) mf_files mf_open (w_lit ''C:'') mem_bcrypt mb_live mb_hashing"

lemma sample_sink_strings:
  "w_str (ws_staging_path sample_sink) = sample_staging" "w_str (ws_final_path sample_sink) = sample_final" "wsink_shape sample_sink"
  "pd_win32_handle_is_open sample_sink" "sample_staging \<noteq> sample_final"
  using sample_paths by (auto simp: sample_sink_def padded_shape wsink_shape_def pd_win32_handle_is_open_def INVALID_HANDLE_VALUE_def)

lemma sample_receiving_inv:
  assumes "length bs \<le> 3"
  shows "mem_winv (sample_receiving bs)"
    and "whandler_current (\<lambda>p. p) mf_files (sample_receiving bs) = Some (3, replicate 32 6, bs)"
proof -
  let ?f = "\<lparr>mf_files = [sample_staging \<mapsto> bs], mf_open = [1 \<mapsto> sample_staging], mf_next = 2\<rparr>"
  let ?c = "\<lparr>sh_algorithm_handle = 1, sh_hash_handle = 1, sh_object_buffer = 1, sh_object_length = 64, sh_active = True\<rparr>"
  let ?b = "\<lparr>mb_provider = True, mb_buffer = True, mb_hash = Some bs, mb_seed = 7\<rparr>"
  have s: "wsink_job_inv (\<lambda>p. p) mf_files mf_open (w_lit ''C:'') (sample_sink, ?f)"
    "wsink_staged (\<lambda>p. p) mf_files (sample_sink, ?f) = Some bs"
    using sample_located by (simp_all add: wsink_job_inv_def wsink_inv_def wsink_staged_def sample_sink_strings, simp add: sample_sink_def)
  have h: "sha_inv mb_live mb_hashing (?c, ?b)" "sha_absorbed mb_hashing (?c, ?b) = Some bs"
    by (auto simp: sha_inv_def sha_owned_def mb_live_def mb_busy_def mb_hashing_def sole_user_def sha_absorbed_def)
  have n: "unat (word_of_nat (length bs) :: u64) = length bs" "(word_of_nat (length bs) :: u64) \<le> 3"
    using assms by (simp_all add: unat_of_nat take_bit_nat_eq_self word_le_nat_alt)
  show "mem_winv (sample_receiving bs)"
    using s h n by (simp add: whandler_inv_def sample_receiving_def handler_shape_def padded_shape sample_paths sample_receiver_def recv_inv_def)
  show "whandler_current (\<lambda>p. p) mf_files (sample_receiving bs) = Some (3, replicate 32 6, bs)"
    using s(2) by (simp add: whandler_current_def sample_receiving_def sample_receiver_def)
qed

section \<open>The correctness of the handler\<close>

text \<open>C15: Finishing the file a handler is receiving always returns and leaves the handler inactive. It
  succeeds only if the received bytes have the announced size and digest, and then the file at the
  final path, which lies in a job directory below the receive directory, is exactly those bytes;
  otherwise that file is what it was. Conversely it does succeed when size and digest agree, no file has
  the final name and no call of the system fails. Once all announced bytes have arrived the hash object,
  its buffer and its provider are released whatever the outcome, and the staging handle is closed unless
  \<^verbatim>\<open>CloseHandle\<close> fails; no other resource of either kind changes.\<close>

theorem win32_handler_finish_exact:
  assumes "win32_env fapi canon files opened bapi live hashing hash"
    and "whandler_inv fapi canon files opened root bapi live hashing (h, f, b)"
    and "whandler_current canon files (h, f, b) = Some (announced, sha, bs)"
  shows "\<exists>ok h' f' b'. handler_finish_fn (h, f, b) = Some (ok, h', f', b') \<and> \<not> wh_active h' \<and>
    (if ok then whandler_delivered canon files root (h', f', b') = Some bs \<and> length bs = unat announced \<and> hash bs = sha
     else whandler_delivered canon files root (h', f', b') = whandler_delivered canon files root (h, f, b)) \<and>
    (length bs = unat announced \<and> hash bs = sha \<and> whandler_delivered canon files root (h, f, b) = None \<and>
       commit_reliable fapi canon files opened \<and> hash_reliable bapi live \<longrightarrow> ok) \<and>
    (length bs = unat announced \<longrightarrow>
       wsink_staged canon files (wh_sink h', f') = None \<and> sha_absorbed hashing (wh_sha256 h', b') = None \<and>
       live b' = live b - sha_owned (wh_sha256 h) \<and>
       (always_closes fapi opened \<longrightarrow> opened f' = (opened f)(ws_file_handle (wh_sink h) := None)))"
proof -
  obtain ok h' f' b' where fin: "handler_finish_fn (h, f, b) = Some (ok, h', f', b')" "\<not> wh_active h'"
    "if ok then whandler_delivered canon files root (h', f', b') = Some bs \<and> length bs = unat announced \<and> hash bs = sha
     else whandler_delivered canon files root (h', f', b') = whandler_delivered canon files root (h, f, b)"
    "length bs = unat announced \<Longrightarrow> wsink_staged canon files (wh_sink h', f') = None \<and> sha_absorbed hashing (wh_sha256 h', b') = None"
    using win32_env.handler_finish_ok [OF assms] by (auto split: if_splits)
  have act: "wh_active h" using win32_env.receiving_view(1) [OF assms] .
  then obtain res r' sink' c' where call:
    "pd_file_receiver_finish (Some (wh_receiver h)) (wh_sink h, f) (wh_sha256 h, b) = Some (res, Some r', (sink', f'), (c', b'))"
    "ok \<longleftrightarrow> res = PD_FILE_RECEIVE_OK"
    using fin(1) by (auto simp: handler_finish_fn_def pd_win32_receive_finish_def split: bind_splits)
  show ?thesis
    using fin win32_env.receiver_finish_releases [OF assms _ call(1)] win32_env.receiver_finish_succeeds [OF assms] call
    by (intro exI [of _ ok] exI [of _ h'] exI [of _ f'] exI [of _ b']) auto
qed

lemma mem_hash_reliable: "hash_reliable mem_bcrypt mb_live"
  unfolding hash_reliable_def by (auto simp: mem_bc_laws split: if_splits)

theorem win32_handler_finish_exact_witness:
  "\<exists>h f b h' f' b'. sample_receiving [1, 2, 3] = (h, f, b) \<and> handler_finish_fn (h, f, b) = Some (True, h', f', b') \<and>
    \<not> wh_active h' \<and> whandler_delivered (\<lambda>p. p) mf_files (w_lit ''C:'') (h', f', b') = Some [1, 2, 3] \<and>
    mb_live b' = {} \<and> mf_open f' = Map.empty"
proof -
  obtain h f b where w: "sample_receiving [1, 2, 3] = (h, f, b)" by (metis surj_pair)
  have i: "mem_winv (h, f, b)" "whandler_current (\<lambda>p. p) mf_files (h, f, b) = Some (3, replicate 32 6, [1, 2, 3])"
    using sample_receiving_inv [of "[1, 2, 3]"] unfolding w by simp_all
  have d: "whandler_delivered (\<lambda>p. p) mf_files (w_lit ''C:'') (h, f, b) = None" "checksum [1, 2, 3] = replicate 32 6"
    "mf_open f = [1 \<mapsto> sample_staging]" "ws_file_handle (wh_sink h) = 1" "mb_live b - sha_owned (wh_sha256 h) = {}"
    using w sample_sink_strings(5) sample_paths
    by (auto simp: sample_receiving_def whandler_delivered_def wsink_published_def sample_sink_strings checksum_def
      mb_live_def sha_owned_def sample_sink_def padded_shape)
  from win32_handler_finish_exact [OF mem_env.win32_env_axioms i] d mem_commit_reliable mem_hash_reliable mem_always_closes
  obtain h' f' b' where "handler_finish_fn (h, f, b) = Some (True, h', f', b')" "\<not> wh_active h'" "mb_live b' = {}"
    "mf_open f' = Map.empty" "whandler_delivered (\<lambda>p. p) mf_files (w_lit ''C:'') (h', f', b') = Some [1, 2, 3]" by auto
  then show ?thesis using w by blast
qed

text \<open>C35: An announced end of file that comes before all bytes have arrived is refused, but the handler
  marks itself inactive without releasing anything: the abort that follows changes nothing, so the
  staging handle stays open on the partial file and the hash object stays allocated.\<close>

theorem win32_handler_early_end_leaks:
  assumes "win32_env fapi canon files opened bapi live hashing hash"
    and "whandler_inv fapi canon files opened root bapi live hashing (h, f, b)"
    and "whandler_current canon files (h, f, b) = Some (announced, sha, bs)" and "length bs \<noteq> unat announced"
  shows "\<exists>h'. handler_finish_fn (h, f, b) = Some (False, h', f, b) \<and> handler_abort_fn (h', f, b) = Some (h', f, b) \<and>
    opened f (ws_file_handle (wh_sink h')) = Some (canon (w_str (ws_staging_path (wh_sink h')))) \<and>
    files f (canon (w_str (ws_staging_path (wh_sink h')))) = Some bs \<and>
    sh_active (wh_sha256 h') \<and> sha_owned (wh_sha256 h') \<subseteq> live b"
proof -
  obtain h' where fin: "handler_finish_fn (h, f, b) = Some (False, h', f, b)" "\<not> wh_active h'" "wh_sink h' = wh_sink h" "wh_sha256 h' = wh_sha256 h"
    using win32_env.handler_finish_ok [OF assms(1-3)] assms(4) by auto
  note v = win32_env.receiving_view [OF assms(1-3)]
  have st: "wsink_staged canon files (wh_sink h, f) = Some bs" "wsink_inv canon files opened (wh_sink h, f)"
    and sh: "sha_absorbed hashing (wh_sha256 h, b) = Some bs" "sha_inv live hashing (wh_sha256 h, b)"
    using v by (auto simp: recv_inv_def wsink_job_inv_def)
  have "handler_abort_fn (h', f, b) = Some (h', f, b)"
    using fin(2) by (simp add: handler_abort_fn_def pd_win32_receive_abort_def)
  then show ?thesis
    using fin st sh by (auto simp: wsink_staged_def wsink_inv_def sha_absorbed_def sha_inv_def split: if_splits)
qed

theorem win32_handler_early_end_leaks_witness:
  "\<exists>h f b h'. sample_receiving [1] = (h, f, b) \<and>
    handler_finish_fn (h, f, b) = Some (False, h', f, b) \<and> handler_abort_fn (h', f, b) = Some (h', f, b) \<and>
    mf_open f (ws_file_handle (wh_sink h')) = Some (w_str (ws_staging_path (wh_sink h'))) \<and>
    mf_files f (w_str (ws_staging_path (wh_sink h'))) = Some [1] \<and>
    sh_active (wh_sha256 h') \<and> sha_owned (wh_sha256 h') \<subseteq> mb_live b"
proof -
  obtain h f b where w: "sample_receiving [1] = (h, f, b)" by (metis surj_pair)
  have "mem_winv (h, f, b)" "whandler_current (\<lambda>p. p) mf_files (h, f, b) = Some (3, replicate 32 6, [1])"
    using sample_receiving_inv [of "[1]"] unfolding w by simp_all
  from win32_handler_early_end_leaks [OF mem_env.win32_env_axioms this] w show ?thesis by auto
qed

end
