(* ===== verification/PD_ReceiverLoop.thy ===== *)
theory PD_ReceiverLoop
  imports PD_ReceiverProtocol
begin

text \<open>
  The receive loop (\<^verbatim>\<open>receiver_loop.c\<close>): it takes frames from the transport, hands them to the
  protocol, acknowledges them and reports events until the file is complete or something fails.

  The loop talks to three objects: the handler behind the protocol (state \<open>'c\<close>, which the progress
  callback reads too), the transport (state \<open>'i\<close>) and the receiver of events (state \<open>'e\<close>). The loop
  of the source has no bound, so the model is a \<open>partial_function\<close>: \<open>None\<close> stands for undefined
  behaviour and for not returning, and the theorems show that it is never the result.
\<close>

section \<open>Data\<close>

datatype pd_receiver_loop_event =
    PD_RECEIVER_LOOP_READY
  | PD_RECEIVER_LOOP_FILE_STARTED
  | PD_RECEIVER_LOOP_PROGRESS
  | PD_RECEIVER_LOOP_VERIFYING
  | PD_RECEIVER_LOOP_COMPLETE
  | PD_RECEIVER_LOOP_FAILED

datatype pd_receiver_loop_result =
    PD_RECEIVER_LOOP_OK
  | PD_RECEIVER_LOOP_INVALID_ARGUMENT
  | PD_RECEIVER_LOOP_RECEIVE_ERROR
  | PD_RECEIVER_LOOP_PROTOCOL_ERROR
  | PD_RECEIVER_LOOP_SEND_ERROR

record 'i pd_receiver_loop_io_ops =
  io_receive_frame :: "('i \<Rightarrow> (bool \<times> pd_frame_header \<times> u8 list option \<times> nat \<times> 'i) option) option"
  io_send_frame :: "('i \<Rightarrow> pd_frame_header option \<Rightarrow> u8 list option \<Rightarrow> nat \<Rightarrow> (bool \<times> 'i) option) option"

type_synonym 'c pd_receiver_loop_progress_fn = "'c \<Rightarrow> u64 option"
type_synonym 'e pd_receiver_loop_event_fn = "'e \<Rightarrow> pd_receiver_loop_event \<Rightarrow> u64 \<Rightarrow> u64 \<Rightarrow> 'e option"

record ('c, 'i, 'e) pd_receiver_loop =
  lp_io_ops :: "'i pd_receiver_loop_io_ops option"
  lp_protocol :: "'c pd_receiver_protocol option"
  lp_progress :: "'c pd_receiver_loop_progress_fn option"
  lp_event_callback :: "'e pd_receiver_loop_event_fn option"

section \<open>Operations\<close>

definition pd_loop_received_bytes :: "('c, 'i, 'e) pd_receiver_loop \<Rightarrow> 'c \<Rightarrow> u64 option" where
  "pd_loop_received_bytes loop c =
     (case lp_progress loop of None \<Rightarrow> Some 0 | Some f \<Rightarrow> f c)"

definition pd_loop_total_bytes :: "('c, 'i, 'e) pd_receiver_loop option \<Rightarrow> u64" where
  "pd_loop_total_bytes loop =
     (case loop of
        None \<Rightarrow> 0
      | Some l \<Rightarrow>
          (case lp_protocol l of
             None \<Rightarrow> 0
           | Some p \<Rightarrow> if rp_state p = PD_RECEIVER_PROTOCOL_WAIT_FILE then 0 else fb_file_size (rp_current_file p)))"

definition pd_loop_emit ::
  "('c, 'i, 'e) pd_receiver_loop \<Rightarrow> pd_receiver_loop_event \<Rightarrow> 'c \<Rightarrow> 'e \<Rightarrow> 'e option" where
  "pd_loop_emit loop event c e =
     (case lp_event_callback loop of
        None \<Rightarrow> Some e
      | Some f \<Rightarrow> do {
          received \<leftarrow> pd_loop_received_bytes loop c;
          f e event received (pd_loop_total_bytes (Some loop)) })"

definition pd_loop_send_ack ::
  "('c, 'i, 'e) pd_receiver_loop \<Rightarrow> pd_message_type \<Rightarrow> pd_ack_status \<Rightarrow> 'c \<Rightarrow> 'i \<Rightarrow> (bool \<times> 'i) option" where
  "pd_loop_send_ack loop acknowledged_type status c i = do {
     received \<leftarrow> pd_loop_received_bytes loop c;
     let ack = \<lparr>ack_acknowledged_type = acknowledged_type, ack_status = status, ack_received_bytes = received\<rparr>;
     (r, payload) \<leftarrow> pd_ack_encode (Some ack) (Some (replicate PD_ACK_PAYLOAD_SIZE 0));
     if r \<noteq> PD_ACK_RESULT_OK then Some (False, i)
     else do {
       payload \<leftarrow> payload;
       io \<leftarrow> lp_io_ops loop;
       f \<leftarrow> io_send_frame io;
       f i (Some \<lparr>fh_type = PD_MSG_ACK, fh_flags = 0, fh_payload_length = word_of_nat PD_ACK_PAYLOAD_SIZE\<rparr>)
         (Some payload) PD_ACK_PAYLOAD_SIZE } }"

definition pd_loop_should_ack :: "pd_message_type \<Rightarrow> bool" where
  "pd_loop_should_ack t \<longleftrightarrow> t = PD_MSG_FILE_BEGIN \<or> t = PD_MSG_CHUNK \<or> t = PD_MSG_FILE_END"

definition pd_loop_error_status :: "pd_receiver_protocol_result \<Rightarrow> pd_ack_status" where
  "pd_loop_error_status result =
     (if result = PD_RECEIVER_PROTOCOL_HANDLER_ERROR then PD_ACK_STORAGE_ERROR
      else if result = PD_RECEIVER_PROTOCOL_INVALID_METADATA then PD_ACK_REJECTED
      else PD_ACK_PROTOCOL_ERROR)"

text \<open>Every failing exit of the loop aborts the protocol and reports the failure.\<close>

definition loop_exit ::
  "('c, 'i, 'e) pd_receiver_loop \<Rightarrow> pd_receiver_loop_result \<Rightarrow> 'c \<Rightarrow> 'i \<Rightarrow> 'e \<Rightarrow>
   (pd_receiver_loop_result \<times> ('c, 'i, 'e) pd_receiver_loop \<times> 'c \<times> 'i \<times> 'e) option" where
  "loop_exit loop result c i e = do {
     (protocol, c) \<leftarrow> pd_receiver_protocol_abort (lp_protocol loop) c;
     let loop = loop\<lparr>lp_protocol := protocol\<rparr>;
     e \<leftarrow> pd_loop_emit loop PD_RECEIVER_LOOP_FAILED c e;
     Some (result, loop, c, i, e) }"

text \<open>One pass through the body of \<^verbatim>\<open>for (;;)\<close>: it returns from the routine (\<open>Inl\<close>) or goes on (\<open>Inr\<close>).\<close>

definition loop_iteration ::
  "('c, 'i, 'e) pd_receiver_loop \<Rightarrow> 'c \<Rightarrow> 'i \<Rightarrow> 'e \<Rightarrow>
   ((pd_receiver_loop_result \<times> ('c, 'i, 'e) pd_receiver_loop \<times> 'c \<times> 'i \<times> 'e) +
    (('c, 'i, 'e) pd_receiver_loop \<times> 'c \<times> 'i \<times> 'e)) option" where
  "loop_iteration loop c i e = do {
     io \<leftarrow> lp_io_ops loop;
     receive_frame \<leftarrow> io_receive_frame io;
     (received, header, payload, payload_size, i) \<leftarrow> receive_frame i;
     if \<not> received then map_option Inl (loop_exit loop PD_RECEIVER_LOOP_RECEIVE_ERROR c i e)
     else do {
       e \<leftarrow> (if fh_type header = PD_MSG_FILE_END then pd_loop_emit loop PD_RECEIVER_LOOP_VERIFYING c e else Some e);
       (protocol_result, protocol, c) \<leftarrow>
         pd_receiver_protocol_handle (lp_protocol loop) (Some header) payload payload_size c;
       let loop = loop\<lparr>lp_protocol := protocol\<rparr>;
       if protocol_result \<noteq> PD_RECEIVER_PROTOCOL_OK
       then do {
         (_, i) \<leftarrow> (if pd_loop_should_ack (fh_type header)
                   then pd_loop_send_ack loop (fh_type header) (pd_loop_error_status protocol_result) c i
                   else Some (True, i));
         map_option Inl (loop_exit loop PD_RECEIVER_LOOP_PROTOCOL_ERROR c i e) }
       else do {
         (acknowledged, i) \<leftarrow> (if pd_loop_should_ack (fh_type header)
                              then pd_loop_send_ack loop (fh_type header) PD_ACK_OK c i
                              else Some (True, i));
         if \<not> acknowledged then map_option Inl (loop_exit loop PD_RECEIVER_LOOP_SEND_ERROR c i e)
         else if fh_type header = PD_MSG_FILE_BEGIN then do {
           e \<leftarrow> pd_loop_emit loop PD_RECEIVER_LOOP_FILE_STARTED c e;
           Some (Inr (loop, c, i, e)) }
         else if fh_type header = PD_MSG_CHUNK then do {
           e \<leftarrow> pd_loop_emit loop PD_RECEIVER_LOOP_PROGRESS c e;
           Some (Inr (loop, c, i, e)) }
         else if fh_type header = PD_MSG_FILE_END then do {
           e \<leftarrow> pd_loop_emit loop PD_RECEIVER_LOOP_COMPLETE c e;
           Some (Inl (PD_RECEIVER_LOOP_OK, loop, c, i, e)) }
         else Some (Inr (loop, c, i, e)) } } }"

partial_function (option) loop_forever ::
  "('c, 'i, 'e) pd_receiver_loop \<Rightarrow> 'c \<Rightarrow> 'i \<Rightarrow> 'e \<Rightarrow>
   (pd_receiver_loop_result \<times> ('c, 'i, 'e) pd_receiver_loop \<times> 'c \<times> 'i \<times> 'e) option" where
  "loop_forever loop c i e = do {
     r \<leftarrow> loop_iteration loop c i e;
     case r of
       Inl result \<Rightarrow> Some result
     | Inr (loop, c, i, e) \<Rightarrow> loop_forever loop c i e }"

definition pd_receiver_loop_run ::
  "('c, 'i, 'e) pd_receiver_loop option \<Rightarrow> 'c \<Rightarrow> 'i \<Rightarrow> 'e \<Rightarrow>
   (pd_receiver_loop_result \<times> ('c, 'i, 'e) pd_receiver_loop option \<times> 'c \<times> 'i \<times> 'e) option" where
  "pd_receiver_loop_run loop c i e =
     (case loop of
        None \<Rightarrow> Some (PD_RECEIVER_LOOP_INVALID_ARGUMENT, loop, c, i, e)
      | Some l \<Rightarrow>
          if (case lp_io_ops l of None \<Rightarrow> True
              | Some io \<Rightarrow> io_receive_frame io = None \<or> io_send_frame io = None) \<or> lp_protocol l = None
          then Some (PD_RECEIVER_LOOP_INVALID_ARGUMENT, loop, c, i, e)
          else do {
            e \<leftarrow> pd_loop_emit l PD_RECEIVER_LOOP_READY c e;
            (result, l, c, i, e) \<leftarrow> loop_forever l c i e;
            Some (result, Some l, c, i, e) })"

section \<open>The conversation\<close>

text \<open>What passes over the transport: the frames received and the frames sent, in order.\<close>

datatype io_event =
    Received pd_frame_header "u8 list"
  | Sent pd_frame_header "u8 list" bool

inductive io_trace ::
  "('i \<Rightarrow> (bool \<times> pd_frame_header \<times> u8 list option \<times> nat \<times> 'i) option) \<Rightarrow>
   ('i \<Rightarrow> pd_frame_header option \<Rightarrow> u8 list option \<Rightarrow> nat \<Rightarrow> (bool \<times> 'i) option) \<Rightarrow>
   'i \<Rightarrow> io_event list \<Rightarrow> 'i \<Rightarrow> bool"
  for receive_op send_op where
  silent: "io_trace receive_op send_op i [] i"
| received: "receive_op i = Some (True, h, payload, n, j) \<Longrightarrow> io_trace receive_op send_op j evs k \<Longrightarrow>
    io_trace receive_op send_op i (Received h (take n (the_default [] payload)) # evs) k"
| sent: "send_op i (Some h) (Some d) n = Some (ok, j) \<Longrightarrow> io_trace receive_op send_op j evs k \<Longrightarrow>
    io_trace receive_op send_op i (Sent h (take n d) ok # evs) k"

lemma io_trace_append:
  "io_trace receive_op send_op i evs j \<Longrightarrow> io_trace receive_op send_op j evs' k \<Longrightarrow>
   io_trace receive_op send_op i (evs @ evs') k"
  by (induction rule: io_trace.induct) (auto intro: io_trace.intros)

definition ack_header :: pd_frame_header where
  "ack_header = \<lparr>fh_type = PD_MSG_ACK, fh_flags = 0, fh_payload_length = 12\<rparr>"

text \<open>One exchange: a frame of a type and payload came in and a positive acknowledgement of that type
  went out.\<close>

definition exchange :: "pd_message_type \<Rightarrow> u8 list \<Rightarrow> io_event list \<Rightarrow> bool" where
  "exchange t payload evs \<longleftrightarrow> (\<exists>h a. evs = [Received h payload, Sent ack_header (ack_wire a) True] \<and>
     fh_type h = t \<and> frame_consistent h (length payload) \<and>
     ack_acknowledged_type a = t \<and> ack_status a = PD_ACK_OK)"

section \<open>The contract of the environment\<close>

text \<open>
  The transport, the progress callback and the receiver of events return. A received payload is at
  least as long as its stated size. Nothing is assumed about what the frames contain.
\<close>

locale loop_io =
  fixes receive_op :: "'i \<Rightarrow> (bool \<times> pd_frame_header \<times> u8 list option \<times> nat \<times> 'i) option"
    and send_op :: "'i \<Rightarrow> pd_frame_header option \<Rightarrow> u8 list option \<Rightarrow> nat \<Rightarrow> (bool \<times> 'i) option"
    and io_inv :: "'i \<Rightarrow> bool"
  assumes receive_returns: "io_inv i \<Longrightarrow>
      \<exists>ok h payload n i'. receive_op i = Some (ok, h, payload, n, i') \<and> io_inv i' \<and>
        (ok \<longrightarrow> n \<le> length (the_default [] payload) \<and> (payload = None \<longrightarrow> n = 0))"
    and send_returns: "io_inv i \<Longrightarrow> k \<le> length d \<Longrightarrow>
      \<exists>ok i'. send_op i (Some h) (Some d) k = Some (ok, i') \<and> io_inv i'"

locale loop_env =
  receive_handler begin_op chunk_op finish_op abort_op handler_inv current delivered hash +
  loop_io receive_op send_op io_inv
  for begin_op :: "'c \<Rightarrow> pd_file_begin option \<Rightarrow> u8 list option \<Rightarrow> (bool \<times> 'c) option"
    and chunk_op finish_op abort_op handler_inv current delivered hash
    and receive_op :: "'i \<Rightarrow> (bool \<times> pd_frame_header \<times> u8 list option \<times> nat \<times> 'i) option"
    and send_op io_inv +
  fixes progress :: "'c \<Rightarrow> u64 option"
    and event_op :: "'e \<Rightarrow> pd_receiver_loop_event \<Rightarrow> u64 \<Rightarrow> u64 \<Rightarrow> 'e option"
  assumes progress_returns: "handler_inv c \<Longrightarrow> \<exists>v. progress c = Some v"
    and event_returns: "\<exists>e'. event_op e event received announced = Some e'"

text \<open>A loop object wired to these callbacks; the progress and event callbacks may be absent.\<close>

definition loop_wired where
  "loop_wired receive_op send_op progress event_op loop \<longleftrightarrow>
     lp_io_ops loop = Some \<lparr>io_receive_frame = Some receive_op, io_send_frame = Some send_op\<rparr> \<and>
     (lp_progress loop = None \<or> lp_progress loop = Some progress) \<and>
     (lp_event_callback loop = None \<or> lp_event_callback loop = Some event_op)"

lemma loop_wired_update [simp]:
  "loop_wired r s g v (loop\<lparr>lp_protocol := p\<rparr>) = loop_wired r s g v loop"
  by (simp add: loop_wired_def)

context loop_env
begin

abbreviation "wired \<equiv> loop_wired receive_op send_op progress event_op"

abbreviation "trace \<equiv> io_trace receive_op send_op"

lemma received_bytes_returns:
  assumes "wired loop" and "handler_inv c"
  obtains v where "pd_loop_received_bytes loop c = Some v"
  using assms progress_returns [OF assms(2)] by (auto simp: pd_loop_received_bytes_def loop_wired_def)

lemma emit_returns:
  assumes "wired loop" and "handler_inv c"
  obtains e' where "pd_loop_emit loop event c e = Some e'"
proof -
  obtain v where v: "pd_loop_received_bytes loop c = Some v"
    using received_bytes_returns [OF assms] .
  obtain e' where e': "event_op e event v (pd_loop_total_bytes (Some loop)) = Some e'"
    using event_returns by blast
  show ?thesis
  proof (cases "lp_event_callback loop")
    case None
    then have "pd_loop_emit loop event c e = Some e" by (simp add: pd_loop_emit_def)
    then show ?thesis by (rule that)
  next
    case (Some f)
    then have "pd_loop_emit loop event c e = Some e'"
      using assms(1) v e' by (simp add: pd_loop_emit_def loop_wired_def)
    then show ?thesis by (rule that)
  qed
qed

lemma send_ack_spec:
  assumes "wired loop" and "handler_inv c" and "io_inv i" and "pd_loop_should_ack t" and "st \<le> PD_ACK_REJECTED"
  obtains ok i' a where "pd_loop_send_ack loop t st c i = Some (ok, i')" "io_inv i'"
    "ack_acknowledged_type a = t" "ack_status a = st" "trace i [Sent ack_header (ack_wire a) ok] i'"
proof -
  obtain v where v: "pd_loop_received_bytes loop c = Some v"
    using received_bytes_returns [OF assms(1,2)] .
  let ?a = "\<lparr>ack_acknowledged_type = t, ack_status = st, ack_received_bytes = v\<rparr>"
  have "ack_valid ?a"
    using assms(4,5) by (simp add: ack_valid_iff pd_ack_type_is_allowed_def pd_loop_should_ack_def)
  then have enc: "pd_ack_encode (Some ?a) (Some (replicate 12 0)) = Some (PD_ACK_RESULT_OK, Some (ack_wire ?a))"
    by (simp add: pd_ack_encode_wire)
  obtain ok i' where s: "send_op i (Some ack_header) (Some (ack_wire ?a)) 12 = Some (ok, i')" "io_inv i'"
    using send_returns [OF assms(3), of 12 "ack_wire ?a" ack_header] by auto
  have "pd_loop_send_ack loop t st c i = Some (ok, i')"
    using assms(1) s(1) enc v by (simp add: pd_loop_send_ack_def loop_wired_def ack_header_def)
  moreover have "trace i [Sent ack_header (take 12 (ack_wire ?a)) ok] i'"
    using s(1) io_trace.silent by (rule io_trace.sent)
  ultimately show ?thesis using s(2) that [of ok i' ?a] by simp
qed

lemma loop_exit_spec:
  assumes "wired loop" and "lp_protocol loop = Some p" and "pinv p c" and "io_inv i"
  shows "\<exists>p' c' e'. loop_exit loop res c i e = Some (res, loop\<lparr>lp_protocol := Some p'\<rparr>, c', i, e') \<and> pinv p' c' \<and>
    delivered c' = delivered c \<and> rp_current_file p' = rp_current_file p \<and>
    (if protocol_done p then p' = p \<and> c' = c else rp_state p' = PD_RECEIVER_PROTOCOL_FAILED \<and> current c' = None)"
proof -
  obtain p' c' where a: "pd_receiver_protocol_abort (Some p) c = Some (Some p', c')" "pinv p' c'"
    "delivered c' = delivered c" "rp_current_file p' = rp_current_file p"
    "if protocol_done p then p' = p \<and> c' = c else rp_state p' = PD_RECEIVER_PROTOCOL_FAILED \<and> current c' = None"
    using abort_spec [OF assms(3)] unfolding protocol_done_def by blast
  have "handler_inv c'" using a(2) by (simp add: protocol_inv_def)
  moreover have "wired (loop\<lparr>lp_protocol := Some p'\<rparr>)" using assms(1) by simp
  ultimately obtain e' where e': "pd_loop_emit (loop\<lparr>lp_protocol := Some p'\<rparr>) PD_RECEIVER_LOOP_FAILED c' e = Some e'"
    using emit_returns by blast
  then have "loop_exit loop res c i e = Some (res, loop\<lparr>lp_protocol := Some p'\<rparr>, c', i, e')"
    using a(1) assms(2) by (simp add: loop_exit_def)
  then show ?thesis using a by blast
qed

end

section \<open>One iteration\<close>

text \<open>How an iteration that goes on changes the state: the announcement was exchanged, or one more
  chunk was.\<close>

definition iteration_goes_on where
  "iteration_goes_on trace current delivered p c i p' c' i' \<longleftrightarrow>
     rp_state p' = PD_RECEIVER_PROTOCOL_RECEIVING \<and>
     (rp_state p = PD_RECEIVER_PROTOCOL_WAIT_FILE \<and> accepted_bytes current c' = [] \<and>
       (\<exists>fsize sha name evs. wire_name name \<and> length sha = 32 \<and> trace i evs i' \<and>
          exchange PD_MSG_FILE_BEGIN (file_begin_wire fsize sha name) evs \<and>
          rp_current_file p' = file_begin_of fsize sha name \<and> safe_name (sanitized name) \<and>
          c_str (rp_sanitized_filename p') = sanitized name)
      \<or> rp_state p = PD_RECEIVER_PROTOCOL_RECEIVING \<and> p' = p \<and> delivered c' = delivered c \<and>
       (\<exists>chunk evs. chunk \<noteq> [] \<and> trace i evs i' \<and> exchange PD_MSG_CHUNK chunk evs \<and>
          accepted_bytes current c' = accepted_bytes current c @ chunk))"

text \<open>
  How one that returns does: with success only after the end of a complete file was exchanged. When an
  acknowledgement cannot be sent, the frame it answers was accepted: if that was the end of the file, the
  file has been published, otherwise the reception is aborted.
\<close>

definition acknowledgement_lost where
  "acknowledgement_lost trace t i i' \<longleftrightarrow> (\<exists>h payload a. fh_type h = t \<and> ack_acknowledged_type a = t \<and> ack_status a = PD_ACK_OK \<and>
     trace i [Received h payload, Sent ack_header (ack_wire a) False] i')"

definition iteration_returns where
  "iteration_returns trace current delivered hash p c i res p' c' i' \<longleftrightarrow>
     (case res of
        PD_RECEIVER_LOOP_OK \<Rightarrow>
          rp_state p = PD_RECEIVER_PROTOCOL_RECEIVING \<and> rp_state p' = PD_RECEIVER_PROTOCOL_COMPLETE \<and>
          rp_current_file p' = rp_current_file p \<and>
          (\<exists>evs. trace i evs i' \<and> exchange PD_MSG_FILE_END [] evs) \<and>
          delivered c' = Some (accepted_bytes current c) \<and>
          length (accepted_bytes current c) = unat (fb_file_size (rp_current_file p)) \<and>
          hash (accepted_bytes current c) = fb_sha256 (rp_current_file p)
      | PD_RECEIVER_LOOP_SEND_ERROR \<Rightarrow> protocol_done p' \<and>
          (rp_state p = PD_RECEIVER_PROTOCOL_RECEIVING \<longrightarrow>
             rp_state p' = PD_RECEIVER_PROTOCOL_FAILED \<and> delivered c' = delivered c \<and> current c' = None \<or>
             rp_state p' = PD_RECEIVER_PROTOCOL_COMPLETE \<and> acknowledgement_lost trace PD_MSG_FILE_END i i' \<and>
             delivered c' = Some (accepted_bytes current c) \<and>
             length (accepted_bytes current c) = unat (fb_file_size (rp_current_file p)) \<and>
             hash (accepted_bytes current c) = fb_sha256 (rp_current_file p))
      | PD_RECEIVER_LOOP_INVALID_ARGUMENT \<Rightarrow> False
      | _ \<Rightarrow> rp_state p' = PD_RECEIVER_PROTOCOL_FAILED \<and>
          (rp_state p = PD_RECEIVER_PROTOCOL_RECEIVING \<longrightarrow> delivered c' = delivered c \<and> current c' = None))"

lemma accepted_frame_acked:
  "frame_accepted current delivered hash h payload n p c p' c' \<Longrightarrow> pd_loop_should_ack (fh_type h)"
  by (auto simp: frame_accepted_def pd_loop_should_ack_def)

lemma frame_accepted_going:
  assumes "frame_accepted current delivered hash h payload n p c p' c'" and "n \<le> length (the_default [] payload)"
    and "trace i [Received h (take n (the_default [] payload)), Sent ack_header (ack_wire a) True] i'"
    and "ack_acknowledged_type a = fh_type h" and "ack_status a = PD_ACK_OK" and "fh_type h \<noteq> PD_MSG_FILE_END"
  shows "iteration_goes_on trace current delivered p c i p' c' i'"
proof -
  let ?d = "take n (the_default [] payload)"
  let ?evs = "[Received h ?d, Sent ack_header (ack_wire a) True]"
  have x: "exchange (fh_type h) ?d ?evs"
    using assms(1,2,4,5) by (auto simp: exchange_def frame_accepted_def min_def)
  have "n = 0 \<longleftrightarrow> ?d = []" using assms(2) by auto
  then have ne: "0 < n \<longleftrightarrow> ?d \<noteq> []" by auto
  consider "fh_type h = PD_MSG_FILE_BEGIN" | "fh_type h = PD_MSG_CHUNK"
    using assms(1,6) by (auto simp: frame_accepted_def)
  then show ?thesis
  proof cases
    case 1
    then obtain fsize sha name where "wire_name name" "length sha = 32" "?d = file_begin_wire fsize sha name"
      "rp_current_file p' = file_begin_of fsize sha name" "safe_name (sanitized name)"
      "c_str (rp_sanitized_filename p') = sanitized name"
      using assms(1) by (auto simp: frame_accepted_def)
    then have "\<exists>fsize sha name evs. wire_name name \<and> length sha = 32 \<and> trace i evs i' \<and>
        exchange PD_MSG_FILE_BEGIN (file_begin_wire fsize sha name) evs \<and>
        rp_current_file p' = file_begin_of fsize sha name \<and> safe_name (sanitized name) \<and>
        c_str (rp_sanitized_filename p') = sanitized name"
      using assms(3) x 1 by metis
    then show ?thesis using assms(1) 1 by (simp add: frame_accepted_def iteration_goes_on_def)
  next
    case 2
    then have f: "0 < n" "accepted_bytes current c' = accepted_bytes current c @ ?d"
        "rp_state p = PD_RECEIVER_PROTOCOL_RECEIVING" "p' = p" "delivered c' = delivered c"
      using assms(1) by (auto simp: frame_accepted_def)
    have "?d \<noteq> [] \<and> trace i ?evs i' \<and> exchange PD_MSG_CHUNK ?d ?evs \<and>
        accepted_bytes current c' = accepted_bytes current c @ ?d"
      using assms(3) x ne f(1,2) 2 by (intro conjI) simp_all
    then show ?thesis unfolding iteration_goes_on_def using f(3-5) by blast
  qed
qed

lemma frame_accepted_ending:
  assumes "frame_accepted current delivered hash h payload n p c p' c'" and "fh_type h = PD_MSG_FILE_END"
    and "trace i [Received h (take n (the_default [] payload)), Sent ack_header (ack_wire a) True] i'"
    and "ack_acknowledged_type a = fh_type h" and "ack_status a = PD_ACK_OK"
  shows "iteration_returns trace current delivered hash p c i PD_RECEIVER_LOOP_OK p' c' i'"
proof -
  have n: "n = 0" "frame_consistent h 0"
    using assms(1,2) by (auto simp: frame_accepted_def)
  have "exchange PD_MSG_FILE_END [] [Received h [], Sent ack_header (ack_wire a) True]"
    using n assms(2,4,5) by (auto simp: exchange_def)
  then show ?thesis
    using assms(1,2,3) n by (auto simp: frame_accepted_def iteration_returns_def)
qed

lemma frame_accepted_state:
  "frame_accepted current delivered hash h payload n p c p' c' \<Longrightarrow>
   if fh_type h = PD_MSG_FILE_END then protocol_done p' else fh_type h = PD_MSG_FILE_BEGIN \<or> fh_type h = PD_MSG_CHUNK"
  by (auto simp: frame_accepted_def protocol_done_def)

context loop_env
begin

text \<open>The loop's state between two iterations: the protocol is not finished.\<close>

definition loop_inv where
  "loop_inv loop p c i \<longleftrightarrow> wired loop \<and> lp_protocol loop = Some p \<and> pinv p c \<and> io_inv i"

text \<open>The two ways out after the handler refused a frame or the transport failed.\<close>

lemma failing_exit:
  assumes "wired loop" and "pinv p' c'" and "io_inv i'"
    and "res = PD_RECEIVER_LOOP_RECEIVE_ERROR \<or> res = PD_RECEIVER_LOOP_PROTOCOL_ERROR"
    and "rp_state p = PD_RECEIVER_PROTOCOL_RECEIVING \<Longrightarrow>
      delivered c' = delivered c \<and> (rp_state p' = PD_RECEIVER_PROTOCOL_FAILED \<longrightarrow> current c' = None)"
    and "rp_state p' \<noteq> PD_RECEIVER_PROTOCOL_COMPLETE"
  shows "\<exists>p'' c'' e''. loop_exit (loop\<lparr>lp_protocol := Some p'\<rparr>) res c' i' e =
      Some (res, loop\<lparr>lp_protocol := Some p''\<rparr>, c'', i', e'') \<and>
    loop_inv (loop\<lparr>lp_protocol := Some p''\<rparr>) p'' c'' i' \<and>
    iteration_returns trace current delivered hash p c i res p'' c'' i'"
proof -
  obtain p'' c'' e'' where "loop_exit (loop\<lparr>lp_protocol := Some p'\<rparr>) res c' i' e =
      Some (res, loop\<lparr>lp_protocol := Some p''\<rparr>, c'', i', e'')" "pinv p'' c''" "delivered c'' = delivered c'"
    "if protocol_done p' then p'' = p' \<and> c'' = c' else rp_state p'' = PD_RECEIVER_PROTOCOL_FAILED \<and> current c'' = None"
    using loop_exit_spec [of "loop\<lparr>lp_protocol := Some p'\<rparr>" p' c' i' res e] assms(1-3) by auto
  moreover have "iteration_returns trace current delivered hash p c i res p'' c'' i'"
    using calculation(3,4) assms(4-6)
    by (auto simp: iteration_returns_def protocol_done_def split: if_splits)
  moreover have "loop_inv (loop\<lparr>lp_protocol := Some p''\<rparr>) p'' c'' i'"
    using assms(1,3) calculation(2) by (simp add: loop_inv_def)
  ultimately show ?thesis by blast
qed

lemma send_error_exit:
  assumes "wired loop" and "pinv p' c'" and "io_inv i'"
    and "frame_accepted current delivered hash h payload n p c p' c'"
    and "trace i [Received h d, Sent ack_header (ack_wire a) False] i'"
    and "ack_acknowledged_type a = fh_type h" and "ack_status a = PD_ACK_OK"
  shows "\<exists>p'' c'' e''. loop_exit (loop\<lparr>lp_protocol := Some p'\<rparr>) PD_RECEIVER_LOOP_SEND_ERROR c' i' e =
      Some (PD_RECEIVER_LOOP_SEND_ERROR, loop\<lparr>lp_protocol := Some p''\<rparr>, c'', i', e'') \<and>
    loop_inv (loop\<lparr>lp_protocol := Some p''\<rparr>) p'' c'' i' \<and>
    iteration_returns trace current delivered hash p c i PD_RECEIVER_LOOP_SEND_ERROR p'' c'' i'"
proof -
  obtain p'' c'' e'' where x: "loop_exit (loop\<lparr>lp_protocol := Some p'\<rparr>) PD_RECEIVER_LOOP_SEND_ERROR c' i' e =
      Some (PD_RECEIVER_LOOP_SEND_ERROR, loop\<lparr>lp_protocol := Some p''\<rparr>, c'', i', e'')" "pinv p'' c''" "delivered c'' = delivered c'"
    "if protocol_done p' then p'' = p' \<and> c'' = c' else rp_state p'' = PD_RECEIVER_PROTOCOL_FAILED \<and> current c'' = None"
    using loop_exit_spec [of "loop\<lparr>lp_protocol := Some p'\<rparr>" p' c' i' PD_RECEIVER_LOOP_SEND_ERROR e] assms(1-3) by auto
  have "acknowledgement_lost trace PD_MSG_FILE_END i i'" if "fh_type h = PD_MSG_FILE_END"
    using that assms(5-7) unfolding acknowledgement_lost_def by metis
  then have "iteration_returns trace current delivered hash p c i PD_RECEIVER_LOOP_SEND_ERROR p'' c'' i'"
    using assms(4) x(3,4) by (auto simp: frame_accepted_def iteration_returns_def protocol_done_def)
  then show ?thesis using x(1,2) assms(1,3) by (auto simp: loop_inv_def)
qed

lemma refused_exit:
  assumes "wired loop" and "pinv p' c'" and "io_inv i1" and "protocol_result \<noteq> PD_RECEIVER_PROTOCOL_OK"
    and "rp_state p' = PD_RECEIVER_PROTOCOL_FAILED"
    and "rp_state p = PD_RECEIVER_PROTOCOL_RECEIVING \<longrightarrow> delivered c' = delivered c \<and> current c' = None"
  shows "\<exists>loop'' p'' c'' i'' e''.
    (do {
       (_, i) \<leftarrow> (if pd_loop_should_ack t
                 then pd_loop_send_ack (loop\<lparr>lp_protocol := Some p'\<rparr>) t (pd_loop_error_status protocol_result) c' i1
                 else Some (True, i1));
       map_option Inl (loop_exit (loop\<lparr>lp_protocol := Some p'\<rparr>) PD_RECEIVER_LOOP_PROTOCOL_ERROR c' i e1) } ::
         (_ + (('c, 'i, 'e) pd_receiver_loop \<times> 'c \<times> 'i \<times> 'e)) option) =
      Some (Inl (PD_RECEIVER_LOOP_PROTOCOL_ERROR, loop'', c'', i'', e'')) \<and>
    loop_inv loop'' p'' c'' i'' \<and>
    iteration_returns trace current delivered hash p c i PD_RECEIVER_LOOP_PROTOCOL_ERROR p'' c'' i''"
proof -
  let ?l = "loop\<lparr>lp_protocol := Some p'\<rparr>"
  have hc: "handler_inv c'" using assms(2) by (simp add: protocol_inv_def)
  have st: "pd_loop_error_status protocol_result \<le> PD_ACK_REJECTED"
    by (simp add: pd_loop_error_status_def PD_ACK_status_defs)
  have "\<exists>b i2. (if pd_loop_should_ack t then pd_loop_send_ack ?l t (pd_loop_error_status protocol_result) c' i1
      else Some (True, i1)) = Some (b, i2) \<and> io_inv i2"
  proof (cases "pd_loop_should_ack t")
    case True
    have "wired ?l" using assms(1) by simp
    from send_ack_spec [OF this hc assms(3) True st] True show ?thesis by metis
  qed (use assms(3) in auto)
  then obtain b i2 where i2: "(if pd_loop_should_ack t then pd_loop_send_ack ?l t (pd_loop_error_status protocol_result) c' i1
      else Some (True, i1)) = Some (b, i2)" "io_inv i2" by blast
  have "\<exists>p'' c'' e''. loop_exit ?l PD_RECEIVER_LOOP_PROTOCOL_ERROR c' i2 e1 =
      Some (PD_RECEIVER_LOOP_PROTOCOL_ERROR, loop\<lparr>lp_protocol := Some p''\<rparr>, c'', i2, e'') \<and>
    loop_inv (loop\<lparr>lp_protocol := Some p''\<rparr>) p'' c'' i2 \<and>
    iteration_returns trace current delivered hash p c i PD_RECEIVER_LOOP_PROTOCOL_ERROR p'' c'' i2"
    by (rule failing_exit) (use assms i2(2) in auto)
  then show ?thesis unfolding i2(1) by fastforce
qed

end

context loop_env
begin

text \<open>After an accepted frame: the acknowledgement, the event, and going on or returning.\<close>

lemma accepted_step:
  assumes "wired loop" and "pinv p' c'" and "io_inv i1"
    and "frame_accepted current delivered hash h payload n p c p' c'" and "n \<le> length (the_default [] payload)"
    and "receive_op i = Some (True, h, payload, n, i1)"
  shows "\<exists>r. (do {
       (acknowledged, i) \<leftarrow> (if pd_loop_should_ack (fh_type h)
                            then pd_loop_send_ack (loop\<lparr>lp_protocol := Some p'\<rparr>) (fh_type h) PD_ACK_OK c' i1
                            else Some (True, i1));
       if \<not> acknowledged then map_option Inl (loop_exit (loop\<lparr>lp_protocol := Some p'\<rparr>) PD_RECEIVER_LOOP_SEND_ERROR c' i e1)
       else if fh_type h = PD_MSG_FILE_BEGIN then do {
         e \<leftarrow> pd_loop_emit (loop\<lparr>lp_protocol := Some p'\<rparr>) PD_RECEIVER_LOOP_FILE_STARTED c' e1;
         Some (Inr (loop\<lparr>lp_protocol := Some p'\<rparr>, c', i, e)) }
       else if fh_type h = PD_MSG_CHUNK then do {
         e \<leftarrow> pd_loop_emit (loop\<lparr>lp_protocol := Some p'\<rparr>) PD_RECEIVER_LOOP_PROGRESS c' e1;
         Some (Inr (loop\<lparr>lp_protocol := Some p'\<rparr>, c', i, e)) }
       else if fh_type h = PD_MSG_FILE_END then do {
         e \<leftarrow> pd_loop_emit (loop\<lparr>lp_protocol := Some p'\<rparr>) PD_RECEIVER_LOOP_COMPLETE c' e1;
         Some (Inl (PD_RECEIVER_LOOP_OK, loop\<lparr>lp_protocol := Some p'\<rparr>, c', i, e)) }
       else Some (Inr (loop\<lparr>lp_protocol := Some p'\<rparr>, c', i, e1)) }) = Some r \<and>
    (case r of
       Inl (res, loop'', c'', i'', e'') \<Rightarrow> \<exists>p''. loop_inv loop'' p'' c'' i'' \<and>
         iteration_returns trace current delivered hash p c i res p'' c'' i''
     | Inr (loop'', c'', i'', e'') \<Rightarrow> \<exists>p''. loop_inv loop'' p'' c'' i'' \<and>
         iteration_goes_on trace current delivered p c i p'' c'' i'')"
proof -
  let ?l = "loop\<lparr>lp_protocol := Some p'\<rparr>"
  have w: "wired ?l" using assms(1) by simp
  have hc: "handler_inv c'" using assms(2) by (simp add: protocol_inv_def)
  have ack: "pd_loop_should_ack (fh_type h)" by (rule accepted_frame_acked [OF assms(4)])
  obtain ok i2 a where s: "pd_loop_send_ack ?l (fh_type h) PD_ACK_OK c' i1 = Some (ok, i2)" "io_inv i2"
    "ack_acknowledged_type a = fh_type h" "ack_status a = PD_ACK_OK" "trace i1 [Sent ack_header (ack_wire a) ok] i2"
    using send_ack_spec [OF w hc assms(3) ack, of PD_ACK_OK] by (auto simp: PD_ACK_status_defs)
  have tr: "trace i [Received h (take n (the_default [] payload)), Sent ack_header (ack_wire a) ok] i2"
    using assms(6) s(5) by (rule io_trace.received)
  have inv: "loop_inv ?l p' c' i2" using w assms(2) s(2) by (simp add: loop_inv_def)
  obtain e2 where e2: "pd_loop_emit ?l PD_RECEIVER_LOOP_FILE_STARTED c' e1 = Some e2" using emit_returns [OF w hc] .
  obtain e3 where e3: "pd_loop_emit ?l PD_RECEIVER_LOOP_PROGRESS c' e1 = Some e3" using emit_returns [OF w hc] .
  obtain e4 where e4: "pd_loop_emit ?l PD_RECEIVER_LOOP_COMPLETE c' e1 = Some e4" using emit_returns [OF w hc] .
  show ?thesis
  proof (cases ok)
    case False
    then show ?thesis
      using send_error_exit [OF assms(1,2) s(2) assms(4) _ s(3,4), of i "take n (the_default [] payload)" e1] tr
      by (auto simp: ack s(1))
  next
    case True
    show ?thesis
    proof (cases "fh_type h = PD_MSG_FILE_END")
      case last: True
      have "iteration_returns trace current delivered hash p c i PD_RECEIVER_LOOP_OK p' c' i2"
        by (rule frame_accepted_ending [OF assms(4) last _ s(3,4)]) (use tr True in simp)
      then show ?thesis using True last inv e4 s(1) ack by (auto simp: last)
    next
      case False
      have "iteration_goes_on trace current delivered p c i p' c' i2"
        by (rule frame_accepted_going [OF assms(4,5) _ s(3,4) False]) (use tr True in simp)
      moreover have "fh_type h = PD_MSG_FILE_BEGIN \<or> fh_type h = PD_MSG_CHUNK"
        using frame_accepted_state [OF assms(4)] False by simp
      ultimately show ?thesis using True inv e2 e3 s(1) ack by auto
    qed
  qed
qed

lemma iteration_spec:
  assumes "loop_inv loop p c i" and "\<not> protocol_done p"
  shows "\<exists>r. loop_iteration loop c i e = Some r \<and>
    (case r of
       Inl (res, loop', c', i', e') \<Rightarrow> \<exists>p'. loop_inv loop' p' c' i' \<and>
         iteration_returns trace current delivered hash p c i res p' c' i'
     | Inr (loop', c', i', e') \<Rightarrow> \<exists>p'. loop_inv loop' p' c' i' \<and>
         iteration_goes_on trace current delivered p c i p' c' i')"
proof -
  have l: "wired loop" "lp_protocol loop = Some p" "pinv p c" "io_inv i" "handler_inv c"
    using assms(1) by (auto simp: loop_inv_def protocol_inv_def)
  have io: "lp_io_ops loop = Some \<lparr>io_receive_frame = Some receive_op, io_send_frame = Some send_op\<rparr>"
    using l(1) by (simp add: loop_wired_def)
  have loop_id: "loop\<lparr>lp_protocol := Some p\<rparr> = loop" using l(2) by (cases loop) simp
  obtain ok h payload n i1 where rcv: "receive_op i = Some (ok, h, payload, n, i1)" "io_inv i1"
    "ok \<Longrightarrow> n \<le> length (the_default [] payload)" "ok \<Longrightarrow> payload = None \<longrightarrow> n = 0"
    using receive_returns [OF l(4)] by blast
  show ?thesis
  proof (cases ok)
    case False
    have "\<exists>p'' c'' e''. loop_exit (loop\<lparr>lp_protocol := Some p\<rparr>) PD_RECEIVER_LOOP_RECEIVE_ERROR c i1 e =
        Some (PD_RECEIVER_LOOP_RECEIVE_ERROR, loop\<lparr>lp_protocol := Some p''\<rparr>, c'', i1, e'') \<and>
      loop_inv (loop\<lparr>lp_protocol := Some p''\<rparr>) p'' c'' i1 \<and>
      iteration_returns trace current delivered hash p c i PD_RECEIVER_LOOP_RECEIVE_ERROR p'' c'' i1"
      by (rule failing_exit) (use l rcv(2) assms(2) in \<open>auto simp: protocol_done_def\<close>)
    then show ?thesis using False rcv(1) by (auto simp: loop_iteration_def io loop_id)
  next
    case True
    obtain e1 where e1: "(if fh_type h = PD_MSG_FILE_END then pd_loop_emit loop PD_RECEIVER_LOOP_VERIFYING c e else Some e) = Some e1"
      using emit_returns [OF l(1,5), of PD_RECEIVER_LOOP_VERIFYING e] by metis
    obtain res p' c' where hd: "pd_receiver_protocol_handle (Some p) (Some h) payload n c = Some (res, Some p', c')" "pinv p' c'"
      "if res = PD_RECEIVER_PROTOCOL_OK then frame_accepted current delivered hash h payload n p c p' c'
       else rp_state p' = PD_RECEIVER_PROTOCOL_FAILED \<and>
         (rp_state p = PD_RECEIVER_PROTOCOL_RECEIVING \<longrightarrow> delivered c' = delivered c \<and> current c' = None)"
      using handle_spec [OF l(3) rcv(3) [OF True] rcv(4) [OF True], of h] assms(2) by auto
    note run = loop_iteration_def Let_def io rcv(1) True e1 l(2) hd(1)
    show ?thesis
    proof (cases "res = PD_RECEIVER_PROTOCOL_OK")
      case ok: True
      have acc: "frame_accepted current delivered hash h payload n p c p' c'" using hd(3) ok by simp
      have r: "receive_op i = Some (True, h, payload, n, i1)" using rcv(1) True by simp
      from accepted_step [OF l(1) hd(2) rcv(2) acc rcv(3) [OF True] r, of e1]
      show ?thesis by (simp add: run ok)
    next
      case bad: False
      have "rp_state p' = PD_RECEIVER_PROTOCOL_FAILED"
        "rp_state p = PD_RECEIVER_PROTOCOL_RECEIVING \<longrightarrow> delivered c' = delivered c \<and> current c' = None"
        using hd(3) bad by simp_all
      from refused_exit [OF l(1) hd(2) rcv(2) bad this, of "fh_type h" e1 i]
      show ?thesis using bad by (auto simp: run)
    qed
  qed
qed

end

section \<open>The whole loop\<close>

text \<open>How the rest of a loop ends that is receiving a file \<open>md\<close> of which \<open>bs\<close> was accepted.\<close>

definition rest_of_loop where
  "rest_of_loop trace current delivered hash md bs c i res p' c' i' \<longleftrightarrow>
     (case res of
        PD_RECEIVER_LOOP_OK \<Rightarrow>
          rp_state p' = PD_RECEIVER_PROTOCOL_COMPLETE \<and>
          (\<exists>chunks ecs ee. trace i (concat ecs @ ee) i' \<and> list_all2 (exchange PD_MSG_CHUNK) chunks ecs \<and>
             exchange PD_MSG_FILE_END [] ee \<and>
             delivered c' = Some (bs @ concat chunks) \<and> length (bs @ concat chunks) = unat (fb_file_size md) \<and>
             hash (bs @ concat chunks) = fb_sha256 md)
      | PD_RECEIVER_LOOP_SEND_ERROR \<Rightarrow> protocol_done p' \<and>
          (delivered c' = delivered c \<and> current c' = None \<or>
           (\<exists>chunks ecs j. trace i (concat ecs) j \<and> list_all2 (exchange PD_MSG_CHUNK) chunks ecs \<and>
             acknowledgement_lost trace PD_MSG_FILE_END j i' \<and>
             delivered c' = Some (bs @ concat chunks) \<and> length (bs @ concat chunks) = unat (fb_file_size md) \<and>
             hash (bs @ concat chunks) = fb_sha256 md))
      | PD_RECEIVER_LOOP_INVALID_ARGUMENT \<Rightarrow> False
      | _ \<Rightarrow> rp_state p' = PD_RECEIVER_PROTOCOL_FAILED \<and> delivered c' = delivered c \<and> current c' = None)"

lemma rest_of_loop_return:
  assumes "iteration_returns trace current delivered hash p c i res p' c' i'"
    and "rp_state p = PD_RECEIVER_PROTOCOL_RECEIVING" and "bs = accepted_bytes current c"
    and "trace i [] i"
  shows "rest_of_loop trace current delivered hash (rp_current_file p) bs c i res p' c' i'"
proof (cases res)
  case PD_RECEIVER_LOOP_OK
  with assms obtain ee where "trace i (concat [] @ ee) i'" "exchange PD_MSG_FILE_END [] ee"
    "rp_state p' = PD_RECEIVER_PROTOCOL_COMPLETE" "delivered c' = Some (bs @ concat [])"
    "length (bs @ concat []) = unat (fb_file_size (rp_current_file p))"
    "hash (bs @ concat []) = fb_sha256 (rp_current_file p)" "list_all2 (exchange PD_MSG_CHUNK) [] []"
    by (auto simp: iteration_returns_def)
  then show ?thesis unfolding rest_of_loop_def PD_RECEIVER_LOOP_OK pd_receiver_loop_result.case by blast
next
  case PD_RECEIVER_LOOP_SEND_ERROR
  have "\<exists>chunks ecs j. trace i (concat ecs) j \<and> list_all2 (exchange PD_MSG_CHUNK) chunks ecs \<and>
      acknowledgement_lost trace PD_MSG_FILE_END j i' \<and> delivered c' = Some (bs @ concat chunks) \<and>
      length (bs @ concat chunks) = unat (fb_file_size (rp_current_file p)) \<and>
      hash (bs @ concat chunks) = fb_sha256 (rp_current_file p)"
    if "acknowledgement_lost trace PD_MSG_FILE_END i i'" "delivered c' = Some bs" "length bs = unat (fb_file_size (rp_current_file p))"
      "hash bs = fb_sha256 (rp_current_file p)"
    using that assms(4) by (intro exI [of _ "[]"] exI [of _ i]) simp
  then show ?thesis using assms(1-3) by (auto simp: PD_RECEIVER_LOOP_SEND_ERROR iteration_returns_def rest_of_loop_def)
qed (use assms in \<open>simp_all add: iteration_returns_def rest_of_loop_def\<close>)

lemma rest_of_loop_step:
  assumes "rest_of_loop (io_trace r s) current delivered hash md (bs @ chunk) c1 i1 res p' c' i'"
    and "io_trace r s i evs i1" and "exchange PD_MSG_CHUNK chunk evs" and "delivered c1 = delivered c"
  shows "rest_of_loop (io_trace r s) current delivered hash md bs c i res p' c' i'"
proof (cases res)
  case PD_RECEIVER_LOOP_OK
  with assms(1) obtain chunks ecs ee where "io_trace r s i1 (concat ecs @ ee) i'"
    "list_all2 (exchange PD_MSG_CHUNK) chunks ecs" "exchange PD_MSG_FILE_END [] ee"
    "rp_state p' = PD_RECEIVER_PROTOCOL_COMPLETE" "delivered c' = Some (bs @ concat (chunk # chunks))"
    "length (bs @ concat (chunk # chunks)) = unat (fb_file_size md)" "hash (bs @ concat (chunk # chunks)) = fb_sha256 md"
    by (auto simp: rest_of_loop_def)
  moreover have "io_trace r s i (concat (evs # ecs) @ ee) i'"
    using io_trace_append [OF assms(2) calculation(1)] by simp
  moreover have "list_all2 (exchange PD_MSG_CHUNK) (chunk # chunks) (evs # ecs)"
    using calculation(2) assms(3) by simp
  ultimately show ?thesis unfolding rest_of_loop_def PD_RECEIVER_LOOP_OK pd_receiver_loop_result.case by blast
next
  case PD_RECEIVER_LOOP_SEND_ERROR
  have "\<exists>chunks ecs j. io_trace r s i (concat ecs) j \<and> list_all2 (exchange PD_MSG_CHUNK) chunks ecs \<and>
      acknowledgement_lost (io_trace r s) PD_MSG_FILE_END j i' \<and> delivered c' = Some (bs @ concat chunks) \<and>
      length (bs @ concat chunks) = unat (fb_file_size md) \<and> hash (bs @ concat chunks) = fb_sha256 md"
    if "io_trace r s i1 (concat ecs) j" "list_all2 (exchange PD_MSG_CHUNK) chunks ecs"
      "acknowledgement_lost (io_trace r s) PD_MSG_FILE_END j i'" "delivered c' = Some ((bs @ chunk) @ concat chunks)"
      "length ((bs @ chunk) @ concat chunks) = unat (fb_file_size md)" "hash ((bs @ chunk) @ concat chunks) = fb_sha256 md"
    for chunks ecs j
    using that assms(3) io_trace_append [OF assms(2) that(1)]
    by (intro exI [of _ "chunk # chunks"] exI [of _ "evs # ecs"] exI [of _ j]) simp
  then show ?thesis using assms(1,4) unfolding rest_of_loop_def PD_RECEIVER_LOOP_SEND_ERROR pd_receiver_loop_result.case by metis
qed (use assms in \<open>simp_all add: rest_of_loop_def\<close>)

context loop_env
begin

lemma accepted_bounded:
  "loop_inv loop p c i \<Longrightarrow> rp_state p = PD_RECEIVER_PROTOCOL_RECEIVING \<Longrightarrow>
   length (accepted_bytes current c) \<le> unat (fb_file_size (rp_current_file p))"
  by (auto simp: loop_inv_def protocol_inv_def accepted_bytes_def)

text \<open>While a file is being received the loop returns: every chunk it accepts adds at least one byte
  to a file that never grows past its announced size.\<close>

lemma receiving_loop:
  assumes "loop_inv loop p c i" and "rp_state p = PD_RECEIVER_PROTOCOL_RECEIVING"
  shows "\<exists>res loop' p' c' i' e'. loop_forever loop c i e = Some (res, loop', c', i', e') \<and> loop_inv loop' p' c' i' \<and>
    rest_of_loop trace current delivered hash (rp_current_file p) (accepted_bytes current c) c i res p' c' i'"
  using assms
proof (induction "unat (fb_file_size (rp_current_file p)) - length (accepted_bytes current c)"
    arbitrary: loop c i e rule: less_induct)
  case less
  have "\<not> protocol_done p" using less.prems(2) by (simp add: protocol_done_def)
  from iteration_spec [OF less.prems(1) this, of e] obtain r where r: "loop_iteration loop c i e = Some r"
    "case r of
       Inl (res, loop', c', i', e') \<Rightarrow> \<exists>p'. loop_inv loop' p' c' i' \<and>
         iteration_returns trace current delivered hash p c i res p' c' i'
     | Inr (loop', c', i', e') \<Rightarrow> \<exists>p'. loop_inv loop' p' c' i' \<and>
         iteration_goes_on trace current delivered p c i p' c' i'"
    by blast
  show ?case
  proof (cases r)
    case (Inl x)
    obtain res loop' c' i' e' where x: "x = (res, loop', c', i', e')" by (cases x)
    with r(2) Inl obtain p' where p': "loop_inv loop' p' c' i'"
      "iteration_returns trace current delivered hash p c i res p' c' i'" by auto
    have "rest_of_loop trace current delivered hash (rp_current_file p) (accepted_bytes current c) c i res p' c' i'"
      by (rule rest_of_loop_return [OF p'(2) less.prems(2) refl io_trace.silent])
    moreover have "loop_forever loop c i e = Some (res, loop', c', i', e')"
      by (subst loop_forever.simps) (simp add: r(1) Inl x)
    ultimately show ?thesis using p'(1) by blast
  next
    case (Inr x)
    obtain loop1 c1 i1 e1 where x: "x = (loop1, c1, i1, e1)" by (cases x)
    with r(2) Inr obtain p1 where p1: "loop_inv loop1 p1 c1 i1" "iteration_goes_on trace current delivered p c i p1 c1 i1" by auto
    have "p1 = p" "delivered c1 = delivered c" "\<exists>chunk evs. chunk \<noteq> [] \<and> trace i evs i1 \<and> exchange PD_MSG_CHUNK chunk evs \<and>
        accepted_bytes current c1 = accepted_bytes current c @ chunk"
      using p1(2) less.prems(2) by (simp_all add: iteration_goes_on_def)
    with p1(1) obtain chunk evs where g: "loop_inv loop1 p c1 i1" "chunk \<noteq> []" "trace i evs i1" "exchange PD_MSG_CHUNK chunk evs"
      "accepted_bytes current c1 = accepted_bytes current c @ chunk" "delivered c1 = delivered c"
      by blast
    have "length (accepted_bytes current c @ chunk) \<le> unat (fb_file_size (rp_current_file p))"
      using accepted_bounded [OF g(1) less.prems(2)] g(5) by simp
    then have "unat (fb_file_size (rp_current_file p)) - length (accepted_bytes current c1) <
        unat (fb_file_size (rp_current_file p)) - length (accepted_bytes current c)"
      using g(2,5) by (cases chunk) auto
    from less.hyps [OF this g(1) less.prems(2), of e1] obtain res loop' p' c' i' e' where
      f: "loop_forever loop1 c1 i1 e1 = Some (res, loop', c', i', e')" "loop_inv loop' p' c' i'"
      "rest_of_loop trace current delivered hash (rp_current_file p) (accepted_bytes current c @ chunk) c1 i1 res p' c' i'"
      unfolding g(5) by blast
    have "loop_forever loop c i e = Some (res, loop', c', i', e')"
      by (subst loop_forever.simps) (simp add: r(1) Inr x f(1))
    with f(2) rest_of_loop_step [OF f(3) g(3,4,6)] show ?thesis by blast
  qed
qed

end

text \<open>What a loop that succeeded has done: the conversation was the announcement of a file, its chunks
  and its end, each acknowledged, and the handler delivered the concatenated chunks, which have the
  announced size and digest, under the sanitised name.\<close>

definition loop_delivered where
  "loop_delivered trace delivered hash i c' i' \<longleftrightarrow>
     (\<exists>fsize sha name chunks eb ecs ee. wire_name name \<and>
        trace i (eb @ concat ecs @ ee) i' \<and>
        exchange PD_MSG_FILE_BEGIN (file_begin_wire fsize sha name) eb \<and>
        list_all2 (exchange PD_MSG_CHUNK) chunks ecs \<and>
        exchange PD_MSG_FILE_END [] ee \<and>
        delivered c' = Some (concat chunks) \<and> length (concat chunks) = unat fsize \<and> hash (concat chunks) = sha)"

lemma loop_delivered_intro:
  assumes "rest_of_loop (io_trace r s) current delivered hash (file_begin_of fsize sha name) [] c1 i1 PD_RECEIVER_LOOP_OK p' c' i'"
    and "io_trace r s i eb i1" and "exchange PD_MSG_FILE_BEGIN (file_begin_wire fsize sha name) eb" and "wire_name name"
  shows "loop_delivered (io_trace r s) delivered hash i c' i'"
proof -
  from assms(1) obtain chunks ecs ee where o: "io_trace r s i1 (concat ecs @ ee) i'"
    "list_all2 (exchange PD_MSG_CHUNK) chunks ecs" "exchange PD_MSG_FILE_END [] ee"
    "delivered c' = Some (concat chunks)" "length (concat chunks) = unat fsize" "hash (concat chunks) = sha"
    by (auto simp: rest_of_loop_def)
  with io_trace_append [OF assms(2) o(1)] assms(3,4) show ?thesis
    unfolding loop_delivered_def by blast
qed

context loop_env
begin

lemma waiting_loop:
  assumes "loop_inv loop p c i" and "rp_state p = PD_RECEIVER_PROTOCOL_WAIT_FILE"
  shows "\<exists>res loop' p' c' i' e'. loop_forever loop c i e = Some (res, loop', c', i', e') \<and> loop_inv loop' p' c' i' \<and>
    res \<noteq> PD_RECEIVER_LOOP_INVALID_ARGUMENT \<and> protocol_done p' \<and>
    (res = PD_RECEIVER_LOOP_OK \<longrightarrow> loop_delivered trace delivered hash i c' i' \<and> rp_state p' = PD_RECEIVER_PROTOCOL_COMPLETE) \<and>
    (res = PD_RECEIVER_LOOP_RECEIVE_ERROR \<or> res = PD_RECEIVER_LOOP_PROTOCOL_ERROR \<longrightarrow> rp_state p' = PD_RECEIVER_PROTOCOL_FAILED)"
proof -
  have "\<not> protocol_done p" using assms(2) by (simp add: protocol_done_def)
  from iteration_spec [OF assms(1) this, of e] obtain r where r: "loop_iteration loop c i e = Some r"
    "case r of
       Inl (res, loop', c', i', e') \<Rightarrow> \<exists>p'. loop_inv loop' p' c' i' \<and>
         iteration_returns trace current delivered hash p c i res p' c' i'
     | Inr (loop', c', i', e') \<Rightarrow> \<exists>p'. loop_inv loop' p' c' i' \<and>
         iteration_goes_on trace current delivered p c i p' c' i'"
    by blast
  show ?thesis
  proof (cases r)
    case (Inl x)
    obtain res loop' c' i' e' where x: "x = (res, loop', c', i', e')" by (cases x)
    with r(2) Inl obtain p' where p': "loop_inv loop' p' c' i'"
      "iteration_returns trace current delivered hash p c i res p' c' i'" by auto
    have f: "loop_forever loop c i e = Some (res, loop', c', i', e')"
      by (subst loop_forever.simps) (simp add: r(1) Inl x)
    have "res \<noteq> PD_RECEIVER_LOOP_OK \<and> res \<noteq> PD_RECEIVER_LOOP_INVALID_ARGUMENT \<and> protocol_done p' \<and>
        (res = PD_RECEIVER_LOOP_RECEIVE_ERROR \<or> res = PD_RECEIVER_LOOP_PROTOCOL_ERROR \<longrightarrow> rp_state p' = PD_RECEIVER_PROTOCOL_FAILED)"
      using p'(2) assms(2) by (cases res) (simp_all add: iteration_returns_def protocol_done_def)
    with f p'(1) show ?thesis by blast
  next
    case (Inr x)
    obtain loop1 c1 i1 e1 where x: "x = (loop1, c1, i1, e1)" by (cases x)
    with r(2) Inr obtain p1 where p1: "loop_inv loop1 p1 c1 i1" "iteration_goes_on trace current delivered p c i p1 c1 i1" by auto
    then have st: "rp_state p1 = PD_RECEIVER_PROTOCOL_RECEIVING" "accepted_bytes current c1 = []"
      "\<exists>fsize sha name evs. wire_name name \<and> length sha = 32 \<and> trace i evs i1 \<and>
          exchange PD_MSG_FILE_BEGIN (file_begin_wire fsize sha name) evs \<and>
          rp_current_file p1 = file_begin_of fsize sha name \<and> safe_name (sanitized name) \<and>
          c_str (rp_sanitized_filename p1) = sanitized name"
      using assms(2) by (simp_all add: iteration_goes_on_def)
    then obtain fsize sha name eb where b: "wire_name name" "trace i eb i1"
      "exchange PD_MSG_FILE_BEGIN (file_begin_wire fsize sha name) eb" "rp_current_file p1 = file_begin_of fsize sha name"
      by blast
    obtain res loop' p' c' i' e' where f: "loop_forever loop1 c1 i1 e1 = Some (res, loop', c', i', e')" "loop_inv loop' p' c' i'"
      "rest_of_loop trace current delivered hash (file_begin_of fsize sha name) [] c1 i1 res p' c' i'"
      using receiving_loop [OF p1(1) st(1), of e1] unfolding st(2) b(4) by blast
    have "loop_forever loop c i e = Some (res, loop', c', i', e')"
      by (subst loop_forever.simps) (simp add: r(1) Inr x f(1))
    moreover have "loop_delivered trace delivered hash i c' i'" if "res = PD_RECEIVER_LOOP_OK"
      by (rule loop_delivered_intro [OF f(3) [unfolded that] b(2,3,1)])
    moreover have "res \<noteq> PD_RECEIVER_LOOP_INVALID_ARGUMENT" "protocol_done p'"
      "res = PD_RECEIVER_LOOP_OK \<Longrightarrow> rp_state p' = PD_RECEIVER_PROTOCOL_COMPLETE"
      "res = PD_RECEIVER_LOOP_RECEIVE_ERROR \<or> res = PD_RECEIVER_LOOP_PROTOCOL_ERROR \<Longrightarrow> rp_state p' = PD_RECEIVER_PROTOCOL_FAILED"
      using f(3) by (cases res; simp add: rest_of_loop_def protocol_done_def)+
    ultimately show ?thesis using f(2) by blast
  qed
qed

lemma run_spec:
  assumes "wired loop" and "lp_protocol loop = Some p" and "pinv p c" and "io_inv i"
    and "rp_state p = PD_RECEIVER_PROTOCOL_WAIT_FILE"
  shows "\<exists>res loop' p' c' i' e'. pd_receiver_loop_run (Some loop) c i e = Some (res, Some loop', c', i', e') \<and>
    lp_protocol loop' = Some p' \<and> pinv p' c' \<and> io_inv i' \<and>
    res \<noteq> PD_RECEIVER_LOOP_INVALID_ARGUMENT \<and> protocol_done p' \<and>
    (res = PD_RECEIVER_LOOP_OK \<longrightarrow> loop_delivered trace delivered hash i c' i' \<and> rp_state p' = PD_RECEIVER_PROTOCOL_COMPLETE) \<and>
    (res = PD_RECEIVER_LOOP_RECEIVE_ERROR \<or> res = PD_RECEIVER_LOOP_PROTOCOL_ERROR \<longrightarrow> rp_state p' = PD_RECEIVER_PROTOCOL_FAILED)"
proof -
  have "handler_inv c" using assms(3) by (simp add: protocol_inv_def)
  then obtain e1 where e1: "pd_loop_emit loop PD_RECEIVER_LOOP_READY c e = Some e1"
    using emit_returns [OF assms(1)] by blast
  have inv: "loop_inv loop p c i" using assms(1-4) by (simp add: loop_inv_def)
  obtain res loop' p' c' i' e' where f: "loop_forever loop c i e1 = Some (res, loop', c', i', e')" "loop_inv loop' p' c' i'"
    "res \<noteq> PD_RECEIVER_LOOP_INVALID_ARGUMENT \<and> protocol_done p' \<and>
    (res = PD_RECEIVER_LOOP_OK \<longrightarrow> loop_delivered trace delivered hash i c' i' \<and> rp_state p' = PD_RECEIVER_PROTOCOL_COMPLETE) \<and>
    (res = PD_RECEIVER_LOOP_RECEIVE_ERROR \<or> res = PD_RECEIVER_LOOP_PROTOCOL_ERROR \<longrightarrow> rp_state p' = PD_RECEIVER_PROTOCOL_FAILED)"
    using waiting_loop [OF inv assms(5), of e1] by blast
  have "pd_receiver_loop_run (Some loop) c i e = Some (res, Some loop', c', i', e')"
    using assms(1,2) e1 f(1) by (simp add: pd_receiver_loop_run_def loop_wired_def)
  with f show ?thesis unfolding loop_inv_def by blast
qed

end

section \<open>A scripted transport\<close>

text \<open>A transport that plays back a list of frames and forgets what is sent, and an event sink that
  collects the events, for the witnesses.\<close>

type_synonym script = "(pd_frame_header \<times> u8 list) list"

definition script_receive :: "script \<Rightarrow> (bool \<times> pd_frame_header \<times> u8 list option \<times> nat \<times> script) option" where
  "script_receive i = Some (case i of
     [] \<Rightarrow> (False, pd_frame_header_zero, None, 0, [])
   | (h, d) # rest \<Rightarrow> (True, h, Some d, length d, rest))"

definition script_send :: "script \<Rightarrow> pd_frame_header option \<Rightarrow> u8 list option \<Rightarrow> nat \<Rightarrow> (bool \<times> script) option" where
  "script_send i h d n = Some (True, i)"

definition mem_progress :: "mem_handler \<Rightarrow> u64 option" where
  "mem_progress c = Some (case fst c of None \<Rightarrow> 0 | Some (_, _, bs) \<Rightarrow> word_of_nat (length bs))"

definition collect :: "pd_receiver_loop_event list \<Rightarrow> pd_receiver_loop_event \<Rightarrow> u64 \<Rightarrow> u64 \<Rightarrow> pd_receiver_loop_event list option" where
  "collect e event received announced = Some (e @ [event])"

interpretation scripted: loop_env memh_begin memh_chunk memh_finish memh_abort "\<lambda>_. True" fst snd zero_hash
  script_receive script_send "\<lambda>_. True" mem_progress collect
  by unfold_locales (auto simp: script_receive_def script_send_def mem_progress_def collect_def split: list.splits)

definition example_loop :: "(mem_handler, script, pd_receiver_loop_event list) pd_receiver_loop" where
  "example_loop = \<lparr>lp_io_ops = Some \<lparr>io_receive_frame = Some script_receive, io_send_frame = Some script_send\<rparr>,
     lp_protocol = Some \<lparr>rp_ops = Some mem_table, rp_current_file = pd_file_begin_zero,
       rp_sanitized_filename = replicate 121 0, rp_state = PD_RECEIVER_PROTOCOL_WAIT_FILE, rp_file_active = False\<rparr>,
     lp_progress = Some mem_progress, lp_event_callback = Some collect\<rparr>"

definition example_script :: script where
  "example_script =
     [(\<lparr>fh_type = 3, fh_flags = 0, fh_payload_length = 43\<rparr>, file_begin_wire 2 (replicate 32 0) [97]),
      (\<lparr>fh_type = 4, fh_flags = 0, fh_payload_length = 2\<rparr>, [1, 2]),
      (\<lparr>fh_type = 5, fh_flags = 0, fh_payload_length = 0\<rparr>, [])]"

section \<open>Properties\<close>

text \<open>C2: With a handler, a transport and callbacks that keep their contracts, and whatever frames the
  sender sends, the receive loop returns. If it reports success, the conversation was the announcement
  of a file, its chunks and its end, each positively acknowledged, and the delivered file is the
  concatenation of the chunks, with the announced size and digest; if the transport or the protocol
  failed, the protocol is in its failed state.\<close>

theorem receiver_loop_delivers:
  assumes "loop_env bo ko fo ao hinv current delivered hash receive_op send_op io_inv progress event_op"
    and "loop_wired receive_op send_op progress event_op loop" and "lp_protocol loop = Some p"
    and "protocol_inv (handler_table bo ko fo ao) hinv current p c" and "io_inv i"
    and "rp_state p = PD_RECEIVER_PROTOCOL_WAIT_FILE"
  shows "\<exists>res loop' p' c' i' e'. pd_receiver_loop_run (Some loop) c i e = Some (res, Some loop', c', i', e') \<and>
    lp_protocol loop' = Some p' \<and> res \<noteq> PD_RECEIVER_LOOP_INVALID_ARGUMENT \<and> protocol_done p' \<and>
    (res = PD_RECEIVER_LOOP_OK \<longrightarrow> loop_delivered (io_trace receive_op send_op) delivered hash i c' i') \<and>
    (res = PD_RECEIVER_LOOP_RECEIVE_ERROR \<or> res = PD_RECEIVER_LOOP_PROTOCOL_ERROR \<longrightarrow>
       rp_state p' = PD_RECEIVER_PROTOCOL_FAILED)"
  using loop_env.run_spec [OF assms, of e] by blast

theorem receiver_loop_delivers_witness:
  "\<exists>res loop' p' c' i' e'.
     pd_receiver_loop_run (Some example_loop) (None, None) example_script [] = Some (res, Some loop', c', i', e') \<and>
     lp_protocol loop' = Some p' \<and> res \<noteq> PD_RECEIVER_LOOP_INVALID_ARGUMENT \<and> protocol_done p'"
proof -
  let ?p = "\<lparr>rp_ops = Some mem_table, rp_current_file = pd_file_begin_zero,
       rp_sanitized_filename = replicate 121 0, rp_state = PD_RECEIVER_PROTOCOL_WAIT_FILE, rp_file_active = False\<rparr>"
  have w: "loop_wired script_receive script_send mem_progress collect example_loop"
    by (simp add: loop_wired_def example_loop_def)
  have p: "lp_protocol example_loop = Some ?p" by (simp add: example_loop_def)
  have inv: "protocol_inv mem_table (\<lambda>_. True) fst ?p (None, None)" by (simp add: protocol_inv_def)
  from receiver_loop_delivers [OF scripted.loop_env_axioms w p inv, of example_script "[]"]
  show ?thesis by auto
qed

text \<open>C16: Once a file is being received, the loop always ends, and no failure leaves a damaged file under the
  final name. If the transport fails to receive or the protocol refuses a frame, the file there is
  exactly what it was and no file is active in the handler. If an acknowledgement cannot be sent, that
  holds as well, unless it is the one of the end of the file: then the announced file has just been
  published, with every chunk the sender sent and with the announced size and digest, although the
  sender did not learn of it and the loop reports an error.\<close>

theorem receiver_loop_failure_keeps_file:
  assumes "loop_env bo ko fo ao hinv current delivered hash receive_op send_op io_inv progress event_op"
    and "loop_wired receive_op send_op progress event_op loop" and "lp_protocol loop = Some p"
    and "protocol_inv (handler_table bo ko fo ao) hinv current p c" and "io_inv i"
    and "rp_state p = PD_RECEIVER_PROTOCOL_RECEIVING"
  shows "\<exists>res loop' c' i' e'. loop_forever loop c i e = Some (res, loop', c', i', e') \<and>
    (res \<noteq> PD_RECEIVER_LOOP_OK \<longrightarrow> delivered c' = delivered c \<and> current c' = None \<or>
       res = PD_RECEIVER_LOOP_SEND_ERROR \<and>
       (\<exists>chunks ecs j. io_trace receive_op send_op i (concat ecs) j \<and> list_all2 (exchange PD_MSG_CHUNK) chunks ecs \<and>
          acknowledgement_lost (io_trace receive_op send_op) PD_MSG_FILE_END j i' \<and>
          delivered c' = Some (accepted_bytes current c @ concat chunks) \<and>
          length (accepted_bytes current c @ concat chunks) = unat (fb_file_size (rp_current_file p)) \<and>
          hash (accepted_bytes current c @ concat chunks) = fb_sha256 (rp_current_file p)))"
proof -
  have "loop_env.loop_inv bo ko fo ao hinv current receive_op send_op io_inv progress event_op loop p c i"
    unfolding loop_env.loop_inv_def [OF assms(1)] using assms(2-5) by blast
  from loop_env.receiving_loop [OF assms(1) this assms(6), of e] obtain res loop' p' c' i' e' where
    f: "loop_forever loop c i e = Some (res, loop', c', i', e')"
    "rest_of_loop (io_trace receive_op send_op) current delivered hash (rp_current_file p) (accepted_bytes current c) c i res p' c' i'"
    "loop_env.loop_inv bo ko fo ao hinv current receive_op send_op io_inv progress event_op loop' p' c' i'"
    by blast
  show ?thesis
    using f(2) by (intro exI [of _ res] exI [of _ loop'] exI [of _ c'] exI [of _ i'] exI [of _ e'])
      (cases res; simp add: rest_of_loop_def f(1))
qed

theorem receiver_loop_failure_keeps_file_witness:
  "\<exists>res loop' c' i' e'. loop_forever (example_loop\<lparr>lp_protocol := Some example_protocol\<rparr>)
      (Some (2, replicate 32 0, [7]), Some [9]) [] [] = Some (res, loop', c', i', e') \<and>
     res = PD_RECEIVER_LOOP_RECEIVE_ERROR \<and> snd c' = Some [9] \<and> fst c' = None"
proof -
  let ?l = "example_loop\<lparr>lp_protocol := Some example_protocol\<rparr>"
  let ?c = "(Some (2, replicate 32 0, [7]), Some [9]) :: mem_handler"
  have w: "loop_wired script_receive script_send mem_progress collect ?l"
    by (simp add: loop_wired_def example_loop_def)
  have p: "lp_protocol ?l = Some example_protocol" by simp
  have inv: "protocol_inv mem_table (\<lambda>_. True) fst example_protocol ?c"
    using example_protocol_inv by (simp add: protocol_inv_def example_protocol_def)
  have st: "rp_state example_protocol = PD_RECEIVER_PROTOCOL_RECEIVING" by (simp add: example_protocol_def)
  have "\<exists>l c e. loop_forever ?l ?c [] [] = Some (PD_RECEIVER_LOOP_RECEIVE_ERROR, l, c, [], e)"
    by (subst loop_forever.simps) (simp add: loop_iteration_def example_loop_def script_receive_def loop_exit_def
      pd_receiver_protocol_abort_def example_protocol_def protocol_release_def memh_abort_def
      pd_loop_emit_def pd_loop_received_bytes_def mem_progress_def collect_def Let_def)
  with receiver_loop_failure_keeps_file [OF scripted.loop_env_axioms w p inv _ st, of "[]" "[]"]
  show ?thesis by auto
qed

text \<open>
  The acknowledgement vocabulary has a status for a file whose digest does not match, but no protocol
  result maps to it: a mismatch reaches the sender as a storage error.
\<close>

lemma integrity_status_never_sent:
  "pd_loop_error_status result \<noteq> PD_ACK_INTEGRITY_ERROR"
  "pd_loop_error_status PD_RECEIVER_PROTOCOL_HANDLER_ERROR = PD_ACK_STORAGE_ERROR"
  by (simp_all add: pd_loop_error_status_def PD_ACK_status_defs)

end
