(* ===== verification/PD_RelayUrl.thy ===== *)
theory PD_RelayUrl
  imports PD_Session
begin

text \<open>
  The relay addresses (\<^verbatim>\<open>relay_endpoint.c\<close>, \<^verbatim>\<open>relay_registration.c\<close>): from the configured base
  address of the relay they build the two WebSocket addresses of a session, the address a session is
  registered at and the body of the registration request.
\<close>

section \<open>Library calls\<close>

text \<open>\<^verbatim>\<open>memcmp(m, lit, n) == 0\<close> and \<^verbatim>\<open>strchr(m, c) != NULL\<close> for a character other than NUL.\<close>

definition memcmp_eq :: "u8 list \<Rightarrow> u8 list \<Rightarrow> nat \<Rightarrow> bool option" where
  "memcmp_eq m lit n = do { xs \<leftarrow> mem_slice m 0 n; ys \<leftarrow> mem_slice lit 0 n; Some (xs = ys) }"

definition strchr_found :: "u8 list \<Rightarrow> u8 \<Rightarrow> bool option" where
  "strchr_found m c = (if 0 \<in> set m then Some (c \<in> set (c_str m)) else None)"

text \<open>The string constants of the two files, without their terminators.\<close>

definition https_prefix :: "u8 list" where "https_prefix = c_lit ''https://''"
definition http_prefix :: "u8 list" where "http_prefix = c_lit ''http://''"
definition wss_prefix :: "u8 list" where "wss_prefix = c_lit ''wss://''"
definition ws_prefix :: "u8 list" where "ws_prefix = c_lit ''ws://''"
definition sessions_path :: "u8 list" where "sessions_path = c_lit ''/v1/sessions''"
definition receiver_path :: "u8 list" where "receiver_path = c_lit ''/v1/receiver/''"
definition sender_path :: "u8 list" where "sender_path = c_lit ''/v1/sender/''"

definition body_prefix :: "u8 list" where
  "body_prefix = c_lit ''{'' @ [34] @ c_lit ''session_id'' @ [34] @ c_lit '':'' @ [34]"

definition body_suffix :: "u8 list" where
  "body_suffix = [34] @ c_lit ''}''"

lemma length_constants [simp]:
  "length https_prefix = 8" "length http_prefix = 7" "length wss_prefix = 6" "length ws_prefix = 5"
  "length sessions_path = 12" "length receiver_path = 13" "length sender_path = 11"
  "length body_prefix = 15" "length body_suffix = 2"
  by (simp_all add: https_prefix_def http_prefix_def wss_prefix_def ws_prefix_def sessions_path_def
    receiver_path_def sender_path_def body_prefix_def body_suffix_def)

section \<open>relay_endpoint.c\<close>

definition PD_RELAY_ENDPOINT_MAX_BYTES :: nat where "PD_RELAY_ENDPOINT_MAX_BYTES = 511"
definition PD_RELAY_ENDPOINT_CAPACITY :: nat where "PD_RELAY_ENDPOINT_CAPACITY = PD_RELAY_ENDPOINT_MAX_BYTES + 1"
definition PD_RELAY_BASE_URL_MAX_BYTES :: nat where "PD_RELAY_BASE_URL_MAX_BYTES = 447"

lemma relay_url_sizes [simp]: "PD_RELAY_ENDPOINT_MAX_BYTES = 511" "PD_RELAY_ENDPOINT_CAPACITY = 512"
  "PD_RELAY_BASE_URL_MAX_BYTES = 447"
  by (simp_all add: PD_RELAY_ENDPOINT_MAX_BYTES_def PD_RELAY_ENDPOINT_CAPACITY_def PD_RELAY_BASE_URL_MAX_BYTES_def)

datatype pd_relay_endpoint_result =
    PD_RELAY_ENDPOINT_OK
  | PD_RELAY_ENDPOINT_INVALID_ARGUMENT
  | PD_RELAY_ENDPOINT_INVALID_BASE_URL
  | PD_RELAY_ENDPOINT_INVALID_SESSION_ID
  | PD_RELAY_ENDPOINT_BUFFER_TOO_SMALL

definition pd_session_id_is_valid :: "u8 list option \<Rightarrow> bool option" where
  "pd_session_id_is_valid session_id =
     (case session_id of
        None \<Rightarrow> Some False
      | Some v \<Rightarrow> do {
          n \<leftarrow> strlen v;
          if n \<noteq> PD_SESSION_TOKEN_HEX_CHARS then Some False
          else do {
            r \<leftarrow> for_ret 0 PD_SESSION_TOKEN_HEX_CHARS (\<lambda>index u. do {
                   value \<leftarrow> rd v index;
                   if \<not> ((48 \<le> value \<and> value \<le> 57) \<or> (97 \<le> value \<and> value \<le> 102))
                   then Some (Inl False) else Some (Inr ()) }) ();
            Some (case r of Inl b \<Rightarrow> b | Inr _ \<Rightarrow> True) } })"

text \<open>The loop that drops trailing slashes down to the scheme.\<close>

fun strip_slashes :: "u8 list \<Rightarrow> nat \<Rightarrow> nat \<Rightarrow> nat option" where
  "strip_slashes base prefix_length 0 = Some 0"
| "strip_slashes base prefix_length (Suc n) =
     (if prefix_length < Suc n
      then do {
        c \<leftarrow> rd base n;
        if c = of_char (CHR ''/'') then strip_slashes base prefix_length n else Some (Suc n) }
      else Some (Suc n))"

text \<open>The three results are written only on success; the caller reads them only then.\<close>

definition pd_normalize_base ::
  "u8 list option \<Rightarrow> (pd_relay_endpoint_result \<times> nat \<times> nat \<times> bool) option" where
  "pd_normalize_base base =
     (case base of
        None \<Rightarrow> Some (PD_RELAY_ENDPOINT_INVALID_ARGUMENT, 0, 0, False)
      | Some b \<Rightarrow> do {
          length0 \<leftarrow> strlen b;
          https \<leftarrow> c_and (Some (length https_prefix < length0)) (memcmp_eq b https_prefix (length https_prefix));
          http \<leftarrow> (if https then Some False
                  else c_and (Some (length http_prefix < length0)) (memcmp_eq b http_prefix (length http_prefix)));
          if \<not> https \<and> \<not> http then Some (PD_RELAY_ENDPOINT_INVALID_BASE_URL, 0, 0, False)
          else do {
            let prefix_length = (if https then length https_prefix else length http_prefix);
            bad \<leftarrow> c_or (Some (PD_RELAY_BASE_URL_MAX_BYTES < length0))
                     (c_or (strchr_found b (of_char (CHR ''?''))) (strchr_found b (of_char (CHR ''#''))));
            if bad then Some (PD_RELAY_ENDPOINT_INVALID_BASE_URL, 0, 0, False)
            else do {
              trimmed \<leftarrow> strip_slashes b prefix_length length0;
              if trimmed \<le> prefix_length then Some (PD_RELAY_ENDPOINT_INVALID_BASE_URL, 0, 0, False)
              else Some (PD_RELAY_ENDPOINT_OK, trimmed, prefix_length, https) } } })"

definition pd_build_ws_path ::
  "u8 list option \<Rightarrow> u8 list option \<Rightarrow> u8 list option \<Rightarrow> u8 list option \<Rightarrow> nat \<Rightarrow>
   (pd_relay_endpoint_result \<times> u8 list option) option" where
  "pd_build_ws_path base path_prefix session_id output output_capacity =
     (case (path_prefix, output) of
        (Some path, Some out) \<Rightarrow> do {
          valid \<leftarrow> pd_session_id_is_valid session_id;
          if \<not> valid then Some (PD_RELAY_ENDPOINT_INVALID_SESSION_ID, output)
          else do {
            (result, base_length, scheme_length, secure) \<leftarrow> pd_normalize_base base;
            if result \<noteq> PD_RELAY_ENDPOINT_OK then Some (result, output)
            else do {
              b \<leftarrow> base;
              sid \<leftarrow> session_id;
              let output_scheme = (if secure then wss_prefix else ws_prefix);
              let output_scheme_length = (if secure then length wss_prefix else length ws_prefix);
              let host_length = base_length - scheme_length;
              path_length \<leftarrow> strlen path;
              let required = output_scheme_length + host_length + path_length + PD_SESSION_TOKEN_HEX_CHARS + 1;
              if output_capacity < required \<or> PD_RELAY_ENDPOINT_CAPACITY < required
              then do {
                out \<leftarrow> (if output_capacity \<noteq> 0 then wr out 0 0 else Some out);
                Some (PD_RELAY_ENDPOINT_BUFFER_TOO_SMALL, Some out) }
              else do {
                out \<leftarrow> memcpy out 0 output_scheme 0 output_scheme_length;
                out \<leftarrow> memcpy out output_scheme_length b scheme_length host_length;
                out \<leftarrow> memcpy out (output_scheme_length + host_length) path 0 path_length;
                out \<leftarrow> memcpy out (output_scheme_length + host_length + path_length) sid 0 PD_SESSION_TOKEN_HEX_CHARS;
                out \<leftarrow> wr out (required - 1) 0;
                Some (PD_RELAY_ENDPOINT_OK, Some out) } } } }
      | _ \<Rightarrow> Some (PD_RELAY_ENDPOINT_INVALID_ARGUMENT, output))"

definition pd_relay_build_receiver_wss_url ::
  "u8 list option \<Rightarrow> u8 list option \<Rightarrow> u8 list option \<Rightarrow> nat \<Rightarrow> (pd_relay_endpoint_result \<times> u8 list option) option" where
  "pd_relay_build_receiver_wss_url https_base_url session_id output output_capacity =
     pd_build_ws_path https_base_url (Some (receiver_path @ [0])) session_id output output_capacity"

definition pd_relay_build_sender_wss_url ::
  "u8 list option \<Rightarrow> u8 list option \<Rightarrow> u8 list option \<Rightarrow> nat \<Rightarrow> (pd_relay_endpoint_result \<times> u8 list option) option" where
  "pd_relay_build_sender_wss_url https_base_url session_id output output_capacity =
     pd_build_ws_path https_base_url (Some (sender_path @ [0])) session_id output output_capacity"

section \<open>relay_registration.c\<close>

definition PD_RELAY_REGISTRATION_ENDPOINT_CAPACITY :: nat where "PD_RELAY_REGISTRATION_ENDPOINT_CAPACITY = 512"
definition PD_RELAY_REGISTRATION_BODY_CAPACITY :: nat where "PD_RELAY_REGISTRATION_BODY_CAPACITY = 64"

datatype pd_relay_registration_build_result =
    PD_RELAY_REGISTRATION_BUILD_OK
  | PD_RELAY_REGISTRATION_BUILD_INVALID_ARGUMENT
  | PD_RELAY_REGISTRATION_BUILD_INVALID_BASE_URL
  | PD_RELAY_REGISTRATION_BUILD_INVALID_SESSION_ID
  | PD_RELAY_REGISTRATION_BUILD_BUFFER_TOO_SMALL

definition pd_is_lower_hex :: "u8 list option \<Rightarrow> nat \<Rightarrow> bool option" where
  "pd_is_lower_hex value expected_length =
     (case value of
        None \<Rightarrow> Some False
      | Some v \<Rightarrow> do {
          n \<leftarrow> strlen v;
          if n \<noteq> expected_length then Some False
          else do {
            r \<leftarrow> for_ret 0 expected_length (\<lambda>index u. do {
                   character \<leftarrow> rd v index;
                   if \<not> ((48 \<le> character \<and> character \<le> 57) \<or> (97 \<le> character \<and> character \<le> 102))
                   then Some (Inl False) else Some (Inr ()) }) ();
            Some (case r of Inl b \<Rightarrow> b | Inr _ \<Rightarrow> True) } })"

definition pd_relay_registration_build_endpoint ::
  "u8 list option \<Rightarrow> u8 list option \<Rightarrow> nat \<Rightarrow> (pd_relay_registration_build_result \<times> u8 list option) option" where
  "pd_relay_registration_build_endpoint https_base_url output output_capacity =
     (case (https_base_url, output) of
        (Some b, Some out) \<Rightarrow> do {
          base_length \<leftarrow> strlen b;
          https \<leftarrow> c_and (Some (length https_prefix < base_length)) (memcmp_eq b https_prefix (length https_prefix));
          http \<leftarrow> (if https then Some False
                  else c_and (Some (length http_prefix < base_length)) (memcmp_eq b http_prefix (length http_prefix)));
          if \<not> https \<and> \<not> http then Some (PD_RELAY_REGISTRATION_BUILD_INVALID_BASE_URL, output)
          else do {
            let scheme_length = (if https then length https_prefix else length http_prefix);
            bad \<leftarrow> c_or (Some (PD_RELAY_BASE_URL_MAX_BYTES < base_length))
                     (c_or (strchr_found b (of_char (CHR ''?''))) (strchr_found b (of_char (CHR ''#''))));
            if bad then Some (PD_RELAY_REGISTRATION_BUILD_INVALID_BASE_URL, output)
            else do {
              trimmed_length \<leftarrow> strip_slashes b scheme_length base_length;
              if trimmed_length \<le> scheme_length then Some (PD_RELAY_REGISTRATION_BUILD_INVALID_BASE_URL, output)
              else do {
                let required = trimmed_length + length sessions_path + 1;
                if output_capacity < required
                then do {
                  out \<leftarrow> (if 0 < output_capacity then wr out 0 0 else Some out);
                  Some (PD_RELAY_REGISTRATION_BUILD_BUFFER_TOO_SMALL, Some out) }
                else do {
                  out \<leftarrow> memcpy out 0 b 0 trimmed_length;
                  out \<leftarrow> put out trimmed_length (sessions_path @ [0]);
                  Some (PD_RELAY_REGISTRATION_BUILD_OK, Some out) } } } } }
      | _ \<Rightarrow> Some (PD_RELAY_REGISTRATION_BUILD_INVALID_ARGUMENT, output))"

definition pd_relay_registration_build_body ::
  "u8 list option \<Rightarrow> u8 list option \<Rightarrow> nat \<Rightarrow> nat option \<Rightarrow>
   (pd_relay_registration_build_result \<times> u8 list option \<times> nat option) option" where
  "pd_relay_registration_build_body session_id output output_capacity body_size =
     (let bs = store_size body_size 0 in
      case (session_id, output) of
        (Some sid, Some out) \<Rightarrow> do {
          valid \<leftarrow> pd_is_lower_hex session_id PD_SESSION_TOKEN_HEX_CHARS;
          if \<not> valid then Some (PD_RELAY_REGISTRATION_BUILD_INVALID_SESSION_ID, output, bs)
          else do {
            let required = length body_prefix + PD_SESSION_TOKEN_HEX_CHARS + length body_suffix + 1;
            if output_capacity < required
            then do {
              out \<leftarrow> (if 0 < output_capacity then wr out 0 0 else Some out);
              Some (PD_RELAY_REGISTRATION_BUILD_BUFFER_TOO_SMALL, Some out, bs) }
            else do {
              out \<leftarrow> put out 0 body_prefix;
              out \<leftarrow> memcpy out (length body_prefix) sid 0 PD_SESSION_TOKEN_HEX_CHARS;
              out \<leftarrow> put out (length body_prefix + PD_SESSION_TOKEN_HEX_CHARS) (body_suffix @ [0]);
              Some (PD_RELAY_REGISTRATION_BUILD_OK, Some out, store_size body_size (required - 1)) } } }
      | _ \<Rightarrow> Some (PD_RELAY_REGISTRATION_BUILD_INVALID_ARGUMENT, output, bs))"

section \<open>What a base address means\<close>

text \<open>The security of a base address and its host part, without trailing slashes; \<open>None\<close> if the code
  refuses it.\<close>

definition strip_right :: "u8 list \<Rightarrow> u8 list" where
  "strip_right s = rev (dropWhile (\<lambda>c. c = 47) (rev s))"

definition base_scheme :: "u8 list \<Rightarrow> bool option" where
  "base_scheme s =
     (if 8 < length s \<and> take 8 s = https_prefix then Some True
      else if 7 < length s \<and> take 7 s = http_prefix then Some False else None)"

definition scheme_size :: "bool \<Rightarrow> nat" where
  "scheme_size secure = (if secure then 8 else 7)"

definition relay_base :: "u8 list \<Rightarrow> (bool \<times> u8 list) option" where
  "relay_base s =
     (case base_scheme s of
        None \<Rightarrow> None
      | Some secure \<Rightarrow>
          if 447 < length s \<or> 63 \<in> set s \<or> 35 \<in> set s then None
          else let host = strip_right (drop (scheme_size secure) s) in
            if host = [] then None else Some (secure, host))"

lemma strip_right_snoc [simp]: "strip_right (xs @ [c]) = (if c = 47 then strip_right xs else xs @ [c])"
  by (simp add: strip_right_def)

lemma strip_right_Nil [simp]: "strip_right [] = []"
  by (simp add: strip_right_def)

lemma length_strip_right: "length (strip_right s) \<le> length s"
  unfolding strip_right_def using length_dropWhile_le [of _ "rev s"] by simp

lemma strip_right_take: "strip_right s = take (length (strip_right s)) s"
proof (induction s rule: rev_induct)
  case (snoc c s)
  then show ?case using length_strip_right [of s] by simp
qed simp

lemma strip_slashes_eq:
  "pl \<le> n \<Longrightarrow> n \<le> length b \<Longrightarrow> strip_slashes b pl n = Some (pl + length (strip_right (drop pl (take n b))))"
proof (induction b pl n rule: strip_slashes.induct)
  case (1 b pl)
  then show ?case by simp
next
  case (2 b pl n)
  show ?case
  proof (cases "pl < Suc n")
    case True
    then have "drop pl (take (Suc n) b) = drop pl (take n b) @ [b ! n]"
      using 2(3) by (simp add: take_Suc_conv_app_nth)
    then show ?thesis using 2 True by (simp add: rd_def)
  next
    case False
    then show ?thesis using 2 by simp
  qed
qed

lemma c_str_take: "n \<le> length (c_str b) \<Longrightarrow> take n b = take n (c_str b)"
  by (metis min.absorb1 take_length_c_str take_take)

lemma memcmp_prefix:
  assumes "0 \<in> set b"
  shows "c_and (Some (n < length (c_str b))) (memcmp_eq b lit n) =
    (if length lit = n then Some (n < length (c_str b) \<and> take n (c_str b) = lit)
     else c_and (Some (n < length (c_str b))) (memcmp_eq b lit n))"
  using length_c_str_less [OF assms] by (auto simp: memcmp_eq_def mem_slice_def c_str_take)

text \<open>The checks both files make, against \<open>base_scheme\<close> and \<open>relay_base\<close>.\<close>

lemma scheme_checks:
  assumes "0 \<in> set b"
  shows "c_and (Some (8 < length (c_str b))) (memcmp_eq b https_prefix 8) =
      Some (base_scheme (c_str b) = Some True)"
    and "base_scheme (c_str b) \<noteq> Some True \<Longrightarrow>
      c_and (Some (7 < length (c_str b))) (memcmp_eq b http_prefix 7) =
      Some (base_scheme (c_str b) = Some False)"
  by (subst memcmp_prefix [OF assms]; auto simp: base_scheme_def split: if_splits)+

lemma strchr_checks:
  assumes "0 \<in> set b"
  shows "strchr_found b 63 = Some (63 \<in> set (c_str b))"
    and "strchr_found b 35 = Some (35 \<in> set (c_str b))"
  using assms by (simp_all add: strchr_found_def)

lemma strip_slashes_base:
  assumes "0 \<in> set b" and "base_scheme (c_str b) = Some secure"
  shows "strip_slashes b (scheme_size secure) (length (c_str b)) =
    Some (scheme_size secure + length (strip_right (drop (scheme_size secure) (c_str b))))"
proof -
  have "scheme_size secure \<le> length (c_str b)"
    using assms(2) by (auto simp: base_scheme_def scheme_size_def split: if_splits)
  then show ?thesis
    using length_c_str_less [OF assms(1)] by (subst strip_slashes_eq) simp_all
qed

lemma pd_normalize_base_eq:
  assumes "0 \<in> set b"
  shows "pd_normalize_base (Some b) = Some (case relay_base (c_str b) of
      None \<Rightarrow> (PD_RELAY_ENDPOINT_INVALID_BASE_URL, 0, 0, False)
    | Some (secure, host) \<Rightarrow> (PD_RELAY_ENDPOINT_OK, scheme_size secure + length host, scheme_size secure, secure))"
proof (cases "base_scheme (c_str b)")
  case None
  then show ?thesis
    using scheme_checks [OF assms] assms by (simp add: pd_normalize_base_def strlen_def relay_base_def)
next
  case (Some secure)
  then show ?thesis
    using scheme_checks [OF assms] strip_slashes_base [OF assms Some] assms
    by (cases secure) (auto simp: pd_normalize_base_def strlen_def relay_base_def strchr_checks Let_def scheme_size_def)
qed

lemma pd_is_lower_hex_check: "pd_is_lower_hex v0 n = lower_hex_check v0 n"
proof (cases v0)
  case (Some v)
  have "(\<lambda>index u. rd v index \<bind> (\<lambda>c. if \<not> ((48 \<le> c \<and> c \<le> 57) \<or> (97 \<le> c \<and> c \<le> 102))
      then Some (Inl False) else Some (Inr ()))) = lower_hex_step v"
    by (simp add: fun_eq_iff lower_hex_step_def)
  then show ?thesis
    unfolding pd_is_lower_hex_def lower_hex_check_def Some option.case
    by (cases "strlen v"; simp add: map_conv_bind_option returned_def comp_def)
qed (simp add: pd_is_lower_hex_def lower_hex_check_def)

lemma pd_session_id_is_valid_check: "pd_session_id_is_valid v0 = pd_is_lower_hex v0 32"
proof -
  have n: "PD_SESSION_TOKEN_HEX_CHARS = 32" by simp
  show ?thesis unfolding pd_session_id_is_valid_def pd_is_lower_hex_def n ..
qed

lemmas id_checks = pd_session_id_is_valid_check pd_is_lower_hex_check lower_hex_check_eq

definition ws_scheme :: "bool \<Rightarrow> u8 list" where
  "ws_scheme secure = (if secure then wss_prefix else ws_prefix)"

definition http_scheme :: "bool \<Rightarrow> u8 list" where
  "http_scheme secure = (if secure then https_prefix else http_prefix)"

text \<open>The buffer after a routine that refused to write a text that does not fit.\<close>

definition emptied :: "nat \<Rightarrow> u8 list \<Rightarrow> u8 list" where
  "emptied cap out = (if cap = 0 then out else 0 # tl out)"

lemma wr_emptied:
  "cap \<le> length out \<Longrightarrow> (if cap \<noteq> 0 then wr out 0 0 else Some out) = Some (emptied cap out)"
  "cap \<le> length out \<Longrightarrow> (if 0 < cap then wr out 0 0 else Some out) = Some (emptied cap out)"
  by (cases out; simp add: wr_def emptied_def)+

lemma relay_base_parts:
  assumes "0 \<in> set b" and "relay_base (c_str b) = Some (secure, host)"
  shows "mem_slice b (scheme_size secure) (length host) = Some host"
    and "mem_slice b 0 (scheme_size secure + length host) = Some (http_scheme secure @ host)"
    and "scheme_size secure + length host \<le> 447" and "host \<noteq> []"
proof -
  let ?s = "c_str b" and ?n = "scheme_size secure"
  have sch: "base_scheme ?s = Some secure" and host: "host = strip_right (drop ?n ?s)" "host \<noteq> []"
    and len: "length ?s \<le> 447"
    using assms(2) by (auto simp: relay_base_def Let_def split: option.splits if_splits)
  have pre: "take ?n ?s = http_scheme secure" "?n < length ?s" "length (http_scheme secure) = ?n"
    using sch by (auto simp: base_scheme_def http_scheme_def scheme_size_def split: if_splits)
  have "length host \<le> length ?s - ?n"
    using length_strip_right [of "drop ?n ?s"] host(1) by simp
  then have h: "?n + length host \<le> length ?s" using pre(2) by simp
  have hostt: "take (length host) (drop ?n ?s) = host"
    using strip_right_take [of "drop ?n ?s"] host(1) by simp
  have b: "take (?n + length host) b = take (?n + length host) ?s"
    using h by (intro c_str_take)
  have "take (length host) (drop ?n b) = take (length host) (drop ?n ?s)"
    using b by (metis drop_take add_diff_cancel_left')
  then show "mem_slice b ?n (length host) = Some host"
    using h length_c_str_less [OF assms(1)] hostt by (simp add: mem_slice_def)
  have "take (?n + length host) ?s = http_scheme secure @ host"
    using pre hostt by (metis take_add)
  then show "mem_slice b 0 (?n + length host) = Some (http_scheme secure @ host)"
    using h length_c_str_less [OF assms(1)] b by (simp add: mem_slice_def)
  show "?n + length host \<le> 447" using h len by simp
  show "host \<noteq> []" by (rule host(2))
qed

lemma build_ws_path_valid:
  assumes "0 \<in> set b" and "0 \<in> set sid" and "0 \<notin> set path" and "cap \<le> length out"
    and valid: "lower_hex 32 (c_str sid)" and rb: "relay_base (c_str b) = Some (secure, host)"
  shows "pd_build_ws_path (Some b) (Some (path @ [0])) (Some sid) (Some out) cap = Some (
    let url = ws_scheme secure @ host @ path @ c_str sid in
    if cap < length url + 1 \<or> 512 < length url + 1
    then (PD_RELAY_ENDPOINT_BUFFER_TOO_SMALL, Some (emptied cap out))
    else (PD_RELAY_ENDPOINT_OK, Some (url @ 0 # drop (length url + 1) out)))"
proof -
  note parts = relay_base_parts [OF assms(1) rb]
  have sid: "length (c_str sid) = 32" "mem_slice sid 0 32 = Some (c_str sid)"
    using valid c_str_slice [OF assms(2)] by (simp_all add: lower_hex_def)
  let ?ws = "ws_scheme secure"
  let ?url = "?ws @ host @ path @ c_str sid"
  have ws: "(if secure then wss_prefix else ws_prefix) = ?ws" "(if secure then length wss_prefix else length ws_prefix) = length ?ws"
    by (simp_all add: ws_scheme_def)
  have path: "strlen (path @ [0]) = Some (length path)" "mem_slice (path @ [0]) 0 (length path) = Some path"
    using assms(3) by simp_all
  have req: "length ?ws + length host + length path + 32 + 1 = length ?url + 1" using sid by simp
  have body: "pd_build_ws_path (Some b) (Some (path @ [0])) (Some sid) (Some out) cap =
    (if cap < length ?url + 1 \<or> 512 < length ?url + 1 then Some (PD_RELAY_ENDPOINT_BUFFER_TOO_SMALL, Some (emptied cap out))
     else do {
       m \<leftarrow> put out 0 ?ws; m \<leftarrow> put m (length ?ws) host; m \<leftarrow> put m (length ?ws + length host) path;
       m \<leftarrow> put m (length ?ws + length host + length path) (c_str sid);
       m \<leftarrow> put m (length ?url) [0];
       Some (PD_RELAY_ENDPOINT_OK, Some m) })"
    unfolding pd_build_ws_path_def prod.case option.case
    using valid assms(1,2,4) parts(1) sid path
    by (simp add: id_checks pd_normalize_base_eq rb ws [simplified] Let_def memcpy_def wr_put wr_emptied
      del: length_constants) (simp add: ws_scheme_def)
  have "put out 0 ?ws \<bind> (\<lambda>m. put m (length ?ws) host \<bind> (\<lambda>m. put m (length ?ws + length host) path \<bind>
      (\<lambda>m. put m (length ?ws + length host + length path) (c_str sid) \<bind> (\<lambda>m. put m (length ?url) [0] \<bind>
        (\<lambda>m. Some (PD_RELAY_ENDPOINT_OK, Some m)))))) =
      put out 0 (?url @ [0]) \<bind> (\<lambda>m. Some (PD_RELAY_ENDPOINT_OK, Some m))"
    using sid by (simp add: mem_simps)
  then show ?thesis
    unfolding body Let_def using assms(4) put_text [of ?url out 0] by simp
qed

lemma pd_build_ws_path_eq:
  assumes "0 \<in> set b" and "0 \<in> set sid" and "0 \<notin> set path" and "cap \<le> length out"
  shows "pd_build_ws_path (Some b) (Some (path @ [0])) (Some sid) (Some out) cap = Some (
    if \<not> lower_hex 32 (c_str sid) then (PD_RELAY_ENDPOINT_INVALID_SESSION_ID, Some out)
    else case relay_base (c_str b) of
      None \<Rightarrow> (PD_RELAY_ENDPOINT_INVALID_BASE_URL, Some out)
    | Some (secure, host) \<Rightarrow>
        let url = ws_scheme secure @ host @ path @ c_str sid in
        if cap < length url + 1 \<or> 512 < length url + 1
        then (PD_RELAY_ENDPOINT_BUFFER_TOO_SMALL, Some (emptied cap out))
        else (PD_RELAY_ENDPOINT_OK, Some (url @ 0 # drop (length url + 1) out)))"
proof (cases "lower_hex 32 (c_str sid)")
  case False
  then show ?thesis
    using assms(2) by (simp add: pd_build_ws_path_def id_checks)
next
  case True
  show ?thesis
  proof (cases "relay_base (c_str b)")
    case None
    then show ?thesis
      using True assms(1,2) by (simp add: pd_build_ws_path_def id_checks pd_normalize_base_eq)
  next
    case (Some x)
    then obtain secure host where rb: "relay_base (c_str b) = Some (secure, host)" by (cases x) auto
    then show ?thesis using True build_ws_path_valid [OF assms True rb] by simp
  qed
qed

lemma registration_endpoint_eq:
  assumes "0 \<in> set b" and "cap \<le> length out"
  shows "pd_relay_registration_build_endpoint (Some b) (Some out) cap = Some (
    case relay_base (c_str b) of
      None \<Rightarrow> (PD_RELAY_REGISTRATION_BUILD_INVALID_BASE_URL, Some out)
    | Some (secure, host) \<Rightarrow>
        let url = http_scheme secure @ host @ sessions_path in
        if cap < length url + 1 then (PD_RELAY_REGISTRATION_BUILD_BUFFER_TOO_SMALL, Some (emptied cap out))
        else (PD_RELAY_REGISTRATION_BUILD_OK, Some (url @ 0 # drop (length url + 1) out)))"
proof (cases "relay_base (c_str b)")
  case None
  have "pd_normalize_base (Some b) = Some (PD_RELAY_ENDPOINT_INVALID_BASE_URL, 0, 0, False)"
    using assms(1) None by (simp add: pd_normalize_base_eq)
  then show ?thesis
    using None scheme_checks [OF assms(1)] strchr_checks [OF assms(1)] strip_slashes_base [OF assms(1)] assms(1)
    by (cases "base_scheme (c_str b)")
      (auto simp: pd_relay_registration_build_endpoint_def strlen_def relay_base_def Let_def scheme_size_def split: if_splits)
next
  case (Some x)
  then obtain secure host where rb: "relay_base (c_str b) = Some (secure, host)" by (cases x) auto
  note parts = relay_base_parts [OF assms(1) rb]
  have sch: "base_scheme (c_str b) = Some secure" and host: "strip_right (drop (scheme_size secure) (c_str b)) = host"
    and ok: "length (c_str b) \<le> 447" "63 \<notin> set (c_str b)" "35 \<notin> set (c_str b)"
    using rb by (auto simp: relay_base_def Let_def split: option.splits if_splits)
  let ?n = "scheme_size secure + length host"
  have n: "length (http_scheme secure) = scheme_size secure" by (simp add: http_scheme_def scheme_size_def)
  have ss: "(if secure then 8 else 7) = scheme_size secure" by (simp add: scheme_size_def)
  have body: "pd_relay_registration_build_endpoint (Some b) (Some out) cap =
    (if cap < ?n + 13 then Some (PD_RELAY_REGISTRATION_BUILD_BUFFER_TOO_SMALL, Some (emptied cap out))
     else do {
       m \<leftarrow> put out 0 (http_scheme secure @ host); m \<leftarrow> put m ?n (sessions_path @ [0]);
       Some (PD_RELAY_REGISTRATION_BUILD_OK, Some m) })"
    using scheme_checks [OF assms(1)] strchr_checks [OF assms(1)] strip_slashes_base [OF assms(1) sch] assms(1) sch ok parts(2,4)
      wr_emptied(2) [OF assms(2)]
    by (cases secure)
      (simp_all add: pd_relay_registration_build_endpoint_def strlen_def Let_def scheme_size_def host [symmetric] memcpy_def)
  let ?url = "http_scheme secure @ host @ sessions_path"
  have "put out 0 (http_scheme secure @ host) \<bind> (\<lambda>m. put m ?n (sessions_path @ [0]) \<bind>
      (\<lambda>m. Some (PD_RELAY_REGISTRATION_BUILD_OK, Some m))) =
      put out 0 (?url @ [0]) \<bind> (\<lambda>m. Some (PD_RELAY_REGISTRATION_BUILD_OK, Some m))"
    using n by (simp add: mem_simps)
  then show ?thesis
    unfolding body rb Let_def using assms(2) n put_text [of ?url out 0] by simp
qed

lemma registration_body_eq:
  assumes "0 \<in> set sid" and "cap \<le> length out"
  shows "pd_relay_registration_build_body (Some sid) (Some out) cap size_out = Some (
    if \<not> lower_hex 32 (c_str sid) then (PD_RELAY_REGISTRATION_BUILD_INVALID_SESSION_ID, Some out, store_size size_out 0)
    else if cap < 50 then (PD_RELAY_REGISTRATION_BUILD_BUFFER_TOO_SMALL, Some (emptied cap out), store_size size_out 0)
    else (PD_RELAY_REGISTRATION_BUILD_OK,
      Some (body_prefix @ c_str sid @ body_suffix @ 0 # drop 50 out), store_size size_out 49))"
proof -
  have "lower_hex 32 (c_str sid) \<Longrightarrow> mem_slice sid 0 32 = Some (c_str sid) \<and> length (c_str sid) = 32"
    using c_str_slice [OF assms(1)] by (simp add: lower_hex_def)
  moreover have "put out 0 body_prefix \<bind> (\<lambda>m. put m 15 (c_str sid) \<bind> (\<lambda>m. put m 47 (body_suffix @ [0]) \<bind>
      (\<lambda>m. Some (PD_RELAY_REGISTRATION_BUILD_OK, Some m, store_size size_out 49)))) =
      put out 0 ((body_prefix @ c_str sid @ body_suffix) @ [0]) \<bind>
      (\<lambda>m. Some (PD_RELAY_REGISTRATION_BUILD_OK, Some m, store_size size_out 49))" if "length (c_str sid) = 32"
    using that by (simp add: mem_simps)
  ultimately show ?thesis
    using assms wr_emptied(2) [OF assms(2)] put_text [of "body_prefix @ c_str sid @ body_suffix" out 0]
    by (cases "lower_hex 32 (c_str sid)")
      (simp_all add: pd_relay_registration_build_body_def id_checks Let_def memcpy_def)
qed

lemma path_no_nul: "0 \<notin> set receiver_path" "0 \<notin> set sender_path"
  by (simp_all add: receiver_path_def sender_path_def c_lit_def)

text \<open>A full-size buffer is always large enough: the base address is bounded.\<close>

lemma ws_url_fits:
  assumes "0 \<in> set b" and "relay_base (c_str b) = Some (secure, host)" and "length sid = 32" and "length path \<le> 13"
  shows "length (ws_scheme secure @ host @ path @ sid) < 512"
  using relay_base_parts(3) [OF assms(1,2)] assms(3,4)
  by (cases secure) (simp_all add: ws_scheme_def scheme_size_def)

lemma relay_base_set: "relay_base s = Some (secure, host) \<Longrightarrow> set host \<subseteq> set s"
proof -
  have "set (strip_right (drop k s)) \<subseteq> set s" for k
    using strip_right_take [of "drop k s"] set_take_subset [of _ "drop k s"] set_drop_subset [of k s] by (metis subset_trans)
  then show "relay_base s = Some (secure, host) \<Longrightarrow> ?thesis"
    by (auto simp: relay_base_def Let_def split: option.splits if_splits)
qed

lemma ws_path_full:
  assumes "0 \<in> set b" and "0 \<in> set sid" and "length out = 512" and "0 \<notin> set path" and "length path \<le> 13"
  shows "pd_build_ws_path (Some b) (Some (path @ [0])) (Some sid) (Some out) 512 = Some (
      if \<not> lower_hex 32 (c_str sid) then (PD_RELAY_ENDPOINT_INVALID_SESSION_ID, Some out)
      else case relay_base (c_str b) of
        None \<Rightarrow> (PD_RELAY_ENDPOINT_INVALID_BASE_URL, Some out)
      | Some (secure, host) \<Rightarrow> (let url = ws_scheme secure @ host @ path @ c_str sid in
          (PD_RELAY_ENDPOINT_OK, Some (url @ 0 # drop (length url + 1) out))))"
  using pd_build_ws_path_eq [OF assms(1,2,4), of 512 out] assms(3) ws_url_fits [OF assms(1) _ _ assms(5), of _ _ "c_str sid"]
  by (cases "lower_hex 32 (c_str sid)"; cases "relay_base (c_str b)") (auto simp: Let_def lower_hex_def)

section \<open>Properties\<close>

text \<open>C36: For every terminated base address and session identifier, the receiver and sender addresses
  are built without accessing memory outside the buffers. The identifier must be 32 lower-case
  hexadecimal digits and the base a bounded http or https address with a host and without query or
  fragment; then, in a buffer of the declared 512 bytes, the result is always the WebSocket scheme of
  the same security, the host without trailing slashes, the path of the role and the identifier.\<close>

theorem relay_ws_urls_correct:
  assumes "0 \<in> set b" and "0 \<in> set sid" and "length out = 512"
  shows "pd_relay_build_receiver_wss_url (Some b) (Some sid) (Some out) 512 = Some (
      if \<not> lower_hex 32 (c_str sid) then (PD_RELAY_ENDPOINT_INVALID_SESSION_ID, Some out)
      else case relay_base (c_str b) of
        None \<Rightarrow> (PD_RELAY_ENDPOINT_INVALID_BASE_URL, Some out)
      | Some (secure, host) \<Rightarrow> (let url = ws_scheme secure @ host @ receiver_path @ c_str sid in
          (PD_RELAY_ENDPOINT_OK, Some (url @ 0 # drop (length url + 1) out)))) \<and>
    pd_relay_build_sender_wss_url (Some b) (Some sid) (Some out) 512 = Some (
      if \<not> lower_hex 32 (c_str sid) then (PD_RELAY_ENDPOINT_INVALID_SESSION_ID, Some out)
      else case relay_base (c_str b) of
        None \<Rightarrow> (PD_RELAY_ENDPOINT_INVALID_BASE_URL, Some out)
      | Some (secure, host) \<Rightarrow> (let url = ws_scheme secure @ host @ sender_path @ c_str sid in
          (PD_RELAY_ENDPOINT_OK, Some (url @ 0 # drop (length url + 1) out))))"
  using ws_path_full [OF assms path_no_nul(1)] ws_path_full [OF assms path_no_nul(2)]
  by (simp add: pd_relay_build_receiver_wss_url_def pd_relay_build_sender_wss_url_def)

theorem relay_ws_urls_correct_witness:
  "map_option fst (pd_relay_build_receiver_wss_url (Some (c_lit ''https://r.io//'' @ [0]))
     (Some (replicate 32 97 @ [0])) (Some (replicate 512 0)) 512) = Some PD_RELAY_ENDPOINT_OK"
proof -
  let ?b = "c_lit ''https://r.io//'' @ [0]" and ?s = "replicate 32 97 @ [0 :: u8]"
  have "relay_base (c_str ?b) = Some (True, c_lit ''r.io'')" by code_simp
  moreover have "lower_hex 32 (c_str ?s)" by (simp add: lower_hex_def lower_hex_char_def)
  ultimately show ?thesis
    using relay_ws_urls_correct [of ?b ?s "replicate 512 0"] by (simp add: Let_def)
qed

end
