(* ===== verification/PD_Win32RelayClient.thy ===== *)
theory PD_Win32RelayClient
  imports PD_RelayUrl PD_Messages
begin

text \<open>
  The relay client of the Windows receiver (\<^verbatim>\<open>win32_relay_client.c\<close>): one WebSocket connection to the
  relay, carrying one frame per message.

  The calls of libcurl, of the sockets and of the process heap are parameters, the record \<open>curl_api\<close>
  over a network state \<open>'n\<close>; a call on a handle that is not live has no defined result. The locale
  \<open>curl_net\<close> states what their documentation promises: which resources are live, which options and
  header lines are set, which bytes have been handed over for sending and which are still to be
  received. Its extension \<open>curl_finite\<close> adds that a connection carries finitely many events, which the
  loops of the client need to return: nothing in the code bounds them otherwise. libcurl's own writes
  to the error text of a client are not modelled; \<open>rc_error_text\<close> holds what the client writes to it.
  \<open>curl_error_buffer\<close> is what libcurl has left in the error buffer a caller registered.
\<close>

section \<open>The calls\<close>

type_synonym net_handle = u64
type_synonym CURLcode = nat

definition CURLE_OK :: CURLcode where "CURLE_OK = 0"
definition CURLE_GOT_NOTHING :: CURLcode where "CURLE_GOT_NOTHING = 52"
definition CURLE_AGAIN :: CURLcode where "CURLE_AGAIN = 81"
definition CURL_SOCKET_BAD :: net_handle where "CURL_SOCKET_BAD = - 1"
definition SOCKET_ERROR :: int where "SOCKET_ERROR = - 1"

definition CURLWS_BINARY :: u32 where "CURLWS_BINARY = 2"
definition CURLWS_CONT :: u32 where "CURLWS_CONT = 4"
definition CURLWS_CLOSE :: u32 where "CURLWS_CLOSE = 8"
definition CURLWS_PING :: u32 where "CURLWS_PING = 16"
definition CURLWS_PONG :: u32 where "CURLWS_PONG = 64"

lemmas curl_codes = CURLE_OK_def CURLE_GOT_NOTHING_def CURLE_AGAIN_def

lemmas ws_flags = CURLWS_BINARY_def CURLWS_CONT_def CURLWS_CLOSE_def CURLWS_PING_def CURLWS_PONG_def

record curl_ws_frame =
  wf_flags :: u32
  wf_bytesleft :: int

text \<open>The options of a transfer that the receiver sets.\<close>

datatype curl_option =
    CURLOPT_ERRORBUFFER
  | CURLOPT_URL "u8 list"
  | CURLOPT_HTTPHEADER net_handle
  | CURLOPT_CONNECT_ONLY int
  | CURLOPT_CONNECTTIMEOUT_MS int
  | CURLOPT_SSL_VERIFYPEER int
  | CURLOPT_SSL_VERIFYHOST int
  | CURLOPT_FOLLOWLOCATION int
  | CURLOPT_POST int
  | CURLOPT_POSTFIELDS "u8 list"
  | CURLOPT_POSTFIELDSIZE int
  | CURLOPT_WRITEFUNCTION
  | CURLOPT_TIMEOUT_MS int
  | CURLOPT_NOSIGNAL int

record 'n curl_api =
  curl_global_init :: "'n \<Rightarrow> CURLcode \<times> 'n"
  curl_global_cleanup :: "'n \<Rightarrow> 'n"
  curl_easy_init :: "'n \<Rightarrow> net_handle \<times> 'n"
  curl_easy_cleanup :: "'n \<Rightarrow> net_handle \<Rightarrow> 'n option"
  curl_easy_setopt :: "'n \<Rightarrow> net_handle \<Rightarrow> curl_option \<Rightarrow> (CURLcode \<times> 'n) option"
  curl_easy_perform :: "'n \<Rightarrow> net_handle \<Rightarrow> (CURLcode \<times> 'n) option"
  curl_easy_active_socket :: "'n \<Rightarrow> net_handle \<Rightarrow> (CURLcode \<times> net_handle \<times> 'n) option"
  curl_easy_response_code :: "'n \<Rightarrow> net_handle \<Rightarrow> (CURLcode \<times> int \<times> 'n) option"
  curl_error_buffer :: "'n \<Rightarrow> net_handle \<Rightarrow> u8 list"
  curl_easy_strerror :: "CURLcode \<Rightarrow> u8 list"
  curl_slist_append :: "'n \<Rightarrow> net_handle \<Rightarrow> u8 list \<Rightarrow> (net_handle \<times> 'n) option"
  curl_slist_free_all :: "'n \<Rightarrow> net_handle \<Rightarrow> 'n option"
  curl_ws_send :: "'n \<Rightarrow> net_handle \<Rightarrow> u8 list \<Rightarrow> u32 \<Rightarrow> (CURLcode \<times> nat \<times> 'n) option"
  curl_ws_recv :: "'n \<Rightarrow> net_handle \<Rightarrow> nat \<Rightarrow> (CURLcode \<times> u8 list \<times> curl_ws_frame option \<times> 'n) option"
  select_socket :: "'n \<Rightarrow> net_handle \<Rightarrow> bool \<Rightarrow> int \<times> int \<Rightarrow> int \<times> 'n"
  GetEnvironmentVariableA :: "'n \<Rightarrow> u8 list \<Rightarrow> nat \<times> u8 list"
  relay_HeapAlloc :: "'n \<Rightarrow> nat \<Rightarrow> net_handle \<times> u8 list \<times> 'n"
  relay_HeapFree :: "'n \<Rightarrow> net_handle \<Rightarrow> 'n option"

section \<open>Data\<close>

definition PD_RELAY_URL_MAX_BYTES :: nat where "PD_RELAY_URL_MAX_BYTES = 511"
definition PD_RELAY_URL_CAPACITY :: nat where "PD_RELAY_URL_CAPACITY = PD_RELAY_URL_MAX_BYTES + 1"
definition PD_RELAY_ERROR_CAPACITY :: nat where "PD_RELAY_ERROR_CAPACITY = 256"
definition PD_RELAY_IO_TIMEOUT_MS :: int where "PD_RELAY_IO_TIMEOUT_MS = 30000"

lemma relay_client_sizes [simp]: "PD_RELAY_URL_MAX_BYTES = 511" "PD_RELAY_URL_CAPACITY = 512" "PD_RELAY_ERROR_CAPACITY = 256"
  by (simp_all add: PD_RELAY_URL_MAX_BYTES_def PD_RELAY_URL_CAPACITY_def PD_RELAY_ERROR_CAPACITY_def)

datatype pd_relay_client_state =
    PD_RELAY_CLIENT_EMPTY
  | PD_RELAY_CLIENT_PREPARED
  | PD_RELAY_CLIENT_CONNECTED
  | PD_RELAY_CLIENT_CLOSED
  | PD_RELAY_CLIENT_FAILED

datatype pd_relay_client_result =
    PD_RELAY_CLIENT_OK
  | PD_RELAY_CLIENT_INVALID_ARGUMENT
  | PD_RELAY_CLIENT_INVALID_URL
  | PD_RELAY_CLIENT_INVALID_SECRET
  | PD_RELAY_CLIENT_INVALID_STATE
  | PD_RELAY_CLIENT_BUFFER_TOO_SMALL
  | PD_RELAY_CLIENT_PROTOCOL_ERROR
  | PD_RELAY_CLIENT_TIMEOUT
  | PD_RELAY_CLIENT_CLOSED_RESULT
  | PD_RELAY_CLIENT_CURL_ERROR

text \<open>\<open>rc_message_memory\<close> is the heap block behind \<open>rc_message_buffer\<close>.\<close>

record pd_win32_relay_client =
  rc_easy_handle :: net_handle
  rc_request_headers :: net_handle
  rc_message_buffer :: net_handle
  rc_message_memory :: "u8 list"
  rc_url :: "u8 list"
  rc_error_text :: "u8 list"
  rc_state :: pd_relay_client_state

definition zero_client :: pd_win32_relay_client where
  "zero_client = \<lparr>rc_easy_handle = 0, rc_request_headers = 0, rc_message_buffer = 0, rc_message_memory = [],
     rc_url = replicate PD_RELAY_URL_CAPACITY 0, rc_error_text = replicate PD_RELAY_ERROR_CAPACITY 0,
     rc_state = PD_RELAY_CLIENT_EMPTY\<rparr>"

section \<open>Operations\<close>

definition pd_insecure_http_enabled :: "'n curl_api \<Rightarrow> 'n \<Rightarrow> bool option" where
  "pd_insecure_http_enabled api n =
     (case GetEnvironmentVariableA api n (c_lit ''PRINTDROP_ALLOW_INSECURE_HTTP'') of (length0, value) \<Rightarrow>
        c_and (Some (length0 = 1)) (do { c \<leftarrow> rd value 0; Some (c = of_char (CHR ''1'')) }))"

definition pd_relay_url_is_allowed :: "'n curl_api \<Rightarrow> 'n \<Rightarrow> u8 list option \<Rightarrow> bool option" where
  "pd_relay_url_is_allowed api n url =
     (case url of
        None \<Rightarrow> Some False
      | Some u \<Rightarrow> do {
          length0 \<leftarrow> strlen u;
          secure \<leftarrow> c_and (Some (length wss_prefix < length0))
            (c_and (Some (length0 \<le> PD_RELAY_URL_MAX_BYTES)) (memcmp_eq u wss_prefix (length wss_prefix)));
          if secure then Some True
          else c_and (pd_insecure_http_enabled api n) (c_and (Some (length ws_prefix < length0))
            (c_and (Some (length0 \<le> PD_RELAY_URL_MAX_BYTES)) (memcmp_eq u ws_prefix (length ws_prefix)))) })"

definition pd_receiver_secret_is_valid :: "u8 list option \<Rightarrow> bool option" where
  "pd_receiver_secret_is_valid secret =
     (case secret of
        None \<Rightarrow> Some False
      | Some v \<Rightarrow> do {
          n \<leftarrow> strlen v;
          if n \<noteq> PD_RECEIVER_SECRET_HEX_CHARS then Some False
          else do {
            r \<leftarrow> for_ret 0 PD_RECEIVER_SECRET_HEX_CHARS (\<lambda>index u. do {
                   value \<leftarrow> rd v index;
                   if \<not> ((48 \<le> value \<and> value \<le> 57) \<or> (97 \<le> value \<and> value \<le> 102))
                   then Some (Inl False) else Some (Inr ()) }) ();
            Some (case r of Inl b \<Rightarrow> b | Inr _ \<Rightarrow> True) } })"

definition pd_relay_wait_socket ::
  "'n curl_api \<Rightarrow> pd_win32_relay_client \<Rightarrow> bool \<Rightarrow> 'n \<Rightarrow> (pd_relay_client_result \<times> 'n) option" where
  "pd_relay_wait_socket api client writable n = do {
     (code, socket_handle, n) \<leftarrow> curl_easy_active_socket api n (rc_easy_handle client);
     if code \<noteq> CURLE_OK \<or> socket_handle = CURL_SOCKET_BAD then Some (PD_RELAY_CLIENT_CURL_ERROR, n)
     else do {
       let timeout = (PD_RELAY_IO_TIMEOUT_MS div 1000, (PD_RELAY_IO_TIMEOUT_MS mod 1000) * 1000);
       let (selected, n) = select_socket api n socket_handle writable timeout;
       if selected = 0 then Some (PD_RELAY_CLIENT_TIMEOUT, n)
       else if selected = SOCKET_ERROR then Some (PD_RELAY_CLIENT_CURL_ERROR, n)
       else Some (PD_RELAY_CLIENT_OK, n) } }"

definition pd_relay_curl_failure ::
  "pd_win32_relay_client \<Rightarrow> CURLcode \<Rightarrow> pd_relay_client_result \<times> pd_win32_relay_client" where
  "pd_relay_curl_failure client code =
     (if code = CURLE_GOT_NOTHING
      then (PD_RELAY_CLIENT_CLOSED_RESULT, client\<lparr>rc_state := PD_RELAY_CLIENT_CLOSED\<rparr>)
      else (PD_RELAY_CLIENT_CURL_ERROR, client\<lparr>rc_state := PD_RELAY_CLIENT_FAILED\<rparr>))"

definition pd_win32_curl_global_init :: "'n curl_api \<Rightarrow> 'n \<Rightarrow> bool \<times> 'n" where
  "pd_win32_curl_global_init api n = (case curl_global_init api n of (code, n) \<Rightarrow> (code = CURLE_OK, n))"

definition pd_win32_curl_global_cleanup :: "'n curl_api \<Rightarrow> 'n \<Rightarrow> 'n" where
  "pd_win32_curl_global_cleanup api n = curl_global_cleanup api n"

definition auth_prefix :: "u8 list" where
  "auth_prefix = c_lit ''Authorization: Bearer ''"

text \<open>A run of \<^verbatim>\<open>curl_easy_setopt\<close> calls, each made only if the one before succeeded.\<close>

fun set_options :: "'n curl_api \<Rightarrow> net_handle \<Rightarrow> curl_option list \<Rightarrow> 'n \<Rightarrow> (CURLcode \<times> 'n) option" where
  "set_options api easy [] n = Some (CURLE_OK, n)"
| "set_options api easy (opt # opts) n = do {
     (code, n) \<leftarrow> curl_easy_setopt api n easy opt;
     if code = CURLE_OK then set_options api easy opts n else Some (code, n) }"

text \<open>The header line with the secret, built in a local array.\<close>

definition build_auth_header :: "u8 list \<Rightarrow> u8 list option" where
  "build_auth_header receiver_secret = do {
     let auth_header = replicate (length auth_prefix + 1 + PD_RECEIVER_SECRET_HEX_CHARS) 0;
     auth_header \<leftarrow> memcpy auth_header 0 auth_prefix 0 (length auth_prefix);
     auth_header \<leftarrow> memcpy auth_header (length auth_prefix) receiver_secret 0 PD_RECEIVER_SECRET_HEX_CHARS;
     wr auth_header (length auth_prefix + PD_RECEIVER_SECRET_HEX_CHARS) 0 }"

definition client_options :: "u8 list \<Rightarrow> net_handle \<Rightarrow> curl_option list" where
  "client_options url headers = [CURLOPT_ERRORBUFFER, CURLOPT_URL url, CURLOPT_HTTPHEADER headers, CURLOPT_CONNECT_ONLY 2,
     CURLOPT_CONNECTTIMEOUT_MS 10000, CURLOPT_SSL_VERIFYPEER 1, CURLOPT_SSL_VERIFYHOST 2, CURLOPT_FOLLOWLOCATION 0]"

definition pd_win32_relay_client_init ::
  "'n curl_api \<Rightarrow> pd_win32_relay_client option \<Rightarrow> u8 list option \<Rightarrow> u8 list option \<Rightarrow> 'n \<Rightarrow>
   (pd_relay_client_result \<times> pd_win32_relay_client option \<times> 'n) option" where
  "pd_win32_relay_client_init api client wss_url receiver_secret n =
     (case (client, wss_url, receiver_secret) of
        (Some _, Some url, Some secret) \<Rightarrow> do {
          let c = zero_client;
          allowed \<leftarrow> pd_relay_url_is_allowed api n wss_url;
          if \<not> allowed then Some (PD_RELAY_CLIENT_INVALID_URL, Some c, n)
          else do {
            valid \<leftarrow> pd_receiver_secret_is_valid receiver_secret;
            if \<not> valid then Some (PD_RELAY_CLIENT_INVALID_SECRET, Some c, n)
            else do {
              let (block, memory, n) = relay_HeapAlloc api n PD_RELAY_WS_MESSAGE_MAX_SIZE;
              if block = 0 then Some (PD_RELAY_CLIENT_CURL_ERROR, Some (c\<lparr>rc_state := PD_RELAY_CLIENT_FAILED\<rparr>), n)
              else do {
                let c = c\<lparr>rc_message_buffer := block, rc_message_memory := memory\<rparr>;
                let freed = c\<lparr>rc_message_buffer := 0, rc_message_memory := [], rc_state := PD_RELAY_CLIENT_FAILED\<rparr>;
                let (easy, n) = curl_easy_init api n;
                if easy = 0
                then do {
                  n \<leftarrow> relay_HeapFree api n block;
                  Some (PD_RELAY_CLIENT_CURL_ERROR, Some freed, n) }
                else do {
                  auth_header \<leftarrow> build_auth_header secret;
                  (headers, n) \<leftarrow> curl_slist_append api n 0 (c_str auth_header);
                  if headers = 0
                  then do {
                    n \<leftarrow> curl_easy_cleanup api n easy;
                    n \<leftarrow> relay_HeapFree api n block;
                    Some (PD_RELAY_CLIENT_CURL_ERROR, Some freed, n) }
                  else do {
                    error_text \<leftarrow> wr (rc_error_text c) 0 0;
                    (code, n) \<leftarrow> set_options api easy (client_options (c_str url) headers) n;
                    if code \<noteq> CURLE_OK
                    then do {
                      n \<leftarrow> curl_slist_free_all api n headers;
                      n \<leftarrow> curl_easy_cleanup api n easy;
                      n \<leftarrow> relay_HeapFree api n block;
                      Some (PD_RELAY_CLIENT_CURL_ERROR, Some (freed\<lparr>rc_error_text := error_text\<rparr>), n) }
                    else do {
                      url_length \<leftarrow> strlen url;
                      url' \<leftarrow> memcpy (rc_url c) 0 url 0 (url_length + 1);
                      Some (PD_RELAY_CLIENT_OK, Some (c\<lparr>rc_error_text := error_text, rc_url := url', rc_easy_handle := easy,
                        rc_request_headers := headers, rc_state := PD_RELAY_CLIENT_PREPARED\<rparr>), n) } } } } } } }
      | _ \<Rightarrow> Some (PD_RELAY_CLIENT_INVALID_ARGUMENT, client, n))"

definition pd_win32_relay_client_connect ::
  "'n curl_api \<Rightarrow> pd_win32_relay_client option \<Rightarrow> 'n \<Rightarrow> (pd_relay_client_result \<times> pd_win32_relay_client option \<times> 'n) option" where
  "pd_win32_relay_client_connect api client n =
     (case client of
        None \<Rightarrow> Some (PD_RELAY_CLIENT_INVALID_STATE, client, n)
      | Some c \<Rightarrow>
          if rc_easy_handle c = 0 \<or> rc_state c \<noteq> PD_RELAY_CLIENT_PREPARED then Some (PD_RELAY_CLIENT_INVALID_STATE, client, n)
          else do {
            error_text \<leftarrow> wr (rc_error_text c) 0 0;
            let c = c\<lparr>rc_error_text := error_text\<rparr>;
            (code, n) \<leftarrow> curl_easy_perform api n (rc_easy_handle c);
            if code \<noteq> CURLE_OK then (case pd_relay_curl_failure c code of (r, c) \<Rightarrow> Some (r, Some c, n))
            else Some (PD_RELAY_CLIENT_OK, Some (c\<lparr>rc_state := PD_RELAY_CLIENT_CONNECTED\<rparr>), n) })"

text \<open>The state a failed wait leaves the client in.\<close>

definition after_wait :: "pd_win32_relay_client \<Rightarrow> pd_relay_client_result \<Rightarrow> pd_win32_relay_client" where
  "after_wait c wait_result = c\<lparr>rc_state :=
     if wait_result = PD_RELAY_CLIENT_TIMEOUT then PD_RELAY_CLIENT_CONNECTED else PD_RELAY_CLIENT_FAILED\<rparr>"

definition send_step ::
  "'n curl_api \<Rightarrow> nat \<Rightarrow> pd_win32_relay_client \<times> nat \<times> 'n \<Rightarrow>
   ((pd_relay_client_result \<times> pd_win32_relay_client \<times> 'n) + (pd_win32_relay_client \<times> nat \<times> 'n)) option" where
  "send_step api message_size s = (case s of (c, offset, n) \<Rightarrow>
     if offset < message_size
     then do {
       bytes \<leftarrow> mem_slice (rc_message_memory c) offset (message_size - offset);
       (code, sent, n) \<leftarrow> curl_ws_send api n (rc_easy_handle c) bytes CURLWS_BINARY;
       if code = CURLE_AGAIN
       then do {
         (wait_result, n) \<leftarrow> pd_relay_wait_socket api c True n;
         if wait_result \<noteq> PD_RELAY_CLIENT_OK then Some (Inl (wait_result, after_wait c wait_result, n))
         else Some (Inr (c, offset, n)) }
       else if code \<noteq> CURLE_OK then (case pd_relay_curl_failure c code of (r, c) \<Rightarrow> Some (Inl (r, c, n)))
       else if sent = 0 then Some (Inl (PD_RELAY_CLIENT_CURL_ERROR, c\<lparr>rc_state := PD_RELAY_CLIENT_FAILED\<rparr>, n))
       else Some (Inr (c, offset + sent, n)) }
     else Some (Inl (PD_RELAY_CLIENT_OK, c, n)))"

definition pd_win32_relay_client_send_frame ::
  "'n curl_api \<Rightarrow> pd_win32_relay_client option \<Rightarrow> pd_frame_header option \<Rightarrow> u8 list option \<Rightarrow> nat \<Rightarrow> 'n \<Rightarrow>
   (pd_relay_client_result \<times> pd_win32_relay_client option \<times> 'n) option" where
  "pd_win32_relay_client_send_frame api client header payload payload_size n =
     (case (client, header) of
        (Some c, Some _) \<Rightarrow>
          if payload = None \<and> payload_size \<noteq> 0 then Some (PD_RELAY_CLIENT_INVALID_ARGUMENT, client, n)
          else if rc_state c \<noteq> PD_RELAY_CLIENT_CONNECTED \<or> rc_easy_handle c = 0 \<or> rc_message_buffer c = 0
          then Some (PD_RELAY_CLIENT_INVALID_STATE, client, n)
          else do {
            (er, memory, message_size) \<leftarrow> pd_relay_message_encode header payload payload_size (Some (rc_message_memory c))
              PD_RELAY_WS_MESSAGE_MAX_SIZE (Some 0);
            memory \<leftarrow> memory;
            message_size \<leftarrow> message_size;
            let c = c\<lparr>rc_message_memory := memory\<rparr>;
            if er \<noteq> PD_RELAY_MESSAGE_OK then Some (PD_RELAY_CLIENT_PROTOCOL_ERROR, Some c, n)
            else do {
              (r, c, n) \<leftarrow> iterate (send_step api message_size) (c, 0, n);
              Some (r, Some c, n) } }
      | _ \<Rightarrow> Some (PD_RELAY_CLIENT_INVALID_ARGUMENT, client, n))"

text \<open>One pass of the receiving loop; \<^verbatim>\<open>curl_ws_recv\<close> stores the bytes it received at the offset.\<close>

definition receive_step ::
  "'n curl_api \<Rightarrow> pd_relay_message_view \<Rightarrow> pd_win32_relay_client \<times> nat \<times> 'n \<Rightarrow>
   ((pd_relay_client_result \<times> pd_win32_relay_client \<times> pd_relay_message_view \<times> 'n) +
    (pd_win32_relay_client \<times> nat \<times> 'n)) option" where
  "receive_step api view s = (case s of (c, offset, n) \<Rightarrow> do {
     (code, bytes, meta, n) \<leftarrow> curl_ws_recv api n (rc_easy_handle c) (PD_RELAY_WS_MESSAGE_MAX_SIZE - offset);
     memory \<leftarrow> put (rc_message_memory c) offset bytes;
     let c = c\<lparr>rc_message_memory := memory\<rparr>;
     let received = length bytes;
     if code = CURLE_AGAIN
     then do {
       (wait_result, n) \<leftarrow> pd_relay_wait_socket api c False n;
       if wait_result \<noteq> PD_RELAY_CLIENT_OK then Some (Inl (wait_result, after_wait c wait_result, view, n))
       else Some (Inr (c, offset, n)) }
     else if code \<noteq> CURLE_OK then (case pd_relay_curl_failure c code of (r, c) \<Rightarrow> Some (Inl (r, c, view, n)))
     else (case meta of
       None \<Rightarrow> Some (Inl (PD_RELAY_CLIENT_PROTOCOL_ERROR, c\<lparr>rc_state := PD_RELAY_CLIENT_FAILED\<rparr>, view, n))
     | Some m \<Rightarrow>
         if and (wf_flags m) CURLWS_CLOSE \<noteq> 0
         then Some (Inl (PD_RELAY_CLIENT_CLOSED_RESULT, c\<lparr>rc_state := PD_RELAY_CLIENT_CLOSED\<rparr>, view, n))
         else if and (wf_flags m) (or CURLWS_PING CURLWS_PONG) \<noteq> 0
         then Some (Inr (c, if wf_bytesleft m = 0 then 0 else offset, n))
         else if and (wf_flags m) CURLWS_BINARY = 0 \<or> and (wf_flags m) CURLWS_CONT \<noteq> 0
         then Some (Inl (PD_RELAY_CLIENT_PROTOCOL_ERROR, c\<lparr>rc_state := PD_RELAY_CLIENT_FAILED\<rparr>, view, n))
         else if PD_RELAY_WS_MESSAGE_MAX_SIZE - offset < received
         then Some (Inl (PD_RELAY_CLIENT_BUFFER_TOO_SMALL, c\<lparr>rc_state := PD_RELAY_CLIENT_FAILED\<rparr>, view, n))
         else let offset = offset + received in
           if wf_bytesleft m < 0 \<or> int (PD_RELAY_WS_MESSAGE_MAX_SIZE - offset) < wf_bytesleft m
           then Some (Inl (PD_RELAY_CLIENT_BUFFER_TOO_SMALL, c\<lparr>rc_state := PD_RELAY_CLIENT_FAILED\<rparr>, view, n))
           else if wf_bytesleft m \<noteq> 0 then Some (Inr (c, offset, n))
           else do {
             (dr, view') \<leftarrow> pd_relay_message_decode (Some (rc_message_memory c)) offset (Some view);
             view' \<leftarrow> view';
             if dr \<noteq> PD_RELAY_MESSAGE_OK
             then Some (Inl (PD_RELAY_CLIENT_PROTOCOL_ERROR, c\<lparr>rc_state := PD_RELAY_CLIENT_FAILED\<rparr>, view', n))
             else Some (Inl (PD_RELAY_CLIENT_OK, c, view', n)) }) })"

definition pd_win32_relay_client_receive_frame ::
  "'n curl_api \<Rightarrow> pd_win32_relay_client option \<Rightarrow> pd_relay_message_view option \<Rightarrow> 'n \<Rightarrow>
   (pd_relay_client_result \<times> pd_win32_relay_client option \<times> pd_relay_message_view option \<times> 'n) option" where
  "pd_win32_relay_client_receive_frame api client view n =
     (case (client, view) of
        (Some c, Some v) \<Rightarrow>
          if rc_state c \<noteq> PD_RELAY_CLIENT_CONNECTED \<or> rc_easy_handle c = 0 \<or> rc_message_buffer c = 0
          then Some (PD_RELAY_CLIENT_INVALID_STATE, client, view, n)
          else do {
            (r, c, v, n) \<leftarrow> iterate (receive_step api v) (c, 0, n);
            Some (r, Some c, Some v, n) }
      | _ \<Rightarrow> Some (PD_RELAY_CLIENT_INVALID_ARGUMENT, client, view, n))"

definition pd_win32_relay_client_cleanup ::
  "'n curl_api \<Rightarrow> pd_win32_relay_client option \<Rightarrow> 'n \<Rightarrow> (pd_win32_relay_client option \<times> 'n) option" where
  "pd_win32_relay_client_cleanup api client n =
     (case client of
        None \<Rightarrow> Some (client, n)
      | Some c \<Rightarrow> do {
          n \<leftarrow> (if rc_state c = PD_RELAY_CLIENT_CONNECTED \<and> rc_easy_handle c \<noteq> 0
               then do { (_, _, n) \<leftarrow> curl_ws_send api n (rc_easy_handle c) [] CURLWS_CLOSE; Some n }
               else Some n);
          (c, n) \<leftarrow>
            (if rc_request_headers c \<noteq> 0
             then do { n \<leftarrow> curl_slist_free_all api n (rc_request_headers c); Some (c\<lparr>rc_request_headers := 0\<rparr>, n) }
             else Some (c, n));
          (c, n) \<leftarrow>
            (if rc_easy_handle c \<noteq> 0
             then do { n \<leftarrow> curl_easy_cleanup api n (rc_easy_handle c); Some (c\<lparr>rc_easy_handle := 0\<rparr>, n) }
             else Some (c, n));
          (c, n) \<leftarrow>
            (if rc_message_buffer c \<noteq> 0
             then do {
               n \<leftarrow> relay_HeapFree api n (rc_message_buffer c);
               Some (c\<lparr>rc_message_buffer := 0, rc_message_memory := []\<rparr>, n) }
             else Some (c, n));
          Some (Some (c\<lparr>rc_url := replicate (length (rc_url c)) 0, rc_state := PD_RELAY_CLIENT_CLOSED\<rparr>), n) })"

definition pd_win32_relay_client_last_error :: "pd_win32_relay_client option \<Rightarrow> u8 list option option" where
  "pd_win32_relay_client_last_error client =
     (case client of
        None \<Rightarrow> Some None
      | Some c \<Rightarrow> do {
          first \<leftarrow> rd (rc_error_text c) 0;
          Some (if first = 0 then None else Some (rc_error_text c)) })"

section \<open>What the calls promise\<close>

datatype net_resource = Easy net_handle | Headers net_handle | Block net_handle

text \<open>A data frame and a control frame of the WebSocket protocol, as the flags of a received piece tell.\<close>

definition ws_control :: "curl_ws_frame \<Rightarrow> bool" where
  "ws_control m \<longleftrightarrow> and (wf_flags m) (or CURLWS_PING CURLWS_PONG) \<noteq> 0"

definition ws_data :: "curl_ws_frame \<Rightarrow> bool" where
  "ws_data m \<longleftrightarrow> and (wf_flags m) CURLWS_CLOSE = 0 \<and> \<not> ws_control m \<and>
     and (wf_flags m) CURLWS_BINARY \<noteq> 0 \<and> and (wf_flags m) CURLWS_CONT = 0"

text \<open>
  The views of the network: \<open>live\<close> resources, the lines of a header list, the options of a transfer,
  the bytes handed over for sending, the bytes of data frames still to be received, and whether a data
  frame has been delivered only in part. A control frame never comes inside a data frame. A call keeps
  every view it is not there to change.
\<close>

locale curl_net =
  fixes api :: "'n curl_api"
    and net_ok :: "'n \<Rightarrow> bool"
    and live :: "'n \<Rightarrow> net_resource set"
    and items :: "'n \<Rightarrow> net_handle \<Rightarrow> u8 list list"
    and options :: "'n \<Rightarrow> net_handle \<Rightarrow> curl_option list"
    and outgoing inbox :: "'n \<Rightarrow> net_handle \<Rightarrow> u8 list"
    and in_part :: "'n \<Rightarrow> net_handle \<Rightarrow> bool"
  assumes env_value: "GetEnvironmentVariableA api n name = (k, v) \<Longrightarrow> k = 1 \<Longrightarrow> v \<noteq> []"
    and global_init: "net_ok n \<Longrightarrow> curl_global_init api n = (code, n') \<Longrightarrow> net_ok n' \<and> live n' = live n"
    and global_cleanup: "net_ok n \<Longrightarrow> net_ok (curl_global_cleanup api n) \<and> live (curl_global_cleanup api n) = live n"
    and heap_alloc: "net_ok n \<Longrightarrow> relay_HeapAlloc api n k = (p, mem, n') \<Longrightarrow>
      net_ok n' \<and> (items n', options n') = (items n, options n) \<and>
      (if p = 0 then live n' = live n else Block p \<notin> live n \<and> live n' = insert (Block p) (live n) \<and> length mem = k)"
    and heap_free: "net_ok n \<Longrightarrow> Block p \<in> live n \<Longrightarrow>
      \<exists>n'. relay_HeapFree api n p = Some n' \<and> net_ok n' \<and> live n' = live n - {Block p}"
    and easy_init: "net_ok n \<Longrightarrow> curl_easy_init api n = (h, n') \<Longrightarrow>
      net_ok n' \<and> items n' = items n \<and>
      (if h = 0 then live n' = live n
       else Easy h \<notin> live n \<and> live n' = insert (Easy h) (live n) \<and> options n' = (options n)(h := []))"
    and easy_cleanup: "net_ok n \<Longrightarrow> Easy h \<in> live n \<Longrightarrow>
      \<exists>n'. curl_easy_cleanup api n h = Some n' \<and> net_ok n' \<and> live n' = live n - {Easy h}"
    and slist_append: "net_ok n \<Longrightarrow> l = 0 \<or> Headers l \<in> live n \<Longrightarrow>
      \<exists>l' n'. curl_slist_append api n l line = Some (l', n') \<and> net_ok n' \<and> options n' = options n \<and>
        (if l' = 0 then live n' = live n \<and> items n' = items n
         else (Headers l' \<notin> live n \<or> l' = l) \<and>
           live n' = insert (Headers l') (if l = 0 then live n else live n - {Headers l}) \<and>
           items n' = (items n)(l' := (if l = 0 then [] else items n l) @ [line]))"
    and slist_free: "net_ok n \<Longrightarrow> Headers l \<in> live n \<Longrightarrow>
      \<exists>n'. curl_slist_free_all api n l = Some n' \<and> net_ok n' \<and> live n' = live n - {Headers l}"
    and setopt: "net_ok n \<Longrightarrow> Easy h \<in> live n \<Longrightarrow>
      \<exists>code n'. curl_easy_setopt api n h opt = Some (code, n') \<and> net_ok n' \<and> (live n', items n') = (live n, items n) \<and>
        options n' = (if code = CURLE_OK then (options n)(h := options n h @ [opt]) else options n)"
    and perform: "net_ok n \<Longrightarrow> Easy h \<in> live n \<Longrightarrow>
      \<exists>code n'. curl_easy_perform api n h = Some (code, n') \<and> net_ok n' \<and>
        (live n', items n', options n') = (live n, items n, options n) \<and> \<not> in_part n' h"
    and active_socket: "net_ok n \<Longrightarrow> Easy h \<in> live n \<Longrightarrow>
      \<exists>code s n'. curl_easy_active_socket api n h = Some (code, s, n') \<and> net_ok n' \<and>
        (live n', items n', options n', outgoing n', inbox n', in_part n') =
        (live n, items n, options n, outgoing n, inbox n, in_part n)"
    and response_code: "net_ok n \<Longrightarrow> Easy h \<in> live n \<Longrightarrow>
      \<exists>code c n'. curl_easy_response_code api n h = Some (code, c, n') \<and> net_ok n' \<and> live n' = live n"
    and error_buffer: "net_ok n \<Longrightarrow> Easy h \<in> live n \<Longrightarrow>
      length (curl_error_buffer api n h) = 256 \<and> 0 \<in> set (curl_error_buffer api n h)"
    and strerror: "0 \<in> set (curl_easy_strerror api code)"
    and select_returns: "net_ok n \<Longrightarrow> select_socket api n s w t = (r, n') \<Longrightarrow> net_ok n' \<and>
        (live n', items n', options n', outgoing n', inbox n', in_part n') =
        (live n, items n, options n, outgoing n, inbox n, in_part n)"
    and ws_send: "net_ok n \<Longrightarrow> Easy h \<in> live n \<Longrightarrow>
      \<exists>code k n'. curl_ws_send api n h d flags = Some (code, k, n') \<and> net_ok n' \<and>
        (live n', items n', options n', inbox n', in_part n') = (live n, items n, options n, inbox n, in_part n) \<and>
        (code = CURLE_OK \<longrightarrow> k \<le> length d) \<and>
        (flags = CURLWS_BINARY \<longrightarrow>
           outgoing n' h = (if code = CURLE_OK then outgoing n h @ take k d else outgoing n h))"
    and ws_recv: "net_ok n \<Longrightarrow> Easy h \<in> live n \<Longrightarrow>
      \<exists>code d m n'. curl_ws_recv api n h cap = Some (code, d, m, n') \<and> net_ok n' \<and> length d \<le> cap \<and>
        (live n', items n', options n', outgoing n') = (live n, items n, options n, outgoing n) \<and>
        (case m of
           Some f \<Rightarrow> if code = CURLE_OK \<and> ws_data f
             then inbox n h = d @ inbox n' h \<and> in_part n' h = (wf_bytesleft f \<noteq> 0)
             else inbox n' h = inbox n h \<and> in_part n' h = in_part n h \<and>
               (code = CURLE_OK \<and> ws_control f \<longrightarrow> \<not> in_part n h)
         | None \<Rightarrow> inbox n' h = inbox n h \<and> in_part n' h = in_part n h)"

locale curl_finite = curl_net api net_ok live items options outgoing inbox in_part
  for api :: "'n curl_api" and net_ok live items options outgoing inbox in_part +
  fixes patience :: "'n \<Rightarrow> nat"
  assumes recv_patience: "curl_ws_recv api n h cap = Some (code, d, m, n') \<Longrightarrow>
      code = CURLE_OK \<or> code = CURLE_AGAIN \<Longrightarrow> patience n' < patience n"
    and send_patience: "curl_ws_send api n h d flags = Some (code, k, n') \<Longrightarrow>
      patience n' \<le> patience n \<and> (code = CURLE_AGAIN \<longrightarrow> patience n' < patience n)"
    and socket_patience: "curl_easy_active_socket api n h = Some (code, s, n') \<Longrightarrow> patience n' \<le> patience n"
    and select_patience: "select_socket api n s w t = (r, n') \<Longrightarrow> patience n' \<le> patience n"

section \<open>The client\<close>

text \<open>The resources of a client are live and its message buffer has the size the code allocates.\<close>

definition client_inv where
  "client_inv net_ok live c n \<longleftrightarrow> net_ok n \<and> length (rc_url c) = 512 \<and> length (rc_error_text c) = 256 \<and>
     (rc_easy_handle c \<noteq> 0 \<longrightarrow> Easy (rc_easy_handle c) \<in> live n) \<and>
     (rc_request_headers c \<noteq> 0 \<longrightarrow> Headers (rc_request_headers c) \<in> live n) \<and>
     (rc_message_buffer c \<noteq> 0 \<longrightarrow> Block (rc_message_buffer c) \<in> live n \<and> length (rc_message_memory c) = 61440)"

definition client_owned :: "pd_win32_relay_client \<Rightarrow> net_resource set" where
  "client_owned c = (if rc_easy_handle c = 0 then {} else {Easy (rc_easy_handle c)}) \<union>
     (if rc_request_headers c = 0 then {} else {Headers (rc_request_headers c)}) \<union>
     (if rc_message_buffer c = 0 then {} else {Block (rc_message_buffer c)})"

text \<open>Everything of a client but its state and the contents of its error text and its buffer.\<close>

definition same_client :: "pd_win32_relay_client \<Rightarrow> pd_win32_relay_client \<Rightarrow> bool" where
  "same_client c c' \<longleftrightarrow> rc_easy_handle c' = rc_easy_handle c \<and> rc_request_headers c' = rc_request_headers c \<and>
     rc_message_buffer c' = rc_message_buffer c \<and> length (rc_message_memory c') = length (rc_message_memory c) \<and>
     rc_url c' = rc_url c \<and> length (rc_error_text c') = length (rc_error_text c)"

lemma same_client_refl [simp]: "same_client c c"
  by (simp add: same_client_def)

lemma same_client_state [simp]: "same_client c (c'\<lparr>rc_state := s\<rparr>) = same_client c c'"
  by (simp add: same_client_def)

lemma same_client_after [simp]: "same_client c (after_wait c' r) = same_client c c'"
  by (simp add: after_wait_def)

lemma curl_failure_same: "pd_relay_curl_failure c code = (r, c') \<Longrightarrow> r \<noteq> PD_RELAY_CLIENT_OK \<and> same_client c c'"
  by (auto simp: pd_relay_curl_failure_def split: if_splits)

lemma encode_total:
  assumes "k \<le> length d" and "length mem = 61440"
  shows "\<exists>r mem' msize. pd_relay_message_encode (Some h) (Some d) k (Some mem) 61440 (Some 0) = Some (r, Some mem', Some msize) \<and>
    length mem' = 61440 \<and>
    (r = PD_RELAY_MESSAGE_OK \<longrightarrow> msize = 12 + k \<and> msize \<le> 61440 \<and> take msize mem' = frame_wire h @ take k d)"
proof (cases "61428 < k \<or> unat (fh_payload_length h) \<noteq> k")
  case True
  then show ?thesis using assms by (simp add: pd_relay_message_encode_def)
next
  case False
  show ?thesis
  proof (cases "frame_encodable h")
    case enc: True
    have w: "length (frame_wire h) = 12" by (simp add: frame_wire_def)
    have e: "pd_frame_encode_header (Some h) (Some mem) = Some (PD_FRAME_OK, Some (frame_wire h @ drop 12 mem))"
      using enc assms(2) by (simp add: pd_frame_encode_header_wire)
    have "memcpy (frame_wire h @ drop 12 mem) 12 d 0 k = Some (frame_wire h @ take k d @ drop (12 + k) mem)"
      using assms False w by (simp add: memcpy_def mem_slice_def put_def add.commute)
    then show ?thesis using False assms e w by (auto simp: pd_relay_message_encode_def Let_def)
  next
    case rej: False
    then obtain r where "r \<noteq> PD_FRAME_OK" "pd_frame_encode_header (Some h) (Some mem) = Some (r, Some mem)"
      using pd_frame_encode_header_reject by blast
    then show ?thesis using False assms by (simp add: pd_relay_message_encode_def Let_def)
  qed
qed

context curl_finite
begin

abbreviation "ready c n \<equiv> client_inv net_ok live c n \<and> rc_easy_handle c \<noteq> 0 \<and> rc_message_buffer c \<noteq> 0"

abbreviation "statics n \<equiv> (live n, items n, options n)"

lemma wait_returns:
  assumes "net_ok n" and "Easy (rc_easy_handle c) \<in> live n"
  shows "\<exists>r n'. pd_relay_wait_socket api c w n = Some (r, n') \<and> net_ok n' \<and> statics n' = statics n \<and>
    (outgoing n', inbox n', in_part n') = (outgoing n, inbox n, in_part n) \<and> patience n' \<le> patience n"
proof -
  obtain code s n1 where a: "curl_easy_active_socket api n (rc_easy_handle c) = Some (code, s, n1)" "net_ok n1"
    "(live n1, items n1, options n1, outgoing n1, inbox n1, in_part n1) = (live n, items n, options n, outgoing n, inbox n, in_part n)"
    using active_socket [OF assms] by blast
  let ?t = "(PD_RELAY_IO_TIMEOUT_MS div 1000, PD_RELAY_IO_TIMEOUT_MS mod 1000 * 1000)"
  obtain k n2 where k: "select_socket api n1 s w ?t = (k, n2)" by fastforce
  note sel = select_returns [OF a(2) k] and pat = socket_patience [OF a(1)] select_patience [OF k]
  show ?thesis
  proof (cases "code \<noteq> CURLE_OK \<or> s = CURL_SOCKET_BAD")
    case True
    then show ?thesis using a pat by (simp add: pd_relay_wait_socket_def)
  next
    case False
    then show ?thesis using a k sel pat by (simp add: pd_relay_wait_socket_def Let_def)
  qed
qed

lemma same_client_ready: "same_client c c' \<Longrightarrow> net_ok n' \<Longrightarrow> live n' = live n \<Longrightarrow> ready c n \<Longrightarrow> ready c' n'"
  by (simp add: same_client_def client_inv_def)

lemma ready_easy: "ready c n \<Longrightarrow> net_ok n \<and> Easy (rc_easy_handle c) \<in> live n \<and> length (rc_message_memory c) = 61440"
  by (simp add: client_inv_def)

text \<open>The sending loop hands over the message piece by piece, in order.\<close>

definition sending where
  "sending c n0 msize s \<longleftrightarrow> (case s of (c', offset, n) \<Rightarrow> c' = c \<and> offset \<le> msize \<and> net_ok n \<and> statics n = statics n0 \<and>
     inbox n = inbox n0 \<and> in_part n = in_part n0 \<and>
     outgoing n (rc_easy_handle c) = outgoing n0 (rc_easy_handle c) @ take offset (rc_message_memory c))"

definition sent_message where
  "sent_message c n0 msize res \<longleftrightarrow> (case res of (r, c', n) \<Rightarrow> same_client c c' \<and> net_ok n \<and> statics n = statics n0 \<and>
     inbox n = inbox n0 \<and> in_part n = in_part n0 \<and>
     (r = PD_RELAY_CLIENT_OK \<longrightarrow> c' = c \<and>
        outgoing n (rc_easy_handle c) = outgoing n0 (rc_easy_handle c) @ take msize (rc_message_memory c)))"

lemma send_step_spec:
  assumes "sending c n0 msize s" and "ready c n0" and "msize \<le> 61440"
  shows "\<exists>r. send_step api msize s = Some r \<and>
    (case r of Inl x \<Rightarrow> sent_message c n0 msize x
     | Inr s' \<Rightarrow> sending c n0 msize s' \<and> (msize - fst (snd s')) + patience (snd (snd s')) < (msize - fst (snd s)) + patience (snd (snd s)))"
proof -
  obtain offset n where s: "s = (c, offset, n)" "offset \<le> msize" "net_ok n" "statics n = statics n0" "inbox n = inbox n0"
    "in_part n = in_part n0"
    "outgoing n (rc_easy_handle c) = outgoing n0 (rc_easy_handle c) @ take offset (rc_message_memory c)"
    using assms(1) unfolding sending_def by (cases s) auto
  have c: "Easy (rc_easy_handle c) \<in> live n" "length (rc_message_memory c) = 61440"
    using ready_easy [OF assms(2)] s(4) by auto
  show ?thesis
  proof (cases "offset < msize")
    case False
    then show ?thesis using s by (simp add: send_step_def sent_message_def)
  next
    case True
    let ?d = "take (msize - offset) (drop offset (rc_message_memory c))"
    have sl: "mem_slice (rc_message_memory c) offset (msize - offset) = Some ?d"
      using s(2) c(2) assms(3) by (simp add: mem_slice_def)
    obtain code k n1 where w: "curl_ws_send api n (rc_easy_handle c) ?d CURLWS_BINARY = Some (code, k, n1)" "net_ok n1"
      "(live n1, items n1, options n1, inbox n1, in_part n1) = (live n, items n, options n, inbox n, in_part n)"
      "code = CURLE_OK \<Longrightarrow> k \<le> length ?d"
      "outgoing n1 (rc_easy_handle c) = (if code = CURLE_OK then outgoing n (rc_easy_handle c) @ take k ?d else outgoing n (rc_easy_handle c))"
      using ws_send [OF s(3) c(1), of ?d CURLWS_BINARY] by blast
    note pat = send_patience [OF w(1)]
    have c1: "Easy (rc_easy_handle c) \<in> live n1" using c(1) w(3) by simp
    obtain wr n2 where wt: "pd_relay_wait_socket api c True n1 = Some (wr, n2)" "net_ok n2" "statics n2 = statics n1"
      "(outgoing n2, inbox n2, in_part n2) = (outgoing n1, inbox n1, in_part n1)" "patience n2 \<le> patience n1"
      using wait_returns [OF w(2) c1] by blast
    consider (again) "code = CURLE_AGAIN" | (fail) "code \<noteq> CURLE_AGAIN" "code \<noteq> CURLE_OK" | (none) "code = CURLE_OK" "k = 0"
      | (some) "code = CURLE_OK" "0 < k" by auto
    then show ?thesis
    proof cases
      case again
      then have "code \<noteq> CURLE_OK" by (simp add: curl_codes)
      moreover have "msize - offset + patience n2 < msize - offset + patience n" using again pat wt(5) by linarith
      ultimately show ?thesis using again True s sl w wt
        by (cases "wr = PD_RELAY_CLIENT_OK") (simp_all add: send_step_def sending_def sent_message_def)
    next
      case fail
      obtain r c' where f: "pd_relay_curl_failure c code = (r, c')" by fastforce
      show ?thesis using fail True s sl w curl_failure_same [OF f] f by (simp add: send_step_def sent_message_def)
    next
      case none
      then show ?thesis using True s sl w by (simp add: send_step_def sent_message_def curl_codes)
    next
      case some
      have k: "k \<le> msize - offset" using w(4) some(1) by simp
      have tk: "take offset (rc_message_memory c) @ take k ?d = take (offset + k) (rc_message_memory c)"
        using k by (simp add: take_add min_absorb1)
      have "sending c n0 msize (c, offset + k, n1)" using some s w k tk by (simp add: sending_def)
      moreover have "msize - (offset + k) + patience n1 < msize - offset + patience n" using some(2) pat k True by linarith
      ultimately show ?thesis using some True s(1) sl w(1) by (simp add: send_step_def curl_codes)
    qed
  qed
qed

lemma send_frame_spec:
  assumes "ready c n" and "k \<le> length d"
  shows "\<exists>r c' n'. pd_win32_relay_client_send_frame api (Some c) (Some h) (Some d) k n = Some (r, Some c', n') \<and>
    same_client c c' \<and> net_ok n' \<and> statics n' = statics n \<and> in_part n' = in_part n \<and> inbox n' = inbox n \<and>
    (r = PD_RELAY_CLIENT_OK \<longrightarrow> rc_state c' = PD_RELAY_CLIENT_CONNECTED \<and>
       outgoing n' (rc_easy_handle c) = outgoing n (rc_easy_handle c) @ frame_wire h @ take k d)"
proof (cases "rc_state c = PD_RELAY_CLIENT_CONNECTED")
  case False
  then show ?thesis using assms(1) by (simp add: pd_win32_relay_client_send_frame_def client_inv_def)
next
  case True
  have m: "length (rc_message_memory c) = 61440" using ready_easy [OF assms(1)] by simp
  obtain er mem' msize where e: "pd_relay_message_encode (Some h) (Some d) k (Some (rc_message_memory c)) 61440 (Some 0) = Some (er, Some mem', Some msize)"
    "length mem' = 61440" "er = PD_RELAY_MESSAGE_OK \<longrightarrow> msize = 12 + k \<and> msize \<le> 61440 \<and> take msize mem' = frame_wire h @ take k d"
    using encode_total [OF assms(2) m, of h] by blast
  let ?c = "c\<lparr>rc_message_memory := mem'\<rparr>"
  have sc: "same_client c ?c" using e(2) m by (simp add: same_client_def)
  show ?thesis
  proof (cases "er = PD_RELAY_MESSAGE_OK")
    case bad: False
    then show ?thesis using True e(1) assms(1) sc by (simp add: pd_win32_relay_client_send_frame_def client_inv_def)
  next
    case ok: True
    have sz: "msize \<le> 61440" using e(3) ok by simp
    have rd: "ready ?c n" using same_client_ready [OF sc _ refl assms(1)] ready_easy [OF assms(1)] by blast
    have "\<exists>x. iterate (send_step api msize) (?c, 0, n) = Some x \<and> sent_message ?c n msize x"
    proof (rule iterate_returns [where I = "sending ?c n msize" and m = "\<lambda>s. (msize - fst (snd s)) + patience (snd (snd s))"])
      show "sending ?c n msize (?c, 0, n)" using ready_easy [OF rd] by (simp add: sending_def)
    qed (rule send_step_spec [OF _ rd sz])
    then obtain r c' n' where x: "iterate (send_step api msize) (?c, 0, n) = Some (r, c', n')" "sent_message ?c n msize (r, c', n')"
      by (metis prod_cases3)
    have "pd_win32_relay_client_send_frame api (Some c) (Some h) (Some d) k n = Some (r, Some c', n')"
      using True e(1) assms(1) ok x(1) by (simp add: pd_win32_relay_client_send_frame_def)
    moreover have "same_client c c'" using x(2) sc by (simp add: sent_message_def same_client_def)
    moreover have "take msize mem' = frame_wire h @ take k d" using e(3) ok by blast
    ultimately show ?thesis using x(2) True by (simp add: sent_message_def)
  qed
qed

end

text \<open>The receiving loop collects one data frame at the front of the buffer.\<close>

lemma put_prefix:
  assumes "put mem off d = Some mem'"
  shows "length mem' = length mem" and "take off mem' = take off mem" and "take (off + length d) mem' = take off mem @ d"
proof -
  have fits: "off + length d \<le> length mem" and mem': "mem' = take off mem @ d @ drop (off + length d) mem"
    using assms by (auto simp: put_def split: if_splits)
  have off: "length (take off mem) = off" using fits by simp
  show "length mem' = length mem" "take off mem' = take off mem" "take (off + length d) mem' = take off mem @ d"
    using fits off by (simp_all add: mem')
qed

context curl_finite
begin

definition receiving where
  "receiving c n0 s \<longleftrightarrow> (case s of (c', offset, n) \<Rightarrow> same_client c c' \<and> rc_state c' = rc_state c \<and> offset \<le> 61440 \<and> net_ok n \<and>
     statics n = statics n0 \<and> outgoing n = outgoing n0 \<and> patience n \<le> patience n0 \<and>
     (\<not> in_part n0 (rc_easy_handle c) \<longrightarrow>
        inbox n0 (rc_easy_handle c) = take offset (rc_message_memory c') @ inbox n (rc_easy_handle c) \<and>
        (\<not> in_part n (rc_easy_handle c) \<longrightarrow> offset = 0)))"

definition received_frame where
  "received_frame c n0 res \<longleftrightarrow> (case res of (r, c', v, n) \<Rightarrow> same_client c c' \<and> net_ok n \<and> statics n = statics n0 \<and>
     outgoing n = outgoing n0 \<and>
     (r = PD_RELAY_CLIENT_TIMEOUT \<longrightarrow> rc_state c' = PD_RELAY_CLIENT_CONNECTED \<and> patience n < patience n0) \<and>
     (r = PD_RELAY_CLIENT_OK \<longrightarrow> rc_state c' = rc_state c \<and> relay_frame_valid (rv_header v) (view_payload v) \<and>
        rv_payload_size v = length (view_payload v) \<and>
        (\<not> in_part n0 (rc_easy_handle c) \<longrightarrow> \<not> in_part n (rc_easy_handle c) \<and>
           inbox n0 (rc_easy_handle c) = frame_wire (rv_header v) @ view_payload v @ inbox n (rc_easy_handle c))))"

lemma received_frame_failed:
  assumes "receiving c n0 (c', offset, n)" and "same_client c' c2" and "net_ok n2" and "statics n2 = statics n" and "outgoing n2 = outgoing n"
    and "r \<noteq> PD_RELAY_CLIENT_OK" and "r \<noteq> PD_RELAY_CLIENT_TIMEOUT"
  shows "received_frame c n0 (r, c2, v, n2)"
  using assms by (auto simp: received_frame_def receiving_def same_client_def)

lemma receive_data_spec:
  assumes inv: "receiving c n0 (c', offset, n)" and rd: "ready c n0"
    and r: "curl_ws_recv api n (rc_easy_handle c) (61440 - offset) = Some (CURLE_OK, d, Some m, n1)" "net_ok n1" "length d \<le> 61440 - offset"
      "statics n1 = statics n" "outgoing n1 = outgoing n" "inbox n (rc_easy_handle c) = d @ inbox n1 (rc_easy_handle c)"
      "in_part n1 (rc_easy_handle c) = (wf_bytesleft m \<noteq> 0)" "ws_data m" "patience n1 < patience n"
    and mem: "put (rc_message_memory c') offset d = Some mem'"
  shows "\<exists>r. receive_step api v (c', offset, n) = Some r \<and>
    (case r of Inl x \<Rightarrow> received_frame c n0 x
     | Inr s' \<Rightarrow> receiving c n0 s' \<and> patience (snd (snd s')) < patience n)"
proof -
  let ?c = "c'\<lparr>rc_message_memory := mem'\<rparr>" and ?h = "rc_easy_handle c"
  have same: "same_client c' ?c" using put_prefix(1) [OF mem] by (simp add: same_client_def)
  have h: "rc_easy_handle c' = ?h" using inv by (simp add: receiving_def same_client_def)
  have len: "length mem' = 61440" using put_prefix(1) [OF mem] inv ready_easy [OF rd] by (auto simp: receiving_def same_client_def)
  have fl: "and (wf_flags m) CURLWS_CLOSE = 0" "and (wf_flags m) (or CURLWS_PING CURLWS_PONG) = 0"
    "and (wf_flags m) CURLWS_BINARY \<noteq> 0" "and (wf_flags m) CURLWS_CONT = 0"
    using r(8) by (simp_all add: ws_data_def ws_control_def)
  have ok: "CURLE_OK \<noteq> CURLE_AGAIN" by (simp add: curl_codes)
  let ?o = "offset + length d"
  have fit: "?o \<le> length mem'" using r(3) len inv by (auto simp: receiving_def)
  obtain dr v' where dec: "pd_relay_message_decode (Some mem') ?o (Some v) = Some (dr, Some v')"
    "dr = PD_RELAY_MESSAGE_OK \<longrightarrow> relay_frame_valid (rv_header v') (view_payload v') \<and> rv_payload_size v' = length (view_payload v') \<and>
       take ?o mem' = frame_wire (rv_header v') @ view_payload v'"
    using relay_decode_total [OF fit, of v] by blast
  have body: "receive_step api v (c', offset, n) =
    (if wf_bytesleft m < 0 \<or> int (61440 - ?o) < wf_bytesleft m
     then Some (Inl (PD_RELAY_CLIENT_BUFFER_TOO_SMALL, ?c\<lparr>rc_state := PD_RELAY_CLIENT_FAILED\<rparr>, v, n1))
     else if wf_bytesleft m \<noteq> 0 then Some (Inr (?c, ?o, n1))
     else if dr \<noteq> PD_RELAY_MESSAGE_OK then Some (Inl (PD_RELAY_CLIENT_PROTOCOL_ERROR, ?c\<lparr>rc_state := PD_RELAY_CLIENT_FAILED\<rparr>, v', n1))
     else Some (Inl (PD_RELAY_CLIENT_OK, ?c, v', n1)))"
    using r(1,3) h mem fl ok dec(1) by (simp add: receive_step_def Let_def)
  have bad: "received_frame c n0 (x, ?c\<lparr>rc_state := PD_RELAY_CLIENT_FAILED\<rparr>, y, n1)"
    if "x \<noteq> PD_RELAY_CLIENT_OK" "x \<noteq> PD_RELAY_CLIENT_TIMEOUT" for x y
    using received_frame_failed [OF inv _ r(2,4,5) that] same by simp
  have stream: "inbox n0 ?h = take ?o mem' @ inbox n1 ?h" if "\<not> in_part n0 ?h"
    using that inv r(6) put_prefix(3) [OF mem] by (simp add: receiving_def)
  have goes_on: "receiving c n0 (?c, ?o, n1)" if "wf_bytesleft m \<noteq> 0"
    using that inv same r stream by (auto simp: receiving_def same_client_def)
  have ended: "received_frame c n0 (PD_RELAY_CLIENT_OK, ?c, v', n1)" if "wf_bytesleft m = 0" "dr = PD_RELAY_MESSAGE_OK"
    using that inv same r dec(2) stream by (auto simp: receiving_def received_frame_def same_client_def)
  show ?thesis unfolding body using bad goes_on ended r(9) by auto
qed

end

context curl_finite
begin

lemma receive_step_spec:
  assumes inv: "receiving c n0 s" and rd: "ready c n0"
  shows "\<exists>r. receive_step api v s = Some r \<and>
    (case r of Inl x \<Rightarrow> received_frame c n0 x
     | Inr s' \<Rightarrow> receiving c n0 s' \<and> patience (snd (snd s')) < patience (snd (snd s)))"
proof -
  obtain c' offset n where s: "s = (c', offset, n)" by (metis prod_cases3)
  let ?h = "rc_easy_handle c"
  have i: "same_client c c'" "rc_state c' = rc_state c" "offset \<le> 61440" "net_ok n" "statics n = statics n0" "outgoing n = outgoing n0"
    "rc_easy_handle c' = ?h" "length (rc_message_memory c') = 61440" "Easy ?h \<in> live n" "patience n \<le> patience n0"
    using inv ready_easy [OF rd] by (auto simp: s receiving_def same_client_def)
  obtain code d meta n1 where r: "curl_ws_recv api n ?h (61440 - offset) = Some (code, d, meta, n1)" "net_ok n1" "length d \<le> 61440 - offset"
    and st: "(live n1, items n1, options n1, outgoing n1) = (live n, items n, options n, outgoing n)"
    and cs: "case meta of
           Some f \<Rightarrow> if code = CURLE_OK \<and> ws_data f
             then inbox n ?h = d @ inbox n1 ?h \<and> in_part n1 ?h = (wf_bytesleft f \<noteq> 0)
             else inbox n1 ?h = inbox n ?h \<and> in_part n1 ?h = in_part n ?h \<and>
               (code = CURLE_OK \<and> ws_control f \<longrightarrow> \<not> in_part n ?h)
         | None \<Rightarrow> inbox n1 ?h = inbox n ?h \<and> in_part n1 ?h = in_part n ?h"
    using ws_recv [OF i(4,9), of "61440 - offset"] by blast
  have st1: "statics n1 = statics n" "outgoing n1 = outgoing n" "Easy ?h \<in> live n1" using st i(9) by simp_all
  have "offset + length d \<le> length (rc_message_memory c')" using r(3) i(3,8) by simp
  then obtain mem' where put: "put (rc_message_memory c') offset d = Some mem'" using put_Some by blast
  then have mem: "put (rc_message_memory c') offset d = Some mem'" "length mem' = 61440"
    "take offset mem' = take offset (rc_message_memory c')"
    using put_prefix(1,2) [OF put] i(8) by simp_all
  let ?c = "c'\<lparr>rc_message_memory := mem'\<rparr>"
  have same: "same_client c' ?c" using mem(2) i(8) by (simp add: same_client_def)
  have h: "rc_easy_handle ?c = ?h" using i(7) by simp
  have bad: "received_frame c n0 (x, y, v, n1)" if "same_client c' y" "x \<noteq> PD_RELAY_CLIENT_OK" "x \<noteq> PD_RELAY_CLIENT_TIMEOUT" for x y
    using received_frame_failed [OF inv [unfolded s] that(1) r(2) st1(1,2) that(2,3)] .
  have keep: "receiving c n0 (?c, o', n2)" if "o' = offset \<or> \<not> in_part n ?h \<and> o' = 0" "net_ok n2" "statics n2 = statics n" "outgoing n2 = outgoing n"
      "inbox n2 ?h = inbox n ?h" "in_part n2 ?h = in_part n ?h" "patience n2 \<le> patience n" for o' n2
    using inv that i same mem(2,3) by (auto simp: s receiving_def same_client_def)
  obtain wr n2 where w: "pd_relay_wait_socket api ?c False n1 = Some (wr, n2)" "net_ok n2" "statics n2 = statics n1"
    "(outgoing n2, inbox n2, in_part n2) = (outgoing n1, inbox n1, in_part n1)" "patience n2 \<le> patience n1"
    using wait_returns [of n1 ?c False] r(2) st1(3) h by auto
  consider (again) "code = CURLE_AGAIN" | (fail) "code \<noteq> CURLE_AGAIN" "code \<noteq> CURLE_OK" | (none) "code = CURLE_OK" "meta = None"
    | (other) m where "code = CURLE_OK" "meta = Some m" "\<not> ws_data m" | (data) m where "code = CURLE_OK" "meta = Some m" "ws_data m"
    by (cases meta) auto
  then show ?thesis
  proof cases
    case again
    then have pat: "patience n1 < patience n" using recv_patience [OF r(1)] by simp
    have nok: "code \<noteq> CURLE_OK" using again by (simp add: curl_codes)
    have same_in: "inbox n1 ?h = inbox n ?h" "in_part n1 ?h = in_part n ?h" using cs nok by (auto split: option.splits)
    have "received_frame c n0 (wr, after_wait ?c wr, v, n2)" if "wr \<noteq> PD_RELAY_CLIENT_OK"
      using that i w st1 same pat by (auto simp: received_frame_def same_client_def after_wait_def)
    moreover have "receiving c n0 (?c, offset, n2)" by (rule keep) (use w st1 same_in pat in auto)
    ultimately show ?thesis using again r(1) i(7) mem(1) w(1,5) pat
      by (cases "wr = PD_RELAY_CLIENT_OK") (simp_all add: s receive_step_def)
  next
    case fail
    obtain x c2 where f: "pd_relay_curl_failure ?c code = (x, c2)" by fastforce
    then have "received_frame c n0 (x, c2, v, n1)"
      using bad [of c2 x] same curl_failure_same [OF f] by (auto simp: same_client_def pd_relay_curl_failure_def split: if_splits)
    then show ?thesis using fail r(1) i(7) mem(1) f by (simp add: s receive_step_def)
  next
    case none
    then show ?thesis using bad [of "?c\<lparr>rc_state := PD_RELAY_CLIENT_FAILED\<rparr>" PD_RELAY_CLIENT_PROTOCOL_ERROR] same r(1) i(7) mem(1)
      by (simp add: s receive_step_def curl_codes)
  next
    case (other m)
    have pat: "patience n1 < patience n" using recv_patience [OF r(1)] other(1) by simp
    have cs': "inbox n1 ?h = inbox n ?h" "in_part n1 ?h = in_part n ?h" "ws_control m \<longrightarrow> \<not> in_part n ?h" using cs other by simp_all
    have "receiving c n0 (?c, if wf_bytesleft m = 0 then 0 else offset, n1)" if "ws_control m"
      by (rule keep) (use that cs' st1 r(2) pat in auto)
    moreover have "received_frame c n0 (x, ?c\<lparr>rc_state := y\<rparr>, v, n1)" if "x \<noteq> PD_RELAY_CLIENT_OK" "x \<noteq> PD_RELAY_CLIENT_TIMEOUT" for x y
      using bad [of "?c\<lparr>rc_state := y\<rparr>" x] that same by simp
    moreover have "receive_step api v s = Some (
        if and (wf_flags m) CURLWS_CLOSE \<noteq> 0 then Inl (PD_RELAY_CLIENT_CLOSED_RESULT, ?c\<lparr>rc_state := PD_RELAY_CLIENT_CLOSED\<rparr>, v, n1)
        else if ws_control m then Inr (?c, if wf_bytesleft m = 0 then 0 else offset, n1)
        else Inl (PD_RELAY_CLIENT_PROTOCOL_ERROR, ?c\<lparr>rc_state := PD_RELAY_CLIENT_FAILED\<rparr>, v, n1))"
      using other r(1) i(7) mem(1) by (simp add: s receive_step_def curl_codes ws_data_def ws_control_def Let_def)
    ultimately show ?thesis using pat
      by (cases "and (wf_flags m) CURLWS_CLOSE \<noteq> 0"; cases "ws_control m") (simp_all add: s)
  next
    case (data m)
    have pat: "patience n1 < patience n" using recv_patience [OF r(1)] data(1) by simp
    have cs': "inbox n ?h = d @ inbox n1 ?h" "in_part n1 ?h = (wf_bytesleft m \<noteq> 0)" using cs data by simp_all
    have "curl_ws_recv api n ?h (61440 - offset) = Some (CURLE_OK, d, Some m, n1)" using r(1) data(1,2) by simp
    from receive_data_spec [OF inv [unfolded s] rd this r(2,3) st1(1,2) cs' data(3) pat mem(1), of v]
    show ?thesis unfolding s snd_conv .
  qed
qed

lemma receive_frame_spec:
  assumes "ready c n"
  shows "\<exists>r c' v' n'. pd_win32_relay_client_receive_frame api (Some c) (Some v) n = Some (r, Some c', Some v', n') \<and>
    received_frame c n (r, c', v', n')"
proof (cases "rc_state c = PD_RELAY_CLIENT_CONNECTED")
  case False
  then show ?thesis using assms by (simp add: pd_win32_relay_client_receive_frame_def received_frame_def client_inv_def)
next
  case True
  have "\<exists>x. iterate (receive_step api v) (c, 0, n) = Some x \<and> received_frame c n x"
  proof (rule iterate_returns [where I = "receiving c n" and m = "\<lambda>s. patience (snd (snd s))"])
    show "receiving c n (c, 0, n)" using ready_easy [OF assms] by (simp add: receiving_def)
  qed (rule receive_step_spec [OF _ assms])
  then show ?thesis using True assms by (auto simp: pd_win32_relay_client_receive_frame_def)
qed

end

section \<open>Setting up and releasing a client\<close>

text \<open>The addresses a client connects to: secure ones, and others only when the environment opts in.\<close>

definition insecure_opt_in :: "'n curl_api \<Rightarrow> 'n \<Rightarrow> bool" where
  "insecure_opt_in api n \<longleftrightarrow> (case GetEnvironmentVariableA api n (c_lit ''PRINTDROP_ALLOW_INSECURE_HTTP'') of (k, v) \<Rightarrow>
     k = 1 \<and> hd v = of_char (CHR ''1''))"

definition url_allowed :: "bool \<Rightarrow> u8 list \<Rightarrow> bool" where
  "url_allowed insecure url \<longleftrightarrow> length url \<le> 511 \<and>
     (6 < length url \<and> take 6 url = wss_prefix \<or> insecure \<and> 5 < length url \<and> take 5 url = ws_prefix)"

lemma length_auth_prefix [simp]: "length auth_prefix = 22"
  by (simp add: auth_prefix_def)

lemma auth_prefix_no_nul: "0 \<notin> set auth_prefix"
  by (simp add: auth_prefix_def c_lit_def)

lemma memcmp_take:
  assumes "0 \<in> set u" and "k < length (c_str u)" and "length lit = k"
  shows "memcmp_eq u lit k = Some (take k (c_str u) = lit)"
  using assms length_c_str_less [OF assms(1)] by (auto simp: memcmp_eq_def mem_slice_def c_str_take)

context curl_net
begin

lemma insecure_http_enabled_eq: "pd_insecure_http_enabled api n = Some (insecure_opt_in api n)"
proof -
  obtain k v where g: "GetEnvironmentVariableA api n (c_lit ''PRINTDROP_ALLOW_INSECURE_HTTP'') = (k, v)" by fastforce
  show ?thesis
    using env_value [OF g] by (cases "k = 1"; cases v) (auto simp: pd_insecure_http_enabled_def insecure_opt_in_def g rd_def)
qed

lemma url_is_allowed_eq:
  assumes "0 \<in> set u"
  shows "pd_relay_url_is_allowed api n (Some u) = Some (url_allowed (insecure_opt_in api n) (c_str u))"
proof -
  have pre: "c_and (Some (k < length (c_str u))) (c_and (Some (length (c_str u) \<le> 511)) (memcmp_eq u lit k)) =
      Some (k < length (c_str u) \<and> length (c_str u) \<le> 511 \<and> take k (c_str u) = lit)" if "length lit = k" for lit k
    using memcmp_take [OF assms _ that]
    by (cases "k < length (c_str u)"; cases "length (c_str u) \<le> 511") simp_all
  show ?thesis
    using assms insecure_http_enabled_eq [of n] pre [of wss_prefix 6] pre [of ws_prefix 5]
    by (auto simp: pd_relay_url_is_allowed_def strlen_def url_allowed_def)
qed

lemma set_options_spec:
  assumes "net_ok n" and "Easy h \<in> live n"
  shows "\<exists>code n'. set_options api h opts n = Some (code, n') \<and> net_ok n' \<and> live n' = live n \<and> items n' = items n \<and>
    (code = CURLE_OK \<longrightarrow> options n' h = options n h @ opts)"
  using assms
proof (induction opts arbitrary: n)
  case (Cons opt opts)
  obtain code n1 where s: "curl_easy_setopt api n h opt = Some (code, n1)" "net_ok n1" "(live n1, items n1) = (live n, items n)"
    "options n1 = (if code = CURLE_OK then (options n)(h := options n h @ [opt]) else options n)"
    using setopt [OF Cons.prems] by blast
  then show ?case using Cons.IH [of n1] Cons.prems by (cases "code = CURLE_OK") auto
qed simp

end

lemma secret_is_valid_eq:
  assumes "0 \<in> set v"
  shows "pd_receiver_secret_is_valid (Some v) = Some (lower_hex 64 (c_str v))"
proof -
  have n: "PD_RECEIVER_SECRET_HEX_CHARS = 64" by simp
  have "pd_receiver_secret_is_valid (Some v) = pd_is_lower_hex (Some v) 64"
    unfolding pd_receiver_secret_is_valid_def pd_is_lower_hex_def n ..
  then show ?thesis using assms by (simp add: pd_is_lower_hex_check lower_hex_check_eq)
qed

lemma auth_header_eq:
  assumes "0 \<in> set secret" and "length (c_str secret) = 64"
  shows "build_auth_header secret = Some (auth_prefix @ c_str secret @ [0])"
proof -
  have sl: "mem_slice secret 0 64 = Some (c_str secret)"
    using c_str_slice [OF assms(1)] assms(2) by simp
  have "put (replicate 87 0) 0 auth_prefix = Some (auth_prefix @ replicate 65 0)"
    by (simp add: put_def)
  moreover have "put (auth_prefix @ replicate 65 0) 22 (c_str secret) = Some (auth_prefix @ c_str secret @ [0])"
    using assms(2) by (simp add: put_def)
  moreover have "wr (auth_prefix @ c_str secret @ [0]) 86 0 = Some (auth_prefix @ c_str secret @ [0])"
    using assms(2) by (simp add: wr_def list_update_append)
  moreover have "mem_slice auth_prefix 0 22 = Some auth_prefix" by (simp add: mem_slice_def)
  ultimately show ?thesis using sl by (simp add: build_auth_header_def memcpy_def)
qed

lemma c_str_slice_nul: "m = c_str m @ 0 # rest \<Longrightarrow> mem_slice m 0 (length (c_str m) + 1) = Some (c_str m @ [0])"
proof -
  have "mem_slice (s @ 0 # rest) 0 (length s + 1) = Some (s @ [0])" for s :: "u8 list" by (simp add: mem_slice_def)
  then show "m = c_str m @ 0 # rest \<Longrightarrow> ?thesis" by metis
qed

text \<open>
  What libcurl takes a run of options to mean: of several settings of one option the last counts. The
  value an option has is read off the list of settings, whatever its order.
\<close>

definition last_set :: "(curl_option \<Rightarrow> 'a option) \<Rightarrow> curl_option list \<Rightarrow> 'a option" where
  "last_set sel opts = fold (\<lambda>opt v. case sel opt of None \<Rightarrow> v | Some x \<Rightarrow> Some x) opts None"

definition opt_url where "opt_url opt = (case opt of CURLOPT_URL u \<Rightarrow> Some u | _ \<Rightarrow> None)"
definition opt_headers where "opt_headers opt = (case opt of CURLOPT_HTTPHEADER l \<Rightarrow> Some l | _ \<Rightarrow> None)"
definition opt_connect_only where "opt_connect_only opt = (case opt of CURLOPT_CONNECT_ONLY v \<Rightarrow> Some v | _ \<Rightarrow> None)"
definition opt_connect_timeout where "opt_connect_timeout opt = (case opt of CURLOPT_CONNECTTIMEOUT_MS v \<Rightarrow> Some v | _ \<Rightarrow> None)"
definition opt_verify_peer where "opt_verify_peer opt = (case opt of CURLOPT_SSL_VERIFYPEER v \<Rightarrow> Some v | _ \<Rightarrow> None)"
definition opt_verify_host where "opt_verify_host opt = (case opt of CURLOPT_SSL_VERIFYHOST v \<Rightarrow> Some v | _ \<Rightarrow> None)"
definition opt_follow where "opt_follow opt = (case opt of CURLOPT_FOLLOWLOCATION v \<Rightarrow> Some v | _ \<Rightarrow> None)"
definition opt_post where "opt_post opt = (case opt of CURLOPT_POST v \<Rightarrow> Some v | _ \<Rightarrow> None)"
definition opt_fields where "opt_fields opt = (case opt of CURLOPT_POSTFIELDS d \<Rightarrow> Some d | _ \<Rightarrow> None)"
definition opt_field_size where "opt_field_size opt = (case opt of CURLOPT_POSTFIELDSIZE k \<Rightarrow> Some k | _ \<Rightarrow> None)"
definition opt_timeout where "opt_timeout opt = (case opt of CURLOPT_TIMEOUT_MS v \<Rightarrow> Some v | _ \<Rightarrow> None)"
definition opt_no_signal where "opt_no_signal opt = (case opt of CURLOPT_NOSIGNAL v \<Rightarrow> Some v | _ \<Rightarrow> None)"

lemmas opt_defs = last_set_def opt_url_def opt_headers_def opt_connect_only_def opt_connect_timeout_def opt_verify_peer_def
  opt_verify_host_def opt_follow_def opt_post_def opt_fields_def opt_field_size_def opt_timeout_def opt_no_signal_def

text \<open>A transfer to one address that checks the peer's certificate (1) and name (2) and follows no redirect.\<close>

definition verified_transfer :: "u8 list \<Rightarrow> curl_option list \<Rightarrow> bool" where
  "verified_transfer url opts \<longleftrightarrow> last_set opt_url opts = Some url \<and> last_set opt_verify_peer opts = Some 1 \<and>
     last_set opt_verify_host opts = Some 2 \<and> last_set opt_follow opts = Some 0"

text \<open>
  A transfer that upgrades to a WebSocket (\<^verbatim>\<open>CURLOPT_CONNECT_ONLY\<close> 2) within ten seconds, posts nothing,
  and sends the secret in its one header line.
\<close>

definition relay_connection :: "u8 list \<Rightarrow> u8 list \<Rightarrow> (net_handle \<Rightarrow> u8 list list) \<Rightarrow> curl_option list \<Rightarrow> bool" where
  "relay_connection url secret lines opts \<longleftrightarrow> verified_transfer url opts \<and>
     last_set opt_connect_only opts = Some 2 \<and> last_set opt_connect_timeout opts = Some 10000 \<and>
     last_set opt_post opts = None \<and> last_set opt_fields opts = None \<and>
     (\<exists>l. last_set opt_headers opts = Some l \<and> lines l = [c_lit ''Authorization: Bearer '' @ secret])"

lemma client_options_connection:
  "lines headers = [auth_prefix @ secret] \<Longrightarrow> relay_connection url secret lines (client_options url headers)"
  by (simp add: relay_connection_def verified_transfer_def client_options_def opt_defs auth_prefix_def)

text \<open>What an initialised client is: every resource live, the options and the header line as they must be.\<close>

definition client_prepared where
  "client_prepared live items options n0 url secret c n \<longleftrightarrow> rc_state c = PD_RELAY_CLIENT_PREPARED \<and>
     rc_easy_handle c \<noteq> 0 \<and> rc_request_headers c \<noteq> 0 \<and> rc_message_buffer c \<noteq> 0 \<and>
     live n = live n0 \<union> client_owned c \<and> live n0 \<inter> client_owned c = {} \<and>
     relay_connection url secret (items n) (options n (rc_easy_handle c)) \<and> c_str (rc_url c) = url"

definition client_init_outcome where
  "client_init_outcome api net_ok live items options url secret n0 r c n \<longleftrightarrow>
     (if \<not> url_allowed (insecure_opt_in api n0) (c_str url) then r = PD_RELAY_CLIENT_INVALID_URL \<and> c = zero_client \<and> n = n0
      else if \<not> lower_hex 64 (c_str secret) then r = PD_RELAY_CLIENT_INVALID_SECRET \<and> c = zero_client \<and> n = n0
      else if r = PD_RELAY_CLIENT_OK
      then client_inv net_ok live c n \<and> client_prepared live items options n0 (c_str url) (c_str secret) c n
      else r = PD_RELAY_CLIENT_CURL_ERROR \<and> client_owned c = {} \<and> rc_state c = PD_RELAY_CLIENT_FAILED \<and> net_ok n \<and> live n = live n0)"

context curl_net
begin

lemma slist_new:
  assumes "net_ok n"
  shows "\<exists>l n'. curl_slist_append api n 0 line = Some (l, n') \<and> net_ok n' \<and> options n' = options n \<and>
    (if l = 0 then live n' = live n \<and> items n' = items n
     else Headers l \<notin> live n \<and> live n' = insert (Headers l) (live n) \<and> items n' = (items n)(l := [line]))"
proof -
  obtain l n' where "curl_slist_append api n 0 line = Some (l, n')" "net_ok n'" "options n' = options n"
    "if l = 0 then live n' = live n \<and> items n' = items n
     else (Headers l \<notin> live n \<or> l = 0) \<and> live n' = insert (Headers l) (if (0 :: net_handle) = 0 then live n else live n - {Headers 0}) \<and>
       items n' = (items n)(l := (if (0 :: net_handle) = 0 then [] else items n 0) @ [line])"
    using slist_append [OF assms disjI1 [OF refl], of line] by blast
  then show ?thesis by (cases "l = 0") simp_all
qed

lemma client_init_spec:
  assumes "net_ok n" and "0 \<in> set url" and "0 \<in> set secret"
  shows "\<exists>r c n'. pd_win32_relay_client_init api (Some c0) (Some url) (Some secret) n = Some (r, Some c, n') \<and>
    client_init_outcome api net_ok live items options url secret n r c n'"
proof (cases "url_allowed (insecure_opt_in api n) (c_str url) \<and> lower_hex 64 (c_str secret)")
  case False
  then show ?thesis
    using url_is_allowed_eq [OF assms(2), of n] secret_is_valid_eq [OF assms(3)]
    by (cases "url_allowed (insecure_opt_in api n) (c_str url)") (simp_all add: pd_win32_relay_client_init_def client_init_outcome_def Let_def)
next
  case True
  then have checks: "pd_relay_url_is_allowed api n (Some url) = Some True" "pd_receiver_secret_is_valid (Some secret) = Some True"
    using url_is_allowed_eq [OF assms(2), of n] secret_is_valid_eq [OF assms(3)] by simp_all
  have err: ?thesis if "pd_win32_relay_client_init api (Some c0) (Some url) (Some secret) n = Some (PD_RELAY_CLIENT_CURL_ERROR, Some c, n')"
      "client_owned c = {}" "rc_state c = PD_RELAY_CLIENT_FAILED" "net_ok n'" "live n' = live n" for c n'
    using that True by (simp add: client_init_outcome_def)
  obtain p mem n1 where al: "relay_HeapAlloc api n 61440 = (p, mem, n1)" by (metis prod_cases3)
  note l1 = heap_alloc [OF assms(1) al]
  show ?thesis
  proof (cases "p = 0")
    case True
    then show ?thesis using checks al l1
      by (intro err [of "zero_client\<lparr>rc_state := PD_RELAY_CLIENT_FAILED\<rparr>" n1])
        (simp_all add: pd_win32_relay_client_init_def client_owned_def zero_client_def)
  next
    case block: False
    then have n1: "net_ok n1" "Block p \<notin> live n" "live n1 = insert (Block p) (live n)" "length mem = 61440" using l1 by simp_all
    have free: "\<exists>n'. relay_HeapFree api x p = Some n' \<and> net_ok n' \<and> live n' = live n" if "net_ok x" "live x = live n1" for x
      using heap_free [OF that(1), of p] that(2) n1 by auto
    let ?f = "zero_client\<lparr>rc_state := PD_RELAY_CLIENT_FAILED\<rparr>"
    have none: "client_owned ?f = {}" "rc_state ?f = PD_RELAY_CLIENT_FAILED" by (simp_all add: client_owned_def zero_client_def)
    have zf: "zero_client\<lparr>rc_message_buffer := 0, rc_message_memory := [], rc_state := PD_RELAY_CLIENT_FAILED\<rparr> = ?f"
      "zero_client\<lparr>rc_message_buffer := 0, rc_message_memory := [], rc_error_text := rc_error_text zero_client, rc_state := PD_RELAY_CLIENT_FAILED\<rparr> = ?f"
      by (simp_all add: zero_client_def)
    obtain e n2 where ei: "curl_easy_init api n1 = (e, n2)" by fastforce
    note l2 = easy_init [OF n1(1) ei]
    show ?thesis
    proof (cases "e = 0")
      case True
      then obtain n' where "relay_HeapFree api n2 p = Some n'" "net_ok n'" "live n' = live n" using free [of n2] l2 by auto
      then show ?thesis using checks al block ei True none zf
        by (intro err [of ?f n']) (simp_all add: pd_win32_relay_client_init_def)
    next
      case easy: False
      then have n2: "net_ok n2" "Easy e \<notin> live n1" "live n2 = insert (Easy e) (live n1)" "options n2 e = []" using l2 by simp_all
      have shut: "\<exists>n' n''. curl_easy_cleanup api x e = Some n' \<and> relay_HeapFree api n' p = Some n'' \<and> net_ok n'' \<and> live n'' = live n"
        if "net_ok x" "live x = live n2" for x
        using easy_cleanup [OF that(1), of e] free that(2) n2 by fastforce
      have auth: "build_auth_header secret = Some (auth_prefix @ c_str secret @ [0])"
        "c_str (auth_prefix @ c_str secret @ [0]) = auth_prefix @ c_str secret"
        using auth_header_eq [OF assms(3)] True auth_prefix_no_nul c_str_no_nul [of secret] c_str_terminated [of "auth_prefix @ c_str secret" "[]"]
        by (simp_all add: lower_hex_def)
      obtain l n3 where sl: "curl_slist_append api n2 0 (auth_prefix @ c_str secret) = Some (l, n3)" "net_ok n3" "options n3 = options n2"
        "if l = 0 then live n3 = live n2 \<and> items n3 = items n2
         else Headers l \<notin> live n2 \<and> live n3 = insert (Headers l) (live n2) \<and> items n3 = (items n2)(l := [auth_prefix @ c_str secret])"
        using slist_new [OF n2(1), of "auth_prefix @ c_str secret"] by blast
      show ?thesis
      proof (cases "l = 0")
        case True
        then obtain n' n'' where "curl_easy_cleanup api n3 e = Some n'" "relay_HeapFree api n' p = Some n''" "net_ok n''" "live n'' = live n"
          using shut [of n3] sl(2,4) by auto
        then show ?thesis using checks al block ei easy auth sl(1) True none zf
          by (intro err [of ?f n'']) (simp_all add: pd_win32_relay_client_init_def)
      next
        case hdr: False
        then have n3: "Headers l \<notin> live n2" "live n3 = insert (Headers l) (live n2)" "items n3 l = [auth_prefix @ c_str secret]"
          using sl(4) by simp_all
        obtain code n4 where so: "set_options api e (client_options (c_str url) l) n3 = Some (code, n4)" "net_ok n4" "live n4 = live n3"
          "items n4 = items n3" "code = CURLE_OK \<longrightarrow> options n4 e = options n3 e @ client_options (c_str url) l"
          using set_options_spec [OF sl(2), of e "client_options (c_str url) l"] n3(2) n2(3) by blast
        have wt: "wr (rc_error_text zero_client) 0 0 = Some (rc_error_text zero_client)"
          by (simp add: wr_def zero_client_def list_eq_iff_nth_eq nth_list_update)
        show ?thesis
        proof (cases "code = CURLE_OK")
          case False
          obtain n5 where f1: "curl_slist_free_all api n4 l = Some n5" "net_ok n5" "live n5 = live n2"
            using slist_free [OF so(2), of l] so(3) n3 by auto
          obtain n' n'' where "curl_easy_cleanup api n5 e = Some n'" "relay_HeapFree api n' p = Some n''" "net_ok n''" "live n'' = live n"
            using shut [OF f1(2,3)] by blast
          then show ?thesis using checks al block ei easy auth sl(1) hdr so(1) wt f1(1) False none zf
            by (intro err [of ?f n'']) (simp_all add: pd_win32_relay_client_init_def)
        next
          case ok: True
          let ?u = "c_str url @ 0 # replicate (511 - length (c_str url)) 0"
          have ul: "length (c_str url) \<le> 511" using True by (simp add: url_allowed_def)
          have "mem_slice url 0 (length (c_str url) + 1) = Some (c_str url @ [0])"
            using c_str_decomp [OF assms(2)] by (metis c_str_slice_nul)
          then have uc: "memcpy (replicate 512 0) 0 url 0 (length (c_str url) + 1) = Some ?u"
            using ul put_text [of "c_str url" "replicate 512 0" 0] by (simp add: memcpy_def)
          let ?c = "zero_client\<lparr>rc_message_buffer := p, rc_message_memory := mem, rc_url := ?u, rc_easy_handle := e,
            rc_request_headers := l, rc_state := PD_RELAY_CLIENT_PREPARED\<rparr>"
          have "pd_win32_relay_client_init api (Some c0) (Some url) (Some secret) n = Some (PD_RELAY_CLIENT_OK, Some ?c, n4)"
            using checks al block ei easy auth sl(1) hdr so(1) wt ok assms(2) uc
            by (simp add: pd_win32_relay_client_init_def strlen_def zero_client_def)
          moreover have "client_inv net_ok live ?c n4"
            using so(2,3) n3(2) n2(3) n1(3,4) ul by (simp add: client_inv_def zero_client_def)
          moreover have "client_prepared live items options n (c_str url) (c_str secret) ?c n4"
            using so ok n3 n2 n1 easy block hdr sl(3) c_str_no_nul [of url]
            client_options_connection [of "items n4" l "c_str secret" "c_str url"]
            by (auto simp: client_prepared_def client_owned_def)
          ultimately show ?thesis using True by (simp add: client_init_outcome_def)
        qed
      qed
    qed
  qed
qed

end

context curl_net
begin

lemma connect_spec:
  assumes "client_inv net_ok live c n"
  shows "\<exists>r c' n'. pd_win32_relay_client_connect api (Some c) n = Some (r, Some c', n') \<and> same_client c c' \<and> net_ok n' \<and>
    (live n', items n', options n') = (live n, items n, options n) \<and>
    (r = PD_RELAY_CLIENT_OK \<longrightarrow> rc_state c = PD_RELAY_CLIENT_PREPARED \<and> rc_state c' = PD_RELAY_CLIENT_CONNECTED \<and>
       rc_easy_handle c \<noteq> 0 \<and> \<not> in_part n' (rc_easy_handle c))"
proof (cases "rc_easy_handle c = 0 \<or> rc_state c \<noteq> PD_RELAY_CLIENT_PREPARED")
  case True
  then show ?thesis using assms by (auto simp: pd_win32_relay_client_connect_def client_inv_def)
next
  case False
  have i: "net_ok n" "Easy (rc_easy_handle c) \<in> live n" "length (rc_error_text c) = 256"
    using assms False by (auto simp: client_inv_def)
  have w: "wr (rc_error_text c) 0 0 = Some ((rc_error_text c)[0 := 0])" using i(3) by (simp add: wr_def)
  obtain code n1 where p: "curl_easy_perform api n (rc_easy_handle c) = Some (code, n1)" "net_ok n1"
    "(live n1, items n1, options n1) = (live n, items n, options n)" "\<not> in_part n1 (rc_easy_handle c)"
    using perform [OF i(1,2)] by blast
  let ?c = "c\<lparr>rc_error_text := (rc_error_text c)[0 := 0]\<rparr>"
  obtain r c' where f: "pd_relay_curl_failure ?c code = (r, c')" by fastforce
  have same: "same_client c ?c" by (simp add: same_client_def)
  then have "same_client c c' \<and> r \<noteq> PD_RELAY_CLIENT_OK" using curl_failure_same [OF f] by (auto simp: same_client_def)
  then show ?thesis using False w p f same
    by (cases "code = CURLE_OK") (auto simp: pd_win32_relay_client_connect_def)
qed

lemma client_zero:
  "rc_request_headers c = 0 \<Longrightarrow> c\<lparr>rc_request_headers := 0\<rparr> = c" "rc_easy_handle c = 0 \<Longrightarrow> c\<lparr>rc_easy_handle := 0\<rparr> = c"
  "rc_message_buffer c = 0 \<Longrightarrow> c\<lparr>rc_message_buffer := 0, rc_message_memory := rc_message_memory c\<rparr> = c"
  by (cases c; simp)+

lemma cleanup_spec:
  assumes "client_inv net_ok live c n"
  shows "\<exists>c' n'. pd_win32_relay_client_cleanup api (Some c) n = Some (Some c', n') \<and> net_ok n' \<and>
    live n' = live n - client_owned c \<and> client_owned c' = {} \<and> rc_state c' = PD_RELAY_CLIENT_CLOSED \<and> rc_url c' = replicate 512 0"
proof -
  let ?e = "rc_easy_handle c" and ?l = "rc_request_headers c" and ?p = "rc_message_buffer c"
  obtain n1 where s: "(if rc_state c = PD_RELAY_CLIENT_CONNECTED \<and> ?e \<noteq> 0
      then do { (_, _, n) \<leftarrow> curl_ws_send api n ?e [] CURLWS_CLOSE; Some n } else Some n) = Some n1" "net_ok n1" "live n1 = live n"
    using ws_send [of n ?e "[]" CURLWS_CLOSE] assms by (cases "rc_state c = PD_RELAY_CLIENT_CONNECTED \<and> ?e \<noteq> 0") (auto simp: client_inv_def)
  let ?c2 = "c\<lparr>rc_request_headers := 0\<rparr>"
  obtain n2 where h: "(if ?l \<noteq> 0 then do { n \<leftarrow> curl_slist_free_all api n1 ?l; Some (?c2, n) } else Some (c, n1)) = Some (?c2, n2)" "net_ok n2"
    "live n2 = live n - (if ?l = 0 then {} else {Headers ?l})"
  proof (cases "?l = 0")
    case True
    then show ?thesis using that [of n1] s client_zero(1) [OF True] by simp
  next
    case False
    then obtain n' where "curl_slist_free_all api n1 ?l = Some n'" "net_ok n'" "live n' = live n1 - {Headers ?l}"
      using slist_free [OF s(2), of ?l] s(3) assms by (auto simp: client_inv_def)
    then show ?thesis using that [of n'] s(3) False by simp
  qed
  let ?c3 = "?c2\<lparr>rc_easy_handle := 0\<rparr>"
  obtain n3 where z: "(if rc_easy_handle ?c2 \<noteq> 0 then do { n \<leftarrow> curl_easy_cleanup api n2 (rc_easy_handle ?c2); Some (?c3, n) } else Some (?c2, n2)) = Some (?c3, n3)"
    "net_ok n3" "live n3 = live n2 - (if ?e = 0 then {} else {Easy ?e})"
  proof (cases "?e = 0")
    case True
    then show ?thesis using that [of n2] h client_zero(2) [of ?c2] by simp
  next
    case False
    then have "Easy ?e \<in> live n2" using h(3) assms by (simp add: client_inv_def)
    then obtain n' where "curl_easy_cleanup api n2 ?e = Some n'" "net_ok n'" "live n' = live n2 - {Easy ?e}"
      using easy_cleanup [OF h(2)] by blast
    then show ?thesis using that [of n'] False by simp
  qed
  let ?m = "if ?p = 0 then rc_message_memory c else []"
  obtain n4 where b: "(if rc_message_buffer ?c3 \<noteq> 0
      then do { n \<leftarrow> relay_HeapFree api n3 (rc_message_buffer ?c3); Some (?c3\<lparr>rc_message_buffer := 0, rc_message_memory := []\<rparr>, n) }
      else Some (?c3, n3)) = Some (?c3\<lparr>rc_message_buffer := 0, rc_message_memory := ?m\<rparr>, n4)" "net_ok n4"
    "live n4 = live n3 - (if ?p = 0 then {} else {Block ?p})"
  proof (cases "?p = 0")
    case True
    then show ?thesis using that [of n3] z client_zero(3) [of ?c3] by simp
  next
    case False
    then have "Block ?p \<in> live n3" using h(3) z(3) assms by (simp add: client_inv_def)
    then obtain n' where "relay_HeapFree api n3 ?p = Some n'" "net_ok n'" "live n' = live n3 - {Block ?p}"
      using heap_free [OF z(2)] by blast
    then show ?thesis using that [of n'] False by simp
  qed
  let ?c = "?c3\<lparr>rc_message_buffer := 0, rc_message_memory := ?m, rc_url := replicate 512 0, rc_state := PD_RELAY_CLIENT_CLOSED\<rparr>"
  have "length (rc_url c) = 512" using assms by (simp add: client_inv_def)
  then have "pd_win32_relay_client_cleanup api (Some c) n = Some (Some ?c, n4)"
    unfolding pd_win32_relay_client_cleanup_def option.case s(1) bind.bind_lunit h(1) prod.case z(1) b(1) by simp
  moreover have "live n4 = live n - client_owned c" using h(3) z(3) b(3) by (auto simp: client_owned_def)
  ultimately show ?thesis using b(2) by (simp add: client_owned_def)
qed

end

section \<open>A network in memory\<close>

text \<open>A connection that delivers a list of frames, each in one piece, and accepts everything sent.\<close>

record mem_net =
  mn_frames :: "u8 list list"
  mn_out :: "u8 list"
  mn_easy :: bool
  mn_headers :: bool
  mn_block :: bool
  mn_items :: "u8 list list"
  mn_options :: "curl_option list"
  mn_requests :: "(curl_option list \<times> u8 list list) list"

definition mn_live :: "mem_net \<Rightarrow> net_resource set" where
  "mn_live n = (if mn_easy n then {Easy 1} else {}) \<union> (if mn_headers n then {Headers 1} else {}) \<union> (if mn_block n then {Block 1} else {})"

definition at_one :: "'a \<Rightarrow> 'a \<Rightarrow> net_handle \<Rightarrow> 'a" where
  "at_one d x h = (if h = 1 then x else d)"

definition mem_curl :: "mem_net curl_api" where
  "mem_curl = \<lparr>
     curl_global_init = \<lambda>n. (CURLE_OK, n),
     curl_global_cleanup = \<lambda>n. n,
     curl_easy_init = \<lambda>n. if mn_easy n then (0, n) else (1, n\<lparr>mn_easy := True, mn_options := []\<rparr>),
     curl_easy_cleanup = \<lambda>n h. if h = 1 \<and> mn_easy n then Some (n\<lparr>mn_easy := False\<rparr>) else None,
     curl_easy_setopt = \<lambda>n h opt. if h = 1 \<and> mn_easy n then Some (CURLE_OK, n\<lparr>mn_options := mn_options n @ [opt]\<rparr>) else None,
     curl_easy_perform = \<lambda>n h. if h = 1 \<and> mn_easy n
       then Some (CURLE_OK, n\<lparr>mn_requests := mn_requests n @ [(mn_options n,
         case last_set opt_headers (mn_options n) of None \<Rightarrow> [] | Some l \<Rightarrow> at_one [] (mn_items n) l)]\<rparr>) else None,
     curl_easy_active_socket = \<lambda>n h. if h = 1 \<and> mn_easy n then Some (CURLE_OK, 5, n) else None,
     curl_easy_response_code = \<lambda>n h. if h = 1 \<and> mn_easy n then Some (CURLE_OK, 201, n) else None,
     curl_error_buffer = \<lambda>n h. replicate 256 0,
     curl_easy_strerror = \<lambda>code. [0],
     curl_slist_append = \<lambda>n l line.
       if l = 1 \<and> mn_headers n then Some (1, n\<lparr>mn_items := mn_items n @ [line]\<rparr>)
       else if mn_headers n then Some (0, n)
       else Some (1, n\<lparr>mn_headers := True, mn_items := [line]\<rparr>),
     curl_slist_free_all = \<lambda>n l. if l = 1 \<and> mn_headers n then Some (n\<lparr>mn_headers := False\<rparr>) else None,
     curl_ws_send = \<lambda>n h d flags. if h = 1 \<and> mn_easy n then Some (CURLE_OK, length d, n\<lparr>mn_out := mn_out n @ d\<rparr>) else None,
     curl_ws_recv = \<lambda>n h cap. if h = 1 \<and> mn_easy n
       then Some (case mn_frames n of
         [] \<Rightarrow> (CURLE_GOT_NOTHING, [], None, n)
       | f # fs \<Rightarrow> if length f \<le> cap then (CURLE_OK, f, Some \<lparr>wf_flags = CURLWS_BINARY, wf_bytesleft = 0\<rparr>, n\<lparr>mn_frames := fs\<rparr>)
           else (CURLE_GOT_NOTHING, [], None, n))
       else None,
     select_socket = \<lambda>n s w t. (1, n),
     GetEnvironmentVariableA = \<lambda>n name. (0, [0, 0]),
     relay_HeapAlloc = \<lambda>n k. if mn_block n then (0, [], n) else (1, replicate k 0, n\<lparr>mn_block := True\<rparr>),
     relay_HeapFree = \<lambda>n p. if p = 1 \<and> mn_block n then Some (n\<lparr>mn_block := False\<rparr>) else None\<rparr>"

lemma mem_chunk_data: "ws_data \<lparr>wf_flags = CURLWS_BINARY, wf_bytesleft = 0\<rparr>"
  by (simp add: ws_data_def ws_control_def ws_flags)

lemma mem_live_iff [simp]:
  "Easy h \<in> mn_live n \<longleftrightarrow> h = 1 \<and> mn_easy n" "Headers h \<in> mn_live n \<longleftrightarrow> h = 1 \<and> mn_headers n"
  "Block h \<in> mn_live n \<longleftrightarrow> h = 1 \<and> mn_block n"
  by (auto simp: mn_live_def)

lemma mem_live_update:
  "mn_live (n\<lparr>mn_easy := False\<rparr>) = mn_live n - {Easy 1}" "mn_live (n\<lparr>mn_headers := False\<rparr>) = mn_live n - {Headers 1}"
  "mn_live (n\<lparr>mn_block := False\<rparr>) = mn_live n - {Block 1}"
  "mn_live (n\<lparr>mn_easy := True\<rparr>) = insert (Easy 1) (mn_live n)" "mn_live (n\<lparr>mn_headers := True\<rparr>) = insert (Headers 1) (mn_live n)"
  "mn_live (n\<lparr>mn_block := True\<rparr>) = insert (Block 1) (mn_live n)"
  by (auto simp: mn_live_def)

lemma mem_live_same [simp]:
  "mn_live (n\<lparr>mn_options := os\<rparr>) = mn_live n" "mn_live (n\<lparr>mn_items := is\<rparr>) = mn_live n"
  "mn_live (n\<lparr>mn_out := d\<rparr>) = mn_live n" "mn_live (n\<lparr>mn_frames := fs\<rparr>) = mn_live n"
  "mn_live (n\<lparr>mn_requests := rs\<rparr>) = mn_live n"
  by (simp_all add: mn_live_def)

lemmas mem_net_laws = mem_curl_def mem_live_update at_one_def curl_codes mem_chunk_data fun_eq_iff insert_absorb

interpretation mem_relay: curl_finite mem_curl "\<lambda>_. True" mn_live "\<lambda>n. at_one [] (mn_items n)" "\<lambda>n. at_one [] (mn_options n)"
  "\<lambda>n. at_one [] (mn_out n)" "\<lambda>n. at_one [] (concat (mn_frames n))" "\<lambda>n. at_one False False" "\<lambda>n. length (mn_frames n)"
  by unfold_locales (auto simp: mem_net_laws split: if_splits list.splits)

section \<open>The correctness of the client\<close>

definition idle_net :: "u8 list list \<Rightarrow> mem_net" where
  "idle_net fs = \<lparr>mn_frames = fs, mn_out = [], mn_easy = False, mn_headers = False, mn_block = False, mn_items = [], mn_options = [],
     mn_requests = []\<rparr>"

definition joined_net :: "u8 list list \<Rightarrow> mem_net" where
  "joined_net fs = (idle_net fs)\<lparr>mn_easy := True, mn_headers := True, mn_block := True\<rparr>"

definition joined_client :: pd_win32_relay_client where
  "joined_client = zero_client\<lparr>rc_easy_handle := 1, rc_request_headers := 1, rc_message_buffer := 1,
     rc_message_memory := replicate 61440 0, rc_state := PD_RELAY_CLIENT_CONNECTED\<rparr>"

lemma joined_inv: "client_inv (\<lambda>_. True) mn_live joined_client (joined_net fs)" "rc_easy_handle joined_client = 1" "rc_message_buffer joined_client = 1"
  by (simp_all add: client_inv_def joined_client_def joined_net_def zero_client_def)

text \<open>C14: Initialising a relay client always returns. It succeeds only for a \<^verbatim>\<open>wss\<close> address, or a \<^verbatim>\<open>ws\<close> address when
  the environment opts in, and a secret of 64 lower-case hexadecimal digits; the transfer is then set to
  this address, with \<^verbatim>\<open>CURLOPT_SSL_VERIFYPEER\<close> 1 and \<^verbatim>\<open>CURLOPT_SSL_VERIFYHOST\<close> 2, with redirects off, as a
  WebSocket upgrade with a connection timeout of ten seconds, and with the one header line that carries
  the secret. On every failure all that was acquired has been released.\<close>

theorem relay_client_init_secure:
  assumes "curl_net api net_ok live items options outgoing inbox in_part" and "net_ok n" and "0 \<in> set url" and "0 \<in> set secret"
  shows "\<exists>r c n'. pd_win32_relay_client_init api (Some c0) (Some url) (Some secret) n = Some (r, Some c, n') \<and>
    client_init_outcome api net_ok live items options url secret n r c n'"
  using assms by (rule curl_net.client_init_spec)

theorem relay_client_init_secure_witness:
  "\<exists>r c n'. pd_win32_relay_client_init mem_curl (Some zero_client) (Some (c_lit ''wss://r.io/x'' @ [0])) (Some (replicate 64 97 @ [0])) (idle_net []) =
      Some (r, Some c, n') \<and>
    client_init_outcome mem_curl (\<lambda>_. True) mn_live (\<lambda>n. at_one [] (mn_items n)) (\<lambda>n. at_one [] (mn_options n))
      (c_lit ''wss://r.io/x'' @ [0]) (replicate 64 97 @ [0]) (idle_net []) r c n'"
  by (rule relay_client_init_secure [OF mem_relay.curl_net_axioms]) simp_all

text \<open>C10: Sending a frame on a connection that carries finitely many events always returns. If it reports
  success, exactly the header and the payload have been handed over, after everything sent before;
  the resources of the client are unchanged in every case.\<close>

theorem relay_send_exact:
  assumes "curl_finite api net_ok live items options outgoing inbox in_part patience"
    and "client_inv net_ok live c n" and "rc_easy_handle c \<noteq> 0" and "rc_message_buffer c \<noteq> 0" and "k \<le> length d"
  shows "\<exists>r c' n'. pd_win32_relay_client_send_frame api (Some c) (Some h) (Some d) k n = Some (r, Some c', n') \<and>
    same_client c c' \<and> net_ok n' \<and> live n' = live n \<and>
    (r = PD_RELAY_CLIENT_OK \<longrightarrow> outgoing n' (rc_easy_handle c) = outgoing n (rc_easy_handle c) @ frame_wire h @ take k d)"
  using curl_finite.send_frame_spec [OF assms(1) conjI [OF assms(2) conjI [OF assms(3,4)]] assms(5), of h] by auto

theorem relay_send_exact_witness:
  "\<exists>r c' n'. pd_win32_relay_client_send_frame mem_curl (Some joined_client)
      (Some \<lparr>fh_type = 4, fh_flags = 0, fh_payload_length = 2\<rparr>) (Some [8, 9]) 2 (joined_net []) = Some (r, Some c', n') \<and>
    same_client joined_client c' \<and> True \<and> mn_live n' = mn_live (joined_net []) \<and>
    (r = PD_RELAY_CLIENT_OK \<longrightarrow> at_one [] (mn_out n') (rc_easy_handle joined_client) =
       at_one [] (mn_out (joined_net [])) (rc_easy_handle joined_client) @
       frame_wire \<lparr>fh_type = 4, fh_flags = 0, fh_payload_length = 2\<rparr> @ take 2 [8, 9])"
  by (rule relay_send_exact [OF mem_relay.curl_finite_axioms joined_inv(1)]) (simp_all add: joined_inv)

text \<open>C9: Receiving on a connection that carries finitely many events always returns and never writes outside
  the message buffer, however the peer splits its messages and whatever control frames it sends. If it
  reports a frame and no message was left half delivered before, that frame is valid and its header and
  payload are exactly the next bytes of the stream.\<close>

theorem relay_receive_exact:
  assumes "curl_finite api net_ok live items options outgoing inbox in_part patience"
    and "client_inv net_ok live c n" and "rc_easy_handle c \<noteq> 0" and "rc_message_buffer c \<noteq> 0"
    and "\<not> in_part n (rc_easy_handle c)"
  shows "\<exists>r c' v' n'. pd_win32_relay_client_receive_frame api (Some c) (Some v) n = Some (r, Some c', Some v', n') \<and>
    same_client c c' \<and> net_ok n' \<and> live n' = live n \<and>
    (r = PD_RELAY_CLIENT_OK \<longrightarrow> relay_frame_valid (rv_header v') (view_payload v') \<and>
       inbox n (rc_easy_handle c) = frame_wire (rv_header v') @ view_payload v' @ inbox n' (rc_easy_handle c) \<and>
       \<not> in_part n' (rc_easy_handle c))"
  using curl_finite.receive_frame_spec [OF assms(1) conjI [OF assms(2) conjI [OF assms(3,4)]], of v] assms(5)
  by (auto simp: curl_finite.received_frame_def [OF assms(1)])

theorem relay_receive_exact_witness:
  "\<exists>r c' v' n'. pd_win32_relay_client_receive_frame mem_curl (Some joined_client)
      (Some \<lparr>rv_header = pd_frame_header_zero, rv_payload = None, rv_payload_size = 0\<rparr>) (joined_net [replicate 20 7]) =
      Some (r, Some c', Some v', n') \<and>
    same_client joined_client c' \<and> True \<and> mn_live n' = mn_live (joined_net [replicate 20 7]) \<and>
    (r = PD_RELAY_CLIENT_OK \<longrightarrow> relay_frame_valid (rv_header v') (view_payload v') \<and>
       at_one [] (concat (mn_frames (joined_net [replicate 20 7]))) (rc_easy_handle joined_client) =
         frame_wire (rv_header v') @ view_payload v' @ at_one [] (concat (mn_frames n')) (rc_easy_handle joined_client) \<and>
       \<not> at_one False False (rc_easy_handle joined_client))"
  by (rule relay_receive_exact [OF mem_relay.curl_finite_axioms joined_inv(1)]) (simp_all add: joined_inv at_one_def)

section \<open>A message interrupted by a timeout\<close>

text \<open>A connection that plays back the results of \<^verbatim>\<open>curl_ws_recv\<close> and on which waiting times out.\<close>

type_synonym playback = "(CURLcode \<times> u8 list \<times> curl_ws_frame option) list"

definition stalling_curl :: "playback curl_api" where
  "stalling_curl = \<lparr>
     curl_global_init = \<lambda>n. (CURLE_OK, n), curl_global_cleanup = \<lambda>n. n, curl_easy_init = \<lambda>n. (1, n),
     curl_easy_cleanup = \<lambda>n h. Some n, curl_easy_setopt = \<lambda>n h opt. Some (CURLE_OK, n), curl_easy_perform = \<lambda>n h. Some (CURLE_OK, n),
     curl_easy_active_socket = \<lambda>n h. Some (CURLE_OK, 5, n), curl_easy_response_code = \<lambda>n h. Some (CURLE_OK, 201, n),
     curl_error_buffer = \<lambda>n h. replicate 256 0, curl_easy_strerror = \<lambda>code. [0],
     curl_slist_append = \<lambda>n l line. Some (1, n), curl_slist_free_all = \<lambda>n l. Some n,
     curl_ws_send = \<lambda>n h d flags. Some (CURLE_OK, length d, n),
     curl_ws_recv = \<lambda>n h cap. Some (case n of [] \<Rightarrow> (CURLE_GOT_NOTHING, [], None, []) | (code, d, m) # rest \<Rightarrow> (code, d, m, rest)),
     select_socket = \<lambda>n s w t. (0, n), GetEnvironmentVariableA = \<lambda>n name. (0, [0, 0]),
     relay_HeapAlloc = \<lambda>n k. (1, replicate k 0, n), relay_HeapFree = \<lambda>n p. Some n\<rparr>"

text \<open>
  A frame that arrives in two pieces with a pause of more than the timeout between them: the first call
  reports the timeout and keeps the connection, but the next call starts again at the front of the
  buffer, takes the second piece for a whole message and fails, so the frame is lost.
\<close>

lemma timeout_loses_message:
  assumes "length (rc_message_memory c) = 61440" and "rc_state c = PD_RELAY_CLIENT_CONNECTED"
    and "rc_easy_handle c \<noteq> 0" and "rc_message_buffer c \<noteq> 0"
    and "length rest = 7" and "length start = 5"
  shows "\<exists>c1 c2. pd_win32_relay_client_receive_frame stalling_curl (Some c) (Some v)
      [(CURLE_OK, start, Some \<lparr>wf_flags = CURLWS_BINARY, wf_bytesleft = 7\<rparr>), (CURLE_AGAIN, [], None),
       (CURLE_OK, rest, Some \<lparr>wf_flags = CURLWS_BINARY, wf_bytesleft = 0\<rparr>)] =
      Some (PD_RELAY_CLIENT_TIMEOUT, Some c1, Some v, [(CURLE_OK, rest, Some \<lparr>wf_flags = CURLWS_BINARY, wf_bytesleft = 0\<rparr>)]) \<and>
    pd_win32_relay_client_receive_frame stalling_curl (Some c1) (Some v)
      [(CURLE_OK, rest, Some \<lparr>wf_flags = CURLWS_BINARY, wf_bytesleft = 0\<rparr>)] =
      Some (PD_RELAY_CLIENT_PROTOCOL_ERROR, Some c2, Some v, [])"
proof -
  let ?m1 = "start @ drop 5 (rc_message_memory c)"
  let ?c1 = "c\<lparr>rc_message_memory := ?m1\<rparr>"
  let ?m2 = "rest @ drop 7 ?m1"
  have p1: "put (rc_message_memory c) 0 start = Some ?m1" "put ?m1 5 [] = Some ?m1" "put ?m1 0 rest = Some ?m2"
    using assms by (simp_all add: put_def)
  have wt: "pd_relay_wait_socket stalling_curl x False n = Some (PD_RELAY_CLIENT_TIMEOUT, n)" for x n
    by (simp add: pd_relay_wait_socket_def stalling_curl_def curl_codes CURL_SOCKET_BAD_def Let_def)
  have s1: "receive_step stalling_curl v (c, 0, (CURLE_OK, start, Some \<lparr>wf_flags = CURLWS_BINARY, wf_bytesleft = 7\<rparr>) # n) = Some (Inr (?c1, 5, n))" for n
    using p1 assms(6) by (simp add: receive_step_def stalling_curl_def curl_codes ws_flags Let_def)
  have s2: "receive_step stalling_curl v (?c1, 5, (CURLE_AGAIN, [], None) # n) =
      Some (Inl (PD_RELAY_CLIENT_TIMEOUT, ?c1\<lparr>rc_state := PD_RELAY_CLIENT_CONNECTED\<rparr>, v, n))" for n
    using p1 wt by (simp add: receive_step_def stalling_curl_def curl_codes after_wait_def)
  have s3: "receive_step stalling_curl v (?c1\<lparr>rc_state := PD_RELAY_CLIENT_CONNECTED\<rparr>, 0, (CURLE_OK, rest, Some \<lparr>wf_flags = CURLWS_BINARY, wf_bytesleft = 0\<rparr>) # n) =
      Some (Inl (PD_RELAY_CLIENT_PROTOCOL_ERROR, ?c1\<lparr>rc_message_memory := ?m2, rc_state := PD_RELAY_CLIENT_FAILED\<rparr>, v, n))" for n
    using p1(3) assms(5) by (simp add: receive_step_def stalling_curl_def curl_codes ws_flags Let_def pd_relay_message_decode_def)
  show ?thesis
    using assms(2-4) s1 s2 s3 by (simp add: pd_win32_relay_client_receive_frame_def iterate.simps)
qed

end
