(* ===== verification/PD_Win32Registration.thy ===== *)
theory PD_Win32Registration
  imports PD_Win32RelayClient PD_Session
begin

text \<open>
  The registration of a session at the relay (\<^verbatim>\<open>win32_relay_registration.c\<close>): one HTTP POST that
  carries the session identifier in its body and the receiver's secret in a header line.

  It uses the calls of the record \<open>curl_api\<close> and the contract \<open>curl_net\<close> of the relay client, extended by
  \<open>curl_requests\<close>: a log of the transfers that were performed, each with its settings and header lines. The
  routine is modelled with the final contents of its local arrays \<^verbatim>\<open>auth_header\<close> and \<^verbatim>\<open>curl_error\<close> as part
  of its result, so that their erasure on every path is a statement about it.
\<close>

section \<open>Data and helpers\<close>

datatype pd_win32_relay_registration_result =
    PD_WIN32_RELAY_REGISTRATION_OK
  | PD_WIN32_RELAY_REGISTRATION_INVALID_ARGUMENT
  | PD_WIN32_RELAY_REGISTRATION_INVALID_REQUEST
  | PD_WIN32_RELAY_REGISTRATION_AUTH_REJECTED
  | PD_WIN32_RELAY_REGISTRATION_CONFLICT
  | PD_WIN32_RELAY_REGISTRATION_HTTP_ERROR
  | PD_WIN32_RELAY_REGISTRATION_CURL_ERROR

definition PD_AUTH_PREFIX :: "u8 list" where
  "PD_AUTH_PREFIX = c_lit ''Authorization: Bearer ''"

definition CURL_ERROR_SIZE :: nat where "CURL_ERROR_SIZE = 256"

definition PD_AUTH_HEADER_CAPACITY :: nat where
  "PD_AUTH_HEADER_CAPACITY = length PD_AUTH_PREFIX + PD_RECEIVER_SECRET_HEX_CHARS + 1"

definition content_type :: "u8 list" where
  "content_type = c_lit ''Content-Type: application/json''"

definition pd_secret_is_lower_hex :: "u8 list option \<Rightarrow> bool option" where
  "pd_secret_is_lower_hex value =
     (case value of
        None \<Rightarrow> Some False
      | Some v \<Rightarrow> do {
          n \<leftarrow> strlen v;
          if n \<noteq> PD_RECEIVER_SECRET_HEX_CHARS then Some False
          else do {
            r \<leftarrow> for_ret 0 PD_RECEIVER_SECRET_HEX_CHARS (\<lambda>index u. do {
                   character \<leftarrow> rd v index;
                   if \<not> ((48 \<le> character \<and> character \<le> 57) \<or> (97 \<le> character \<and> character \<le> 102))
                   then Some (Inl False) else Some (Inr ()) }) ();
            Some (case r of Inl b \<Rightarrow> b | Inr _ \<Rightarrow> True) } })"

definition pd_base_url_requires_insecure_opt_in :: "u8 list option \<Rightarrow> bool option" where
  "pd_base_url_requires_insecure_opt_in base_url =
     (case base_url of
        None \<Rightarrow> Some False
      | Some b \<Rightarrow> do {
          length0 \<leftarrow> strlen b;
          c_and (Some (length http_prefix < length0)) (memcmp_eq b http_prefix (length http_prefix)) })"

text \<open>The write callback given to libcurl; \<^verbatim>\<open>size_t\<close> has 64 bits on the receiver's platform.\<close>

definition pd_discard_response :: "u64 \<Rightarrow> u64 \<Rightarrow> u64" where
  "pd_discard_response msize count = (if msize \<noteq> 0 \<and> - 1 div msize < count then 0 else msize * count)"

definition pd_copy_error :: "u8 list option \<Rightarrow> nat \<Rightarrow> u8 list option \<Rightarrow> u8 list option option" where
  "pd_copy_error destination destination_capacity source =
     (case destination of
        None \<Rightarrow> Some None
      | Some d \<Rightarrow>
          if destination_capacity = 0 then Some destination
          else do {
            d \<leftarrow> wr d 0 0;
            case source of
              None \<Rightarrow> Some (Some d)
            | Some src \<Rightarrow> do {
                source_length \<leftarrow> strlen src;
                let copy_length = (if source_length < destination_capacity - 1 then source_length else destination_capacity - 1);
                d \<leftarrow> (if copy_length \<noteq> 0 then memcpy d 0 src 0 copy_length else Some d);
                d \<leftarrow> wr d copy_length 0;
                Some (Some d) } })"

section \<open>Registering a session\<close>

definition registration_options :: "u8 list \<Rightarrow> net_handle \<Rightarrow> u8 list \<Rightarrow> nat \<Rightarrow> curl_option list" where
  "registration_options endpoint headers body body_size =
     [CURLOPT_ERRORBUFFER, CURLOPT_URL endpoint, CURLOPT_HTTPHEADER headers, CURLOPT_POST 1, CURLOPT_POSTFIELDS body,
      CURLOPT_POSTFIELDSIZE (int body_size), CURLOPT_WRITEFUNCTION, CURLOPT_CONNECTTIMEOUT_MS 10000, CURLOPT_TIMEOUT_MS 15000,
      CURLOPT_SSL_VERIFYPEER 1, CURLOPT_SSL_VERIFYHOST 2, CURLOPT_FOLLOWLOCATION 0, CURLOPT_NOSIGNAL 1]"

definition registration_auth_header :: "u8 list \<Rightarrow> u8 list option" where
  "registration_auth_header receiver_secret = do {
     let auth_header = replicate PD_AUTH_HEADER_CAPACITY 0;
     auth_header \<leftarrow> memcpy auth_header 0 PD_AUTH_PREFIX 0 (length PD_AUTH_PREFIX);
     auth_header \<leftarrow> memcpy auth_header (length PD_AUTH_PREFIX) receiver_secret 0 PD_RECEIVER_SECRET_HEX_CHARS;
     wr auth_header (length PD_AUTH_PREFIX + PD_RECEIVER_SECRET_HEX_CHARS) 0 }"

text \<open>The two header lines; 0 stands for \<^verbatim>\<open>NULL\<close>.\<close>

definition registration_headers :: "'n curl_api \<Rightarrow> u8 list \<Rightarrow> 'n \<Rightarrow> (net_handle \<times> 'n) option" where
  "registration_headers api auth_header n = do {
     (headers, n) \<leftarrow> curl_slist_append api n 0 content_type;
     if headers \<noteq> 0
     then do {
       (updated, n) \<leftarrow> curl_slist_append api n headers (c_str auth_header);
       if updated = 0
       then do { n \<leftarrow> curl_slist_free_all api n headers; Some (0, n) }
       else Some (updated, n) }
     else Some (headers, n) }"

definition response_result :: "int \<Rightarrow> pd_win32_relay_registration_result" where
  "response_result response_code =
     (if response_code = 200 \<or> response_code = 201 then PD_WIN32_RELAY_REGISTRATION_OK
      else if response_code = 401 \<or> response_code = 403 then PD_WIN32_RELAY_REGISTRATION_AUTH_REJECTED
      else if response_code = 409 then PD_WIN32_RELAY_REGISTRATION_CONFLICT
      else PD_WIN32_RELAY_REGISTRATION_HTTP_ERROR)"

text \<open>From setting the options to classifying the answer, before the clean-up label.\<close>

definition registration_exchange ::
  "'n curl_api \<Rightarrow> net_handle \<Rightarrow> curl_option list \<Rightarrow> u8 list option \<Rightarrow> nat \<Rightarrow> 'n \<Rightarrow>
   (pd_win32_relay_registration_result \<times> u8 list option \<times> 'n) option" where
  "registration_exchange api easy opts error_text error_capacity n = do {
     (code, n) \<leftarrow> set_options api easy opts n;
     (code, n) \<leftarrow> (if code = CURLE_OK then curl_easy_perform api n easy else Some (code, n));
     if code \<noteq> CURLE_OK
     then do {
       let curl_error = curl_error_buffer api n easy;
       first \<leftarrow> rd curl_error 0;
       error_text \<leftarrow> pd_copy_error error_text error_capacity
         (Some (if first \<noteq> 0 then curl_error else curl_easy_strerror api code));
       Some (PD_WIN32_RELAY_REGISTRATION_CURL_ERROR, error_text, n) }
     else do {
       (code, response_code, n) \<leftarrow> curl_easy_response_code api n easy;
       if code \<noteq> CURLE_OK
       then do {
         error_text \<leftarrow> pd_copy_error error_text error_capacity (Some (curl_easy_strerror api code));
         Some (PD_WIN32_RELAY_REGISTRATION_CURL_ERROR, error_text, n) }
       else Some (response_result response_code, error_text, n) } }"

text \<open>
  The result, the error text, the final contents of the local arrays \<^verbatim>\<open>auth_header\<close> and \<^verbatim>\<open>curl_error\<close> if
  they were filled, the network. libcurl writes to \<^verbatim>\<open>curl_error\<close> once it is registered as the error buffer of
  the transfer; before, it holds zeros.
\<close>

definition pd_win32_relay_register_session ::
  "'n curl_api \<Rightarrow> u8 list option \<Rightarrow> u8 list option \<Rightarrow> u8 list option \<Rightarrow> u8 list option \<Rightarrow> nat \<Rightarrow> 'n \<Rightarrow>
   (pd_win32_relay_registration_result \<times> u8 list option \<times> (u8 list option \<times> u8 list option) option \<times> 'n) option" where
  "pd_win32_relay_register_session api https_base_url session_id receiver_secret error_text error_capacity n = do {
     error_text \<leftarrow> (case error_text of
         Some e \<Rightarrow> if 0 < error_capacity then do { e \<leftarrow> wr e 0 0; Some (Some e) } else Some error_text
       | None \<Rightarrow> Some None);
     case (https_base_url, session_id, receiver_secret) of
       (Some _, Some _, Some secret) \<Rightarrow> do {
         insecure \<leftarrow> c_and (pd_base_url_requires_insecure_opt_in https_base_url)
           (do { b \<leftarrow> pd_insecure_http_enabled api n; Some (\<not> b) });
         if insecure then Some (PD_WIN32_RELAY_REGISTRATION_INVALID_REQUEST, error_text, None, n)
         else do {
           hex \<leftarrow> pd_secret_is_lower_hex receiver_secret;
           if \<not> hex then Some (PD_WIN32_RELAY_REGISTRATION_INVALID_REQUEST, error_text, None, n)
           else do {
             (er, endpoint) \<leftarrow> pd_relay_registration_build_endpoint https_base_url
               (Some (replicate PD_RELAY_REGISTRATION_ENDPOINT_CAPACITY 0)) PD_RELAY_REGISTRATION_ENDPOINT_CAPACITY;
             if er \<noteq> PD_RELAY_REGISTRATION_BUILD_OK
             then Some (PD_WIN32_RELAY_REGISTRATION_INVALID_REQUEST, error_text, None, n)
             else do {
               (br, body, body_size) \<leftarrow> pd_relay_registration_build_body session_id
                 (Some (replicate PD_RELAY_REGISTRATION_BODY_CAPACITY 0)) PD_RELAY_REGISTRATION_BODY_CAPACITY (Some 0);
               if br \<noteq> PD_RELAY_REGISTRATION_BUILD_OK
               then Some (PD_WIN32_RELAY_REGISTRATION_INVALID_REQUEST, error_text, None, n)
               else do {
                 endpoint \<leftarrow> endpoint;
                 body \<leftarrow> body;
                 body_size \<leftarrow> body_size;
                 auth_header \<leftarrow> registration_auth_header secret;
                 let curl_error = replicate CURL_ERROR_SIZE 0;
                 let (easy, n) = curl_easy_init api n;
                 if easy = 0
                 then do {
                   auth_header \<leftarrow> pd_secure_zero (Some auth_header) PD_AUTH_HEADER_CAPACITY;
                   Some (PD_WIN32_RELAY_REGISTRATION_CURL_ERROR, error_text, Some (auth_header, Some curl_error), n) }
                 else do {
                   (headers, n) \<leftarrow> registration_headers api auth_header n;
                   if headers = 0
                   then do {
                     n \<leftarrow> curl_easy_cleanup api n easy;
                     auth_header \<leftarrow> pd_secure_zero (Some auth_header) PD_AUTH_HEADER_CAPACITY;
                     Some (PD_WIN32_RELAY_REGISTRATION_CURL_ERROR, error_text, Some (auth_header, Some curl_error), n) }
                   else do {
                     bytes \<leftarrow> mem_slice body 0 body_size;
                     (result, error_text, n) \<leftarrow> registration_exchange api easy
                       (registration_options (c_str endpoint) headers bytes body_size) error_text error_capacity n;
                     let curl_error = curl_error_buffer api n easy;
                     n \<leftarrow> curl_slist_free_all api n headers;
                     n \<leftarrow> curl_easy_cleanup api n easy;
                     auth_header \<leftarrow> pd_secure_zero (Some auth_header) PD_AUTH_HEADER_CAPACITY;
                     curl_error \<leftarrow> pd_secure_zero (Some curl_error) CURL_ERROR_SIZE;
                     Some (result, error_text, Some (auth_header, curl_error), n) } } } } } } }
     | _ \<Rightarrow> Some (PD_WIN32_RELAY_REGISTRATION_INVALID_ARGUMENT, error_text, None, n) }"

section \<open>The helpers\<close>

lemma secret_is_lower_hex_eq: "0 \<in> set v \<Longrightarrow> pd_secret_is_lower_hex (Some v) = Some (lower_hex 64 (c_str v))"
  using secret_is_valid_eq [of v] by (simp add: pd_secret_is_lower_hex_def pd_receiver_secret_is_valid_def)

lemma registration_auth_header_eq:
  "0 \<in> set v \<Longrightarrow> lower_hex 64 (c_str v) \<Longrightarrow> registration_auth_header v = Some (auth_prefix @ c_str v @ [0])"
proof -
  have "PD_AUTH_PREFIX = auth_prefix" by (simp add: PD_AUTH_PREFIX_def auth_prefix_def)
  then have "registration_auth_header v = build_auth_header v"
    by (simp add: registration_auth_header_def build_auth_header_def PD_AUTH_HEADER_CAPACITY_def)
  then show "0 \<in> set v \<Longrightarrow> lower_hex 64 (c_str v) \<Longrightarrow> ?thesis" by (simp add: auth_header_eq lower_hex_def)
qed

lemma auth_header_capacity [simp]: "PD_AUTH_HEADER_CAPACITY = 87"
  by (simp add: PD_AUTH_HEADER_CAPACITY_def PD_AUTH_PREFIX_def)

lemma requires_opt_in_eq:
  assumes "0 \<in> set b"
  shows "pd_base_url_requires_insecure_opt_in (Some b) = Some (7 < length (c_str b) \<and> take 7 (c_str b) = http_prefix)"
  using assms memcmp_take [OF assms, of 7 http_prefix]
  by (cases "7 < length (c_str b)") (simp_all add: pd_base_url_requires_insecure_opt_in_def strlen_def)

lemma copy_error_eq:
  assumes "cap \<le> length d" and "0 \<in> set src"
  shows "pd_copy_error (Some d) cap (Some src) = Some (Some (
    if cap = 0 then d else take (cap - 1) (c_str src) @ 0 # drop (min (length (c_str src)) (cap - 1) + 1) d))"
proof (cases "cap = 0")
  case False
  define k where k_def: "k = (if length (c_str src) < cap - 1 then length (c_str src) else cap - 1)"
  define t where "t = take k (c_str src)"
  let ?d = "d[0 := 0]"
  have k: "length t = k" "k < length d" using False assms(1) by (auto simp: k_def t_def)
  have "take k src = t" using c_str_take [of k src] by (simp add: t_def k_def)
  moreover have "k \<le> length src" using length_c_str_less [OF assms(2)] by (simp add: k_def)
  ultimately have m: "(if k \<noteq> 0 then memcpy ?d 0 src 0 k else Some ?d) = Some (t @ drop k ?d)"
    using k by (cases "k = 0") (simp_all add: memcpy_def mem_slice_def put_def)
  have "drop k ?d = ?d ! k # drop (Suc k) d" using k(2) by (simp add: Cons_nth_drop_Suc [symmetric])
  then have "wr (t @ drop k ?d) k 0 = Some (t @ 0 # drop (k + 1) d)"
    using k by (simp add: wr_def list_update_append)
  moreover have "wr d 0 0 = Some ?d" using False assms(1) by (auto simp: wr_def)
  moreover have "pd_copy_error (Some d) cap (Some src) = do {
      d \<leftarrow> wr d 0 0; d \<leftarrow> (if k \<noteq> 0 then memcpy d 0 src 0 k else Some d); d \<leftarrow> wr d k 0; Some (Some d) }"
    using False assms(2) by (simp only: pd_copy_error_def strlen_def Let_def k_def option.case if_False if_True bind.bind_lunit)
  ultimately have "pd_copy_error (Some d) cap (Some src) = Some (Some (t @ 0 # drop (k + 1) d))"
    using m by simp
  moreover have "t = take (cap - 1) (c_str src)" "k = min (length (c_str src)) (cap - 1)" by (simp_all add: t_def k_def)
  ultimately show ?thesis using False by simp
qed (simp add: pd_copy_error_def)

text \<open>The callback takes all the bytes of a piece whose size fits a \<^verbatim>\<open>size_t\<close> and refuses any other.\<close>

lemma discard_accepts:
  "pd_discard_response msize count = (if unat msize * unat count < 2 ^ 64 then msize * count else 0)"
proof (cases "msize = 0")
  case False
  then have p: "0 < unat msize" by (simp add: unat_gt_0)
  have "unat (- 1 div msize) = (2 ^ 64 - 1) div unat msize" by (simp add: unat_div unsigned_minus_1_eq_mask mask_eq_exp_minus_1)
  then have "- 1 div msize < count \<longleftrightarrow> (2 ^ 64 - 1) div unat msize < unat count" by (simp add: word_less_nat_alt)
  also have "\<dots> \<longleftrightarrow> \<not> unat msize * unat count < 2 ^ 64"
    using p by (simp add: div_less_iff_less_mult mult.commute [of "unat msize"]) arith
  finally show ?thesis using False by (simp add: pd_discard_response_def)
qed (simp add: pd_discard_response_def)


text \<open>An error text that may be absent, and what the routine keeps of it.\<close>

definition text_fits :: "nat \<Rightarrow> u8 list option \<Rightarrow> bool" where
  "text_fits cap t \<longleftrightarrow> (case t of None \<Rightarrow> True | Some e \<Rightarrow> cap \<le> length e)"

lemma text_fits_simps [simp]: "text_fits cap None" "text_fits cap (Some e) = (cap \<le> length e)"
  by (simp_all add: text_fits_def)

lemma copy_error_returns:
  assumes "text_fits cap t" and "0 \<in> set src"
  shows "\<exists>t'. pd_copy_error t cap (Some src) = Some t' \<and> map_option length t' = map_option length t"
proof (cases t)
  case None
  then show ?thesis by (simp add: pd_copy_error_def)
next
  case (Some d)
  then show ?thesis using assms copy_error_eq [of cap d src] by (auto simp: min_def)
qed

section \<open>What a registration does\<close>

text \<open>The address and the body of the request.\<close>

definition registration_request :: "u8 list \<Rightarrow> u8 list \<Rightarrow> (u8 list \<times> u8 list) option" where
  "registration_request base sid =
     (case relay_base base of
        None \<Rightarrow> None
      | Some (secure, host) \<Rightarrow>
          if lower_hex 32 sid then Some (http_scheme secure @ host @ sessions_path, body_prefix @ sid @ body_suffix) else None)"

definition registration_permitted :: "bool \<Rightarrow> u8 list \<Rightarrow> u8 list \<Rightarrow> u8 list \<Rightarrow> bool" where
  "registration_permitted insecure base sid secret \<longleftrightarrow>
     (7 < length base \<and> take 7 base = http_prefix \<longrightarrow> insecure) \<and> lower_hex 64 secret \<and> registration_request base sid \<noteq> None"

text \<open>
  The request as libcurl performed it: one verified POST to the address, with the body and its length, the
  timeouts, and exactly the two header lines.
\<close>

definition registration_post :: "u8 list \<Rightarrow> u8 list \<Rightarrow> u8 list \<Rightarrow> curl_option list \<times> u8 list list \<Rightarrow> bool" where
  "registration_post url body secret req \<longleftrightarrow> (case req of (opts, lines) \<Rightarrow>
     verified_transfer url opts \<and> last_set opt_connect_only opts = None \<and>
     last_set opt_post opts = Some 1 \<and> last_set opt_fields opts = Some body \<and>
     last_set opt_field_size opts = Some (int (length body)) \<and>
     last_set opt_connect_timeout opts = Some 10000 \<and> last_set opt_timeout opts = Some 15000 \<and>
     last_set opt_no_signal opts = Some 1 \<and> CURLOPT_WRITEFUNCTION \<in> set opts \<and>
     lines = [c_lit ''Content-Type: application/json'', c_lit ''Authorization: Bearer '' @ secret])"

text \<open>What the status code of an answer means for the registration.\<close>

definition status_means :: "int \<Rightarrow> pd_win32_relay_registration_result \<Rightarrow> bool" where
  "status_means status r \<longleftrightarrow>
     r = PD_WIN32_RELAY_REGISTRATION_OK \<and> status \<in> {200, 201} \<or>
     r = PD_WIN32_RELAY_REGISTRATION_AUTH_REJECTED \<and> status \<in> {401, 403} \<or>
     r = PD_WIN32_RELAY_REGISTRATION_CONFLICT \<and> status = 409 \<or>
     r = PD_WIN32_RELAY_REGISTRATION_HTTP_ERROR \<and> status \<notin> {200, 201, 401, 403, 409}"

lemma response_result_means: "status_means status (response_result status)"
  by (simp add: status_means_def response_result_def)

lemma registration_options_post:
  "lines = [content_type, auth_prefix @ secret] \<Longrightarrow>
   registration_post url body secret (registration_options url headers body (length body), lines)"
  by (simp add: registration_post_def verified_transfer_def registration_options_def opt_defs content_type_def auth_prefix_def)

text \<open>
  The log of transfers: a call of \<^verbatim>\<open>curl_easy_perform\<close> adds the one it performed, with the settings of its
  handle and the header lines these name; no other call the registration makes performs a transfer.
\<close>

definition request_of where
  "request_of items options n h = (options n h,
     case last_set opt_headers (options n h) of None \<Rightarrow> [] | Some l \<Rightarrow> items n l)"

locale curl_requests = curl_net api net_ok live items options outgoing inbox in_part
  for api :: "'n curl_api" and net_ok live items options outgoing inbox in_part +
  fixes requests :: "'n \<Rightarrow> (curl_option list \<times> u8 list list) list"
  assumes perform_request: "net_ok n \<Longrightarrow> Easy h \<in> live n \<Longrightarrow> curl_easy_perform api n h = Some (code, n') \<Longrightarrow>
      requests n' = requests n @ [request_of items options n h]"
    and init_request: "curl_easy_init api n = (h, n') \<Longrightarrow> requests n' = requests n"
    and setopt_request: "curl_easy_setopt api n h opt = Some (code, n') \<Longrightarrow> requests n' = requests n"
    and append_request: "curl_slist_append api n l line = Some (l', n') \<Longrightarrow> requests n' = requests n"
    and free_request: "curl_slist_free_all api n l = Some n' \<Longrightarrow> requests n' = requests n"
    and cleanup_request: "curl_easy_cleanup api n h = Some n' \<Longrightarrow> requests n' = requests n"
    and response_request: "curl_easy_response_code api n h = Some (code, status, n') \<Longrightarrow> requests n' = requests n"

text \<open>An answer: the transfer that was logged last was performed without an error and its status is the result.\<close>

definition answered where
  "answered api requests before after r \<longleftrightarrow> (\<exists>e m1 m2 m3 status. requests m1 = requests before \<and>
     curl_easy_perform api m1 e = Some (0, m2) \<and> requests m2 = requests after \<and>
     curl_easy_response_code api m2 e = Some (0, status, m3) \<and> status_means status r)"

lemma lower_hex_no_nul: "lower_hex k s \<Longrightarrow> 0 \<notin> set s"
  by (auto simp: lower_hex_def lower_hex_char_def)

lemma lower_hex_length: "lower_hex k s \<Longrightarrow> length s = k"
  by (simp add: lower_hex_def)

lemma registration_build:
  assumes "0 \<in> set b" and "0 \<in> set sid" and "registration_request (c_str b) (c_str sid) = Some (url, body)"
  shows "\<exists>pad. pd_relay_registration_build_endpoint (Some b) (Some (replicate 512 0)) 512 =
      Some (PD_RELAY_REGISTRATION_BUILD_OK, Some (url @ 0 # pad))"
    and "\<exists>pad. pd_relay_registration_build_body (Some sid) (Some (replicate 64 0)) 64 (Some 0) =
      Some (PD_RELAY_REGISTRATION_BUILD_OK, Some (body @ 0 # pad), Some 49)"
    and "0 \<notin> set url" and "length body = 49"
proof -
  obtain secure host where rb: "relay_base (c_str b) = Some (secure, host)" "lower_hex 32 (c_str sid)"
    "url = http_scheme secure @ host @ sessions_path" "body = body_prefix @ c_str sid @ body_suffix"
    using assms(3) by (auto simp: registration_request_def split: option.splits if_splits)
  have l: "length (c_str sid) = 32" using lower_hex_length [OF rb(2)] .
  have u: "length url + 1 \<le> 512"
    using relay_base_parts(3) [OF assms(1) rb(1)] by (auto simp: rb(3) http_scheme_def sessions_path_def)
  show "\<exists>pad. pd_relay_registration_build_endpoint (Some b) (Some (replicate 512 0)) 512 =
      Some (PD_RELAY_REGISTRATION_BUILD_OK, Some (url @ 0 # pad))"
    using u rb(1,3) assms(1) by (simp add: registration_endpoint_eq Let_def)
  show "length body = 49" using l by (simp add: rb(4))
  show "\<exists>pad. pd_relay_registration_build_body (Some sid) (Some (replicate 64 0)) 64 (Some 0) =
      Some (PD_RELAY_REGISTRATION_BUILD_OK, Some (body @ 0 # pad), Some 49)"
    using rb(2) assms(2) by (simp add: registration_body_eq rb(4) store_size_def)
  have "set host \<subseteq> set (c_str b)"
    using relay_base_set [OF rb(1)] .
  then have "0 \<notin> set host" using c_str_no_nul by blast
  then show "0 \<notin> set url"
    by (simp add: rb(3) http_scheme_def https_prefix_def http_prefix_def sessions_path_def c_lit_def)
qed

context curl_net
begin

lemma headers_spec:
  assumes "net_ok n"
  shows "\<exists>l n'. registration_headers api auth n = Some (l, n') \<and> net_ok n' \<and>
    (if l = 0 then live n' = live n
     else options n' = options n \<and> Headers l \<notin> live n \<and> live n' = insert (Headers l) (live n) \<and> items n' l = [content_type, c_str auth])"
proof -
  obtain l n1 where a: "curl_slist_append api n 0 content_type = Some (l, n1)" "net_ok n1" "options n1 = options n"
    "if l = 0 then live n1 = live n \<and> items n1 = items n
     else Headers l \<notin> live n \<and> live n1 = insert (Headers l) (live n) \<and> items n1 = (items n)(l := [content_type])"
    using slist_new [OF assms, of content_type] by blast
  show ?thesis
  proof (cases "l = 0")
    case True
    then show ?thesis using a by (simp add: registration_headers_def)
  next
    case False
    then have l: "Headers l \<in> live n1" "Headers l \<notin> live n" "live n1 = insert (Headers l) (live n)" "items n1 l = [content_type]"
      using a(4) by simp_all
    obtain u n2 where b: "curl_slist_append api n1 l (c_str auth) = Some (u, n2)" "net_ok n2" "options n2 = options n1"
      "if u = 0 then live n2 = live n1 \<and> items n2 = items n1
       else (Headers u \<notin> live n1 \<or> u = l) \<and> live n2 = insert (Headers u) (if l = 0 then live n1 else live n1 - {Headers l}) \<and>
         items n2 = (items n1)(u := (if l = 0 then [] else items n1 l) @ [c_str auth])"
      using slist_append [OF a(2) disjI2 [OF l(1)], of "c_str auth"] by blast
    show ?thesis
    proof (cases "u = 0")
      case True
      then obtain n3 where "curl_slist_free_all api n2 l = Some n3" "net_ok n3" "live n3 = live n2 - {Headers l}"
        using slist_free [OF b(2), of l] b(4) l(1) by auto
      then show ?thesis using True False a(1) b(1,4) l by (simp add: registration_headers_def)
    next
      case new: False
      then have "live n2 = insert (Headers u) (live n)" "Headers u \<notin> live n" "items n2 u = [content_type, c_str auth]"
        using b(4) False l by auto
      then show ?thesis using new False a(1,3) b(1-3) by (simp add: registration_headers_def)
    qed
  qed
qed

end

context curl_requests
begin

lemma set_options_request: "set_options api h opts n = Some (code, n') \<Longrightarrow> requests n' = requests n"
proof (induction opts arbitrary: n)
  case (Cons opt opts)
  obtain c1 n1 where s: "curl_easy_setopt api n h opt = Some (c1, n1)"
    "(if c1 = CURLE_OK then set_options api h opts n1 else Some (c1, n1)) = Some (code, n')"
    using Cons.prems by (auto simp: bind_eq_Some_conv)
  then show ?case using setopt_request [OF s(1)] Cons.IH [of n1] by (auto split: if_splits)
qed simp

lemma headers_request:
  assumes "registration_headers api auth n = Some (l, n')"
  shows "requests n' = requests n"
proof -
  obtain h n1 where a: "curl_slist_append api n 0 content_type = Some (h, n1)"
    using assms by (auto simp: registration_headers_def bind_eq_Some_conv)
  show ?thesis
  proof (cases "h = 0")
    case True
    then show ?thesis using assms a append_request [OF a] by (simp add: registration_headers_def)
  next
    case False
    then obtain u n2 where b: "curl_slist_append api n1 h (c_str auth) = Some (u, n2)"
      "(if u = 0 then do { n \<leftarrow> curl_slist_free_all api n2 h; Some (0, n) } else Some (u, n2)) = Some (l, n')"
      using assms a by (auto simp: registration_headers_def bind_eq_Some_conv)
    then show ?thesis
      using append_request [OF a] append_request [OF b(1)] free_request [of n2 h] by (auto simp: bind_eq_Some_conv split: if_splits)
  qed
qed

lemma exchange_spec:
  assumes "net_ok n" and "Easy e \<in> live n" and "text_fits cap t"
  shows "\<exists>r t' n'. registration_exchange api e opts t cap n = Some (r, t', n') \<and> net_ok n' \<and> live n' = live n \<and>
    map_option length t' = map_option length t \<and>
    (requests n' = requests n \<and> r = PD_WIN32_RELAY_REGISTRATION_CURL_ERROR \<or>
     requests n' = requests n @ [(options n e @ opts,
       case last_set opt_headers (options n e @ opts) of None \<Rightarrow> [] | Some l \<Rightarrow> items n l)] \<and>
     (r = PD_WIN32_RELAY_REGISTRATION_CURL_ERROR \<or> answered api requests n n' r))"
proof -
  obtain code n1 where so: "set_options api e opts n = Some (code, n1)" "net_ok n1" "live n1 = live n" "items n1 = items n"
    "code = CURLE_OK \<longrightarrow> options n1 e = options n e @ opts"
    using set_options_spec [OF assms(1,2)] by blast
  have e1: "Easy e \<in> live n1" using so(3) assms(2) by simp
  obtain pc n2 where p: "curl_easy_perform api n1 e = Some (pc, n2)" "net_ok n2" "live n2 = live n1"
    using perform [OF so(2) e1] by auto
  have rq: "requests n1 = requests n" "requests n2 = requests n1 @ [request_of items options n1 e]"
    using set_options_request [OF so(1)] perform_request [OF so(2) e1 p(1)] by simp_all
  let ?b = "\<lambda>m. curl_error_buffer api m e"
  have fail: "\<exists>t'. pd_copy_error t cap (Some (if ?b m ! 0 \<noteq> 0 then ?b m else curl_easy_strerror api c)) = Some t' \<and>
      map_option length t' = map_option length t" "rd (?b m) 0 = Some (?b m ! 0)" if "net_ok m" "live m = live n" for m c
    using error_buffer [OF that(1), of e] that(2) assms(2) copy_error_returns [OF assms(3)] strerror [of c]
    by (simp_all add: rd_def)
  show ?thesis
  proof (cases "code = CURLE_OK \<and> pc = CURLE_OK")
    case False
    define m c where mc: "m = (if code = CURLE_OK then n2 else n1)" "c = (if code = CURLE_OK then pc else code)"
    have m: "net_ok m" "live m = live n" "c \<noteq> CURLE_OK" using so p False by (simp_all add: mc)
    have st: "(if code = CURLE_OK then curl_easy_perform api n1 e else Some (code, n1)) = Some (c, m)" using p(1) by (simp add: mc)
    obtain t' where "pd_copy_error t cap (Some (if ?b m ! 0 \<noteq> 0 then ?b m else curl_easy_strerror api c)) = Some t'"
      "map_option length t' = map_option length t"
      using fail(1) [OF m(1,2), of c] by blast
    then have "registration_exchange api e opts t cap n = Some (PD_WIN32_RELAY_REGISTRATION_CURL_ERROR, t', m)"
      using so(1) st m(3) fail(2) [OF m(1,2)] unfolding registration_exchange_def by simp
    then show ?thesis using m \<open>map_option length t' = _\<close> rq so(4,5) by (auto simp: mc request_of_def split: option.split)
  next
    case True
    have e2: "Easy e \<in> live n2" using p(3) e1 by simp
    obtain rc status n3 where q: "curl_easy_response_code api n2 e = Some (rc, status, n3)" "net_ok n3" "live n3 = live n2"
      using response_code [OF p(2) e2] by blast
    obtain t' where t': "pd_copy_error t cap (Some (curl_easy_strerror api rc)) = Some t'" "map_option length t' = map_option length t"
      using copy_error_returns [OF assms(3) strerror [of rc]] by blast
    have rq': "requests n3 = requests n2" by (rule response_request [OF q(1)])
    have call: "registration_exchange api e opts t cap n = Some (
        if rc = CURLE_OK then (response_result status, t, n3) else (PD_WIN32_RELAY_REGISTRATION_CURL_ERROR, t', n3))"
      using True so p q t' by (simp add: registration_exchange_def)
    have "answered api requests n n3 (response_result status)" if "rc = CURLE_OK"
      using that True p(1) q(1) rq(1) rq' response_result_means [of status] unfolding answered_def CURLE_OK_def
      by (intro exI [of _ e] exI [of _ n1] exI [of _ n2] exI [of _ n3] exI [of _ status]) simp
    then show ?thesis using call q(2,3) p(3) so(3-5) t'(2) rq rq' True by (cases "rc = CURLE_OK") (simp_all add: request_of_def cong: option.case_cong)
  qed
qed

end

text \<open>
  The outcome: refused before anything happens, or one POST at most. None is performed only with a transport
  error, and any other result is the meaning of the answer to the one that was.
\<close>

definition registration_outcome where
  "registration_outcome api net_ok live requests base sid secret t n r t' locals n' \<longleftrightarrow>
     map_option length (t' :: u8 list option) = map_option length (t :: u8 list option) \<and>
     (if registration_permitted (insecure_opt_in api n) base sid secret
      then (locals :: (u8 list option \<times> u8 list option) option) = Some (Some (replicate 87 0), Some (replicate 256 0)) \<and> net_ok n' \<and> live n' = live n \<and>
        (\<exists>url body. registration_request base sid = Some (url, body) \<and>
           (requests n' = requests n \<and> r = PD_WIN32_RELAY_REGISTRATION_CURL_ERROR \<or>
            (\<exists>req. requests n' = requests n @ [req] \<and> registration_post url body secret req \<and>
               (r = PD_WIN32_RELAY_REGISTRATION_CURL_ERROR \<or> answered api requests n n' r))))
      else r = PD_WIN32_RELAY_REGISTRATION_INVALID_REQUEST \<and> locals = None \<and> n' = n)"

lemma registration_refused:
  assumes "0 \<in> set b" and "0 \<in> set sid" and "registration_request (c_str b) (c_str sid) = None"
  shows "\<exists>er ep. pd_relay_registration_build_endpoint (Some b) (Some (replicate 512 0)) 512 = Some (er, ep) \<and>
    (er = PD_RELAY_REGISTRATION_BUILD_OK \<longrightarrow>
      (\<exists>br body k. pd_relay_registration_build_body (Some sid) (Some (replicate 64 0)) 64 (Some 0) = Some (br, body, k) \<and>
        br \<noteq> PD_RELAY_REGISTRATION_BUILD_OK))"
proof (cases "relay_base (c_str b)")
  case None
  then show ?thesis using assms by (simp add: registration_endpoint_eq)
next
  case (Some x)
  then have "\<not> lower_hex 32 (c_str sid)" using assms(3) by (auto simp: registration_request_def split: prod.splits if_splits)
  then show ?thesis
    using assms(1,2) Some by (auto simp: registration_endpoint_eq registration_body_eq Let_def split: prod.splits)
qed

lemma registration_sizes [simp]: "PD_RELAY_REGISTRATION_ENDPOINT_CAPACITY = 512" "PD_RELAY_REGISTRATION_BODY_CAPACITY = 64"
  by (simp_all add: PD_RELAY_REGISTRATION_ENDPOINT_CAPACITY_def PD_RELAY_REGISTRATION_BODY_CAPACITY_def)

lemma clear_text:
  assumes "text_fits cap t"
  shows "\<exists>t'. (case t of Some e \<Rightarrow> if 0 < cap then do { e \<leftarrow> wr e 0 0; Some (Some e) } else Some t | None \<Rightarrow> Some None) = Some t' \<and>
    map_option length t' = map_option length t"
  using assms by (cases t) (auto simp: wr_def)

context curl_net
begin

lemma register_refused_spec:
  assumes "net_ok n" and "0 \<in> set b" and "0 \<in> set sid" and "0 \<in> set secret" and "text_fits cap t"
    and "\<not> registration_permitted (insecure_opt_in api n) (c_str b) (c_str sid) (c_str secret)"
  shows "\<exists>t'. pd_win32_relay_register_session api (Some b) (Some sid) (Some secret) t cap n =
      Some (PD_WIN32_RELAY_REGISTRATION_INVALID_REQUEST, t', None, n) \<and> map_option length t' = map_option length t"
proof -
  obtain t1 where t1: "(case t of Some e \<Rightarrow> if 0 < cap then do { e \<leftarrow> wr e 0 0; Some (Some e) } else Some t | None \<Rightarrow> Some None) = Some t1"
    "map_option length t1 = map_option length t" using clear_text [OF assms(5)] by blast
  note checks = t1(1) requires_opt_in_eq [OF assms(2)] insecure_http_enabled_eq secret_is_lower_hex_eq [OF assms(4)]
  have "pd_win32_relay_register_session api (Some b) (Some sid) (Some secret) t cap n =
      Some (PD_WIN32_RELAY_REGISTRATION_INVALID_REQUEST, t1, None, n)"
  proof (cases "(7 < length (c_str b) \<and> take 7 (c_str b) = http_prefix \<longrightarrow> insecure_opt_in api n) \<and> lower_hex 64 (c_str secret)")
    case True
    then have "registration_request (c_str b) (c_str sid) = None" using assms(6) unfolding registration_permitted_def by blast
    from registration_refused [OF assms(2,3) this] show ?thesis
      unfolding pd_win32_relay_register_session_def checks(1) using True checks by (auto simp: c_and_def)
  next
    case False
    then show ?thesis unfolding pd_win32_relay_register_session_def checks(1) using checks by (auto simp: c_and_def)
  qed
  then show ?thesis using t1(2) by blast
qed

end

context curl_requests
begin

lemma register_sent_spec:
  assumes "net_ok n" and "0 \<in> set b" and "0 \<in> set sid" and "0 \<in> set secret" and "text_fits cap t"
    and "registration_permitted (insecure_opt_in api n) (c_str b) (c_str sid) (c_str secret)"
  shows "\<exists>r t' n'. pd_win32_relay_register_session api (Some b) (Some sid) (Some secret) t cap n =
      Some (r, t', Some (Some (replicate 87 0), Some (replicate 256 0)), n') \<and>
    registration_outcome api net_ok live requests (c_str b) (c_str sid) (c_str secret) t n r t'
      (Some (Some (replicate 87 0), Some (replicate 256 0))) n'"
proof -
  obtain t1 where t1: "(case t of Some e \<Rightarrow> if 0 < cap then do { e \<leftarrow> wr e 0 0; Some (Some e) } else Some t | None \<Rightarrow> Some None) = Some t1"
    "map_option length t1 = map_option length t" using clear_text [OF assms(5)] by blast
  have fits: "text_fits cap t1" using assms(5) t1(2) by (cases t; cases t1) auto
  obtain url body where req: "registration_request (c_str b) (c_str sid) = Some (url, body)"
    using assms(6) by (auto simp: registration_permitted_def)
  note built = registration_build [OF assms(2,3) req]
  obtain pad pad' where bp: "pd_relay_registration_build_endpoint (Some b) (Some (replicate 512 0)) 512 =
      Some (PD_RELAY_REGISTRATION_BUILD_OK, Some (url @ 0 # pad))"
    "pd_relay_registration_build_body (Some sid) (Some (replicate 64 0)) 64 (Some 0) =
      Some (PD_RELAY_REGISTRATION_BUILD_OK, Some (body @ 0 # pad'), Some 49)" using built(1,2) by blast
  have hex: "lower_hex 64 (c_str secret)" using assms(6) by (simp add: registration_permitted_def)
  let ?auth = "auth_prefix @ c_str secret @ [0]"
  have auth: "registration_auth_header secret = Some ?auth" "c_str ?auth = auth_prefix @ c_str secret" "length ?auth = 87"
    using registration_auth_header_eq [OF assms(4) hex] c_str_terminated [of "auth_prefix @ c_str secret" "[]"]
      auth_prefix_no_nul c_str_no_nul lower_hex_length [OF hex] by simp_all
  obtain e n1 where ei: "curl_easy_init api n = (e, n1)" by fastforce
  note l1 = easy_init [OF assms(1) ei]
  have parts: "pd_secure_zero (Some ?auth) PD_AUTH_HEADER_CAPACITY = Some (Some (replicate 87 0))"
    "mem_slice (body @ 0 # pad') 0 49 = Some body" "c_str (url @ 0 # pad) = url"
    using auth(3) built(3,4) by simp_all
  let ?locals = "Some (Some (replicate 87 0), Some (replicate 256 0)) :: (u8 list option \<times> u8 list option) option"
  let ?opts = "\<lambda>l. registration_options url l body 49"
  have tail: "pd_win32_relay_register_session api (Some b) (Some sid) (Some secret) t cap n =
     (if e = 0 then Some (PD_WIN32_RELAY_REGISTRATION_CURL_ERROR, t1, ?locals, n1)
      else do {
        (headers, n) \<leftarrow> registration_headers api ?auth n1;
        if headers = 0
        then do { n \<leftarrow> curl_easy_cleanup api n e; Some (PD_WIN32_RELAY_REGISTRATION_CURL_ERROR, t1, ?locals, n) }
        else do {
          (result, error_text, n) \<leftarrow> registration_exchange api e (?opts headers) t1 cap n;
          let curl_error = curl_error_buffer api n e;
          n \<leftarrow> curl_slist_free_all api n headers;
          n \<leftarrow> curl_easy_cleanup api n e;
          curl_error \<leftarrow> pd_secure_zero (Some curl_error) 256;
          Some (result, error_text, Some (Some (replicate 87 0), curl_error), n) } })"
    unfolding pd_win32_relay_register_session_def t1(1)
    using assms(6) bp auth(1) ei requires_opt_in_eq [OF assms(2)] insecure_http_enabled_eq [of n] secret_is_lower_hex_eq [OF assms(4)] hex parts
    by (simp add: registration_permitted_def c_and_def Let_def CURL_ERROR_SIZE_def cong: if_cong)
  have out: "registration_outcome api net_ok live requests (c_str b) (c_str sid) (c_str secret) t n r t' ?locals n'"
    if "map_option length t' = map_option length t1" "net_ok n'" "live n' = live n"
      "requests n' = requests n \<and> r = PD_WIN32_RELAY_REGISTRATION_CURL_ERROR \<or>
       (\<exists>req. requests n' = requests n @ [req] \<and> registration_post url body (c_str secret) req \<and>
          (r = PD_WIN32_RELAY_REGISTRATION_CURL_ERROR \<or> answered api requests n n' r))" for r t' n'
    using that t1(2) assms(6) req by (auto simp: registration_outcome_def)
  have rq1: "requests n1 = requests n" by (rule init_request [OF ei])
  show ?thesis
  proof (cases "e = 0")
    case True
    then show ?thesis using tail out [of t1 n1] l1 rq1 by auto
  next
    case False
    then have n1: "net_ok n1" "Easy e \<notin> live n" "live n1 = insert (Easy e) (live n)" "options n1 e = []" using l1 by simp_all
    have shut: "\<exists>n'. curl_easy_cleanup api m e = Some n' \<and> net_ok n' \<and> live n' = live n \<and> requests n' = requests m"
      if "net_ok m" "live m = live n1" for m
      using easy_cleanup [OF that(1), of e] that(2) n1(2,3) cleanup_request [of m e] by auto
    obtain l n2 where h: "registration_headers api ?auth n1 = Some (l, n2)" "net_ok n2"
      "if l = 0 then live n2 = live n1
       else options n2 = options n1 \<and> Headers l \<notin> live n1 \<and> live n2 = insert (Headers l) (live n1) \<and> items n2 l = [content_type, c_str ?auth]"
      using headers_spec [OF n1(1), of ?auth] by blast
    have rq2: "requests n2 = requests n" using headers_request [OF h(1)] rq1 by simp
    show ?thesis
    proof (cases "l = 0")
      case True
      then obtain n' where "curl_easy_cleanup api n2 e = Some n'" "net_ok n'" "live n' = live n" "requests n' = requests n"
        using shut [of n2] h rq2 by auto
      then show ?thesis using tail False h(1) True out [of t1 n' PD_WIN32_RELAY_REGISTRATION_CURL_ERROR] by simp
    next
      case hdr: False
      then have n2: "options n2 = options n1" "Headers l \<notin> live n1" "live n2 = insert (Headers l) (live n1)"
        "items n2 l = [content_type, auth_prefix @ c_str secret]" "Easy e \<in> live n2"
        using h(3) auth(2) n1(3) by simp_all
      have last: "last_set opt_headers (?opts l) = Some l" by (simp add: opt_defs registration_options_def)
      obtain r t2 n3 where x: "registration_exchange api e (?opts l) t1 cap n2 = Some (r, t2, n3)"
        "net_ok n3" "live n3 = live n2" "map_option length t2 = map_option length t1"
        "requests n3 = requests n2 \<and> r = PD_WIN32_RELAY_REGISTRATION_CURL_ERROR \<or>
         requests n3 = requests n2 @ [(options n2 e @ ?opts l,
           case last_set opt_headers (options n2 e @ ?opts l) of None \<Rightarrow> [] | Some l \<Rightarrow> items n2 l)] \<and>
         (r = PD_WIN32_RELAY_REGISTRATION_CURL_ERROR \<or> answered api requests n2 n3 r)"
        using exchange_spec [OF h(2) n2(5) fits, of "?opts l"] by blast
      have e3: "Easy e \<in> live n3" using x(3) n2(5) by simp
      have wiped: "pd_secure_zero (Some (curl_error_buffer api n3 e)) 256 = Some (Some (replicate 256 0))"
        using error_buffer [OF x(2) e3] by simp
      obtain n4 where f: "curl_slist_free_all api n3 l = Some n4" "net_ok n4" "live n4 = live n1"
        using slist_free [OF x(2), of l] x(3) n2(2,3) by auto
      obtain n5 where z: "curl_easy_cleanup api n4 e = Some n5" "net_ok n5" "live n5 = live n" "requests n5 = requests n3"
        using shut [OF f(2,3)] free_request [OF f(1)] by auto
      have "registration_post url body (c_str secret) (?opts l, items n2 l)"
        using registration_options_post [OF n2(4), of url body l] built(4) by simp
      then have "requests n5 = requests n \<and> r = PD_WIN32_RELAY_REGISTRATION_CURL_ERROR \<or>
         (\<exists>req. requests n5 = requests n @ [req] \<and> registration_post url body (c_str secret) req \<and>
            (r = PD_WIN32_RELAY_REGISTRATION_CURL_ERROR \<or> answered api requests n n5 r))"
        using x(5) n2(1) n1(4) rq2 z(4) last by (auto simp: answered_def)
      then show ?thesis using tail False h(1) hdr x(1,4) f(1) z wiped out [of t2 n5 r] by simp
    qed
  qed
qed

lemma register_spec:
  assumes "net_ok n" and "0 \<in> set b" and "0 \<in> set sid" and "0 \<in> set secret" and "text_fits cap t"
  shows "\<exists>r t' locals n'. pd_win32_relay_register_session api (Some b) (Some sid) (Some secret) t cap n = Some (r, t', locals, n') \<and>
    registration_outcome api net_ok live requests (c_str b) (c_str sid) (c_str secret) t n r t' locals n'"
proof (cases "registration_permitted (insecure_opt_in api n) (c_str b) (c_str sid) (c_str secret)")
  case True
  then show ?thesis using register_sent_spec [OF assms] by blast
next
  case False
  then show ?thesis using register_refused_spec [OF assms] by (fastforce simp: registration_outcome_def)
qed

end

section \<open>The correctness of the registration\<close>

interpretation mem_requests: curl_requests mem_curl "\<lambda>_. True" mn_live "\<lambda>n. at_one [] (mn_items n)" "\<lambda>n. at_one [] (mn_options n)"
  "\<lambda>n. at_one [] (mn_out n)" "\<lambda>n. at_one [] (concat (mn_frames n))" "\<lambda>n. at_one False False" mn_requests
  by unfold_locales (auto simp: mem_curl_def request_of_def at_one_def split: if_splits option.splits)

text \<open>C13: Registering a session always returns and is memory safe. A base address without TLS needs the opt-in of
  the environment, and a malformed address, identifier or secret is refused before anything is acquired or
  sent. Otherwise one transfer at most is performed: a POST to the registration address with the JSON body
  and its length, the two header lines, both timeouts, the peer's certificate and name verified and
  redirects off. Without a transfer the result is a transport error; any result but a transport error is
  what the status code of the answer means (200 and 201 accepted, 401 and 403 rejected, 409 a conflict). On
  every path all resources are released, and the copies of the secret in the header line and of the
  error text are erased.\<close>

theorem registration_request_exact:
  assumes "curl_requests api net_ok live items options outgoing inbox in_part requests"
    and "net_ok n" and "0 \<in> set b" and "0 \<in> set sid" and "0 \<in> set secret" and "text_fits cap t"
  shows "\<exists>r t' locals n'. pd_win32_relay_register_session api (Some b) (Some sid) (Some secret) t cap n = Some (r, t', locals, n') \<and>
    registration_outcome api net_ok live requests (c_str b) (c_str sid) (c_str secret) t n r t' locals n'"
  by (rule curl_requests.register_spec [OF assms])

theorem registration_request_exact_witness:
  "\<exists>r t' locals n'. pd_win32_relay_register_session mem_curl (Some (c_lit ''https://r.io'' @ [0])) (Some (replicate 32 97 @ [0]))
      (Some (replicate 64 98 @ [0])) (Some (replicate 256 1)) 256 (idle_net []) = Some (r, t', locals, n') \<and>
    registration_outcome mem_curl (\<lambda>_. True) mn_live mn_requests
      (c_str (c_lit ''https://r.io'' @ [0])) (c_str (replicate 32 97 @ [0])) (c_str (replicate 64 98 @ [0])) (Some (replicate 256 1))
      (idle_net []) r t' locals n'"
  by (rule registration_request_exact [OF mem_requests.curl_requests_axioms]) simp_all

end
