(* ===== verification/PD_Win32Runtime.thy ===== *)
theory PD_Win32Runtime
  imports PD_Win32ReceiveHandler PD_ReceiverLoop PD_Win32Registration
begin

text \<open>
  The runtime of the Windows receiver (\<^verbatim>\<open>win32_receiver_runtime.c\<close>): it registers a session at the relay,
  connects the relay client, wires the receive loop to the client and to the receive handler, and
  closes the session at the end.

  The state of the transport is the client with the network, the state of the handler is the handler
  with the file system and the cryptographic service. The locale \<open>runtime_env\<close> joins the contracts of
  the three services; the loop's own contract \<open>loop_env\<close> follows from them.
\<close>

section \<open>The callbacks\<close>

datatype pd_win32_receiver_runtime_result =
    PD_WIN32_RECEIVER_RUNTIME_OK
  | PD_WIN32_RECEIVER_RUNTIME_INVALID_ARGUMENT
  | PD_WIN32_RECEIVER_RUNTIME_ENDPOINT_ERROR
  | PD_WIN32_RECEIVER_RUNTIME_REGISTRATION_ERROR
  | PD_WIN32_RECEIVER_RUNTIME_RELAY_ERROR
  | PD_WIN32_RECEIVER_RUNTIME_STORAGE_ERROR
  | PD_WIN32_RECEIVER_RUNTIME_PROTOCOL_ERROR

type_synonym 'n pd_win32_runtime_io = "pd_win32_relay_client \<times> 'n"

text \<open>The local view starts indeterminate and is read only after a call that filled it.\<close>

definition blank_view :: pd_relay_message_view where
  "blank_view = \<lparr>rv_header = pd_frame_header_zero, rv_payload = None, rv_payload_size = 0\<rparr>"

text \<open>One pass of the loop that waits for a frame; when it fails, the outputs are left alone.\<close>

definition runtime_receive_step ::
  "'n curl_api \<Rightarrow> 'n pd_win32_runtime_io \<Rightarrow>
   ((bool \<times> pd_frame_header \<times> u8 list option \<times> nat \<times> 'n pd_win32_runtime_io) + 'n pd_win32_runtime_io) option" where
  "runtime_receive_step api io = (case io of (relay, n) \<Rightarrow> do {
     (result, relay, view, n) \<leftarrow> pd_win32_relay_client_receive_frame api (Some relay) (Some blank_view) n;
     relay \<leftarrow> relay;
     view \<leftarrow> view;
     if result = PD_RELAY_CLIENT_TIMEOUT then Some (Inr (relay, n))
     else if result \<noteq> PD_RELAY_CLIENT_OK then Some (Inl (False, pd_frame_header_zero, None, 0, relay, n))
     else Some (Inl (True, rv_header view, rv_payload view, rv_payload_size view, relay, n)) })"

definition pd_runtime_receive_frame ::
  "'n curl_api \<Rightarrow> 'n pd_win32_runtime_io \<Rightarrow> (bool \<times> pd_frame_header \<times> u8 list option \<times> nat \<times> 'n pd_win32_runtime_io) option" where
  "pd_runtime_receive_frame api io = iterate (runtime_receive_step api) io"

definition pd_runtime_send_frame ::
  "'n curl_api \<Rightarrow> 'n pd_win32_runtime_io \<Rightarrow> pd_frame_header option \<Rightarrow> u8 list option \<Rightarrow> nat \<Rightarrow> (bool \<times> 'n pd_win32_runtime_io) option" where
  "pd_runtime_send_frame api io header payload payload_size = (case io of (relay, n) \<Rightarrow> do {
     (result, relay, n) \<leftarrow> pd_win32_relay_client_send_frame api (Some relay) header payload payload_size n;
     relay \<leftarrow> relay;
     Some (result = PD_RELAY_CLIENT_OK, relay, n) })"

definition pd_runtime_progress :: "('f, 'b) handler_world \<Rightarrow> u64 option" where
  "pd_runtime_progress w = (case w of (handler, f, b) \<Rightarrow> Some (fr_received_bytes (wh_receiver handler)))"

section \<open>Running a session\<close>

definition runtime_loop ::
  "'n curl_api \<Rightarrow> ('f, 'b) handler_world pd_receiver_protocol option \<Rightarrow> 'e pd_receiver_loop_event_fn option \<Rightarrow>
   (('f, 'b) handler_world, 'n pd_win32_runtime_io, 'e) pd_receiver_loop" where
  "runtime_loop api protocol event_callback =
     \<lparr>lp_io_ops = Some \<lparr>io_receive_frame = Some (pd_runtime_receive_frame api), io_send_frame = Some (pd_runtime_send_frame api)\<rparr>,
      lp_protocol = protocol, lp_progress = Some pd_runtime_progress, lp_event_callback = event_callback\<rparr>"

definition loop_result_code :: "pd_receiver_loop_result \<Rightarrow> pd_win32_receiver_runtime_result" where
  "loop_result_code loop_result =
     (if loop_result = PD_RECEIVER_LOOP_OK then PD_WIN32_RECEIVER_RUNTIME_OK
      else if loop_result = PD_RECEIVER_LOOP_RECEIVE_ERROR \<or> loop_result = PD_RECEIVER_LOOP_SEND_ERROR
      then PD_WIN32_RECEIVER_RUNTIME_RELAY_ERROR
      else PD_WIN32_RECEIVER_RUNTIME_PROTOCOL_ERROR)"

text \<open>From a registered session to the end of the loop, before the label that closes the session.\<close>

definition runtime_transfer ::
  "'n curl_api \<Rightarrow> 'f win32_file_api \<Rightarrow> 'b bcrypt_api \<Rightarrow> u8 list option \<Rightarrow> u8 list option \<Rightarrow> wchar list option \<Rightarrow>
   'e pd_receiver_loop_event_fn option \<Rightarrow> 'n \<Rightarrow> 'f \<Rightarrow> 'b \<Rightarrow> 'e \<Rightarrow>
   (pd_win32_receiver_runtime_result \<times> 'n \<times> 'f \<times> 'b \<times> 'e) option" where
  "runtime_transfer api fapi bapi receiver_url receiver_secret jobs_root_directory event_callback n f b e = do {
     (ir, relay, n) \<leftarrow> pd_win32_relay_client_init api (Some zero_client) receiver_url receiver_secret n;
     if ir \<noteq> PD_RELAY_CLIENT_OK then Some (PD_WIN32_RECEIVER_RUNTIME_RELAY_ERROR, n, f, b, e)
     else do {
       (cr, relay, n) \<leftarrow> pd_win32_relay_client_connect api relay n;
       if cr \<noteq> PD_RELAY_CLIENT_OK
       then do {
         (_, n) \<leftarrow> pd_win32_relay_client_cleanup api relay n;
         Some (PD_WIN32_RECEIVER_RUNTIME_RELAY_ERROR, n, f, b, e) }
       else do {
         (hr, handler) \<leftarrow> pd_win32_receive_handler_init (Some zero_handler) jobs_root_directory;
         if hr \<noteq> PD_WIN32_RECEIVE_HANDLER_OK
         then do {
           (_, n) \<leftarrow> pd_win32_relay_client_cleanup api relay n;
           Some (PD_WIN32_RECEIVER_RUNTIME_STORAGE_ERROR, n, f, b, e) }
         else do {
           let (pr, protocol) = pd_receiver_protocol_init
             (Some \<lparr>rp_ops = None, rp_current_file = pd_file_begin_zero, rp_sanitized_filename = replicate PD_FILENAME_CAPACITY 0,
                rp_state = PD_RECEIVER_PROTOCOL_WAIT_FILE, rp_file_active = False\<rparr>)
             (Some (pd_win32_receive_handler_ops fapi bapi));
           if pr \<noteq> PD_RECEIVER_PROTOCOL_OK
           then do {
             (_, n) \<leftarrow> pd_win32_relay_client_cleanup api relay n;
             Some (PD_WIN32_RECEIVER_RUNTIME_PROTOCOL_ERROR, n, f, b, e) }
           else do {
             relay \<leftarrow> relay;
             handler \<leftarrow> handler;
             (loop_result, _, (handler, f, b), (relay, n), e) \<leftarrow>
               pd_receiver_loop_run (Some (runtime_loop api protocol event_callback)) (handler, f, b) (relay, n) e;
             (_, n) \<leftarrow> pd_win32_relay_client_cleanup api (Some relay) n;
             Some (loop_result_code loop_result, n, f, b, e) } } } } }"

definition pd_win32_receiver_run_session ::
  "'n curl_api \<Rightarrow> 'f win32_file_api \<Rightarrow> 'b bcrypt_api \<Rightarrow> u8 list option \<Rightarrow> pd_receiver_session option \<Rightarrow> wchar list option \<Rightarrow>
   'e pd_receiver_loop_event_fn option \<Rightarrow> 'n \<Rightarrow> 'f \<Rightarrow> 'b \<Rightarrow> 'e \<Rightarrow>
   (pd_win32_receiver_runtime_result \<times> pd_receiver_session option \<times> 'n \<times> 'f \<times> 'b \<times> 'e) option" where
  "pd_win32_receiver_run_session api fapi bapi relay_https_base_url session jobs_root_directory event_callback n f b e =
     (case (relay_https_base_url, session, jobs_root_directory) of
        (Some _, Some s, Some _) \<Rightarrow> do {
          invalid \<leftarrow> c_or (Some (rs_state s \<noteq> PD_RECEIVER_SESSION_WAITING))
            (c_or (do { c \<leftarrow> rd (rs_token s) 0; Some (c = 0) }) (do { c \<leftarrow> rd (rs_receiver_secret s) 0; Some (c = 0) }));
          if invalid then Some (PD_WIN32_RECEIVER_RUNTIME_INVALID_ARGUMENT, session, n, f, b, e)
          else do {
            (ur, receiver_url) \<leftarrow> pd_relay_build_receiver_wss_url relay_https_base_url (Some (rs_token s))
              (Some (replicate PD_RELAY_ENDPOINT_CAPACITY 0)) PD_RELAY_ENDPOINT_CAPACITY;
            if ur \<noteq> PD_RELAY_ENDPOINT_OK then Some (PD_WIN32_RECEIVER_RUNTIME_ENDPOINT_ERROR, session, n, f, b, e)
            else do {
              let (curl_initialized, n) = pd_win32_curl_global_init api n;
              if \<not> curl_initialized then Some (PD_WIN32_RECEIVER_RUNTIME_RELAY_ERROR, session, n, f, b, e)
              else do {
                (registration_result, _, _, n) \<leftarrow> pd_win32_relay_register_session api relay_https_base_url (Some (rs_token s))
                  (Some (rs_receiver_secret s)) (Some (replicate PD_RELAY_ERROR_CAPACITY 0)) PD_RELAY_ERROR_CAPACITY n;
                if registration_result \<noteq> PD_WIN32_RELAY_REGISTRATION_OK
                then Some (PD_WIN32_RECEIVER_RUNTIME_REGISTRATION_ERROR, session, pd_win32_curl_global_cleanup api n, f, b, e)
                else do {
                  (result, n, f, b, e) \<leftarrow> runtime_transfer api fapi bapi receiver_url (Some (rs_receiver_secret s))
                    jobs_root_directory event_callback n f b e;
                  session \<leftarrow> pd_receiver_session_close session;
                  Some (result, session, pd_win32_curl_global_cleanup api n, f, b, e) } } } } }
      | _ \<Rightarrow> Some (PD_WIN32_RECEIVER_RUNTIME_INVALID_ARGUMENT, session, n, f, b, e))"

section \<open>The relay client as the transport of the loop\<close>

text \<open>While the loop runs, the client keeps its resources and no other network resource changes.\<close>

definition runtime_io_inv where
  "runtime_io_inv net_ok net_live c0 n0 io \<longleftrightarrow> (case io of (c, n) \<Rightarrow>
     client_inv net_ok net_live c n \<and> rc_easy_handle c \<noteq> 0 \<and> rc_message_buffer c \<noteq> 0 \<and>
     same_client c0 c \<and> net_live n = net_live n0)"

context curl_finite
begin

lemma runtime_receive_returns:
  assumes "runtime_io_inv net_ok live c0 n0 io"
  shows "\<exists>ok h payload k io'. pd_runtime_receive_frame api io = Some (ok, h, payload, k, io') \<and> runtime_io_inv net_ok live c0 n0 io' \<and>
    (ok \<longrightarrow> k \<le> length (the_default [] payload) \<and> (payload = None \<longrightarrow> k = 0))"
proof -
  let ?Q = "\<lambda>(ok, h, payload, k, io'). runtime_io_inv net_ok live c0 n0 io' \<and>
    (ok \<longrightarrow> k \<le> length (the_default [] payload) \<and> (payload = None \<longrightarrow> k = 0))"
  have "\<exists>x. iterate (runtime_receive_step api) io = Some x \<and> ?Q x"
  proof (rule iterate_returns [where I = "runtime_io_inv net_ok live c0 n0" and m = "\<lambda>io. patience (snd io)"])
    fix io assume i: "runtime_io_inv net_ok live c0 n0 io"
    obtain c n where io: "io = (c, n)" by fastforce
    have rd: "ready c n" using i by (simp add: io runtime_io_inv_def)
    obtain r c' v' n' where f: "pd_win32_relay_client_receive_frame api (Some c) (Some blank_view) n = Some (r, Some c', Some v', n')"
      "received_frame c n (r, c', v', n')" using receive_frame_spec [OF rd] by blast
    then have same: "same_client c c'" "net_ok n'" "live n' = live n" by (simp_all add: received_frame_def)
    then have inv: "runtime_io_inv net_ok live c0 n0 (c', n')"
      using i same_client_ready [OF same rd] by (auto simp: io runtime_io_inv_def same_client_def)
    have sz: "rv_payload_size v' \<le> length (the_default [] (rv_payload v')) \<and> (rv_payload v' = None \<longrightarrow> rv_payload_size v' = 0)"
      if "r = PD_RELAY_CLIENT_OK"
      using f(2) that by (cases "rv_payload v'") (auto simp: received_frame_def view_payload_def)
    have pat: "patience n' < patience n" if "r = PD_RELAY_CLIENT_TIMEOUT" using f(2) that by (simp add: received_frame_def)
    show "\<exists>x. runtime_receive_step api io = Some x \<and>
        (case x of Inl y \<Rightarrow> ?Q y | Inr io' \<Rightarrow> runtime_io_inv net_ok live c0 n0 io' \<and> patience (snd io') < patience (snd io))"
      using f(1) inv sz pat by (auto simp: io runtime_receive_step_def)
  qed (rule assms)
  then show ?thesis by (auto simp: pd_runtime_receive_frame_def)
qed

lemma runtime_send_returns:
  assumes "runtime_io_inv net_ok live c0 n0 io" and "k \<le> length d"
  shows "\<exists>ok io'. pd_runtime_send_frame api io (Some h) (Some d) k = Some (ok, io') \<and> runtime_io_inv net_ok live c0 n0 io'"
proof -
  obtain c n where io: "io = (c, n)" by fastforce
  have rd: "ready c n" using assms(1) by (simp add: io runtime_io_inv_def)
  obtain r c' n' where s: "pd_win32_relay_client_send_frame api (Some c) (Some h) (Some d) k n = Some (r, Some c', n')"
    "same_client c c'" "net_ok n'" "live n' = live n" using send_frame_spec [OF rd assms(2)] by blast
  have "runtime_io_inv net_ok live c0 n0 (c', n')"
    using assms(1) s same_client_ready [OF s(2-4) rd] by (auto simp: io runtime_io_inv_def same_client_def)
  then show ?thesis using s(1) by (simp add: io pd_runtime_send_frame_def)
qed

lemma runtime_loop_io: "loop_io (pd_runtime_receive_frame api) (pd_runtime_send_frame api) (runtime_io_inv net_ok live c0 n0)"
  using runtime_receive_returns runtime_send_returns by unfold_locales

end

text \<open>
  A transfer that succeeded: over a connection made with the relay address and the secret, the loop had
  the conversation that delivers a file, and the file is where the handler put it.
\<close>

definition transfer_delivered ::
  "'n curl_api \<Rightarrow> ('n \<Rightarrow> net_handle \<Rightarrow> u8 list list) \<Rightarrow> ('n \<Rightarrow> net_handle \<Rightarrow> curl_option list) \<Rightarrow>
   (('f, 'b) handler_world \<Rightarrow> u8 list option) \<Rightarrow> (u8 list \<Rightarrow> u8 list) \<Rightarrow> u8 list \<Rightarrow> u8 list \<Rightarrow> 'f \<Rightarrow> 'b \<Rightarrow> bool" where
  "transfer_delivered api items options delivered hash url secret f' b' \<longleftrightarrow> (\<exists>c n1 h' io'.
     rc_state c = PD_RELAY_CLIENT_CONNECTED \<and> relay_connection url secret (items n1) (options n1 (rc_easy_handle c)) \<and>
     loop_delivered (io_trace (pd_runtime_receive_frame api) (pd_runtime_send_frame api)) delivered hash (c, n1) (h', f', b') io')"

section \<open>The services of the runtime\<close>

locale runtime_env =
  win32_env fapi canon files opened root bapi live hashing hash +
  curl_finite api net_ok net_live items options outgoing inbox in_part patience +
  curl_requests api net_ok net_live items options outgoing inbox in_part requests
  for fapi :: "'f win32_file_api" and canon :: "wchar list \<Rightarrow> 'k" and files opened root
    and bapi :: "'b bcrypt_api" and live hashing hash
    and api :: "'n curl_api" and net_ok net_live items options outgoing inbox in_part patience requests +
  fixes event_op :: "'e pd_receiver_loop_event_fn"
  assumes event_returns: "\<exists>e'. event_op e event received announced = Some e'"

context runtime_env
begin

lemma runtime_loop_env:
  "loop_env (handler_begin_fn fapi bapi) handler_chunk_fn handler_finish_fn handler_abort_fn winv wcurrent wdelivered hash
     (pd_runtime_receive_frame api) (pd_runtime_send_frame api) (runtime_io_inv net_ok net_live c0 n0) pd_runtime_progress event_op"
  using win_handler.receive_handler_axioms runtime_loop_io event_returns
  by (auto simp: loop_env_def loop_env_axioms_def pd_runtime_progress_def)


lemma handler_ready:
  assumes "0 \<in> set dir" and "w_str dir = root" and "pd_win32_receive_handler_init (Some h0) (Some dir) = Some (PD_WIN32_RECEIVE_HANDLER_OK, handler)"
  shows "\<exists>h. handler = Some h \<and> winv (h, f, b) \<and> wcurrent (h, f, b) = None"
proof -
  have short: "root \<noteq> []" "length root < 260"
    and h: "handler = Some (zero_handler\<lparr>wh_root_directory := root @ replicate (260 - length root) 0, wh_initialized := True\<rparr>)"
    using assms handler_init_eq [OF assms(1), of h0] by (auto split: if_splits)
  have nul: "0 \<notin> set root" using assms(2) w_str_no_nul by blast
  have "root @ replicate (260 - length root) 0 = padded root" by (simp add: padded_def)
  then show ?thesis
    using h padded_shape [OF nul short(2)] by (simp add: handler_views handler_shape_def zero_handler_def)
qed

lemma transfer_loop_spec:
  assumes "runtime_io_inv net_ok net_live c n io" and "winv w" and "wcurrent w = None"
    and "event_callback = None \<or> event_callback = Some event_op"
  shows "\<exists>res loop' w' io' e'. pd_receiver_loop_run (Some (runtime_loop api
      (Some \<lparr>rp_ops = Some (pd_win32_receive_handler_ops fapi bapi), rp_current_file = pd_file_begin_zero,
        rp_sanitized_filename = replicate PD_FILENAME_CAPACITY 0, rp_state = PD_RECEIVER_PROTOCOL_WAIT_FILE, rp_file_active = False\<rparr>)
      event_callback)) w io e = Some (res, loop', w', io', e') \<and>
    runtime_io_inv net_ok net_live c n io' \<and>
    (res = PD_RECEIVER_LOOP_OK \<longrightarrow>
       loop_delivered (io_trace (pd_runtime_receive_frame api) (pd_runtime_send_frame api)) wdelivered hash io w' io')"
proof -
  let ?p = "\<lparr>rp_ops = Some (pd_win32_receive_handler_ops fapi bapi), rp_current_file = pd_file_begin_zero,
        rp_sanitized_filename = replicate PD_FILENAME_CAPACITY 0, rp_state = PD_RECEIVER_PROTOCOL_WAIT_FILE, rp_file_active = False\<rparr>"
  have w: "loop_wired (pd_runtime_receive_frame api) (pd_runtime_send_frame api) pd_runtime_progress event_op (runtime_loop api (Some ?p) event_callback)"
    using assms(4) by (auto simp: loop_wired_def runtime_loop_def)
  have p: "lp_protocol (runtime_loop api (Some ?p) event_callback) = Some ?p" by (simp add: runtime_loop_def)
  have inv: "protocol_inv (handler_table (handler_begin_fn fapi bapi) handler_chunk_fn handler_finish_fn handler_abort_fn) winv wcurrent ?p w"
    using assms(2,3) by (simp add: protocol_inv_def pd_win32_receive_handler_ops_def)
  show ?thesis using loop_env.run_spec [OF runtime_loop_env w p inv assms(1), of e] by simp blast
qed

lemma transfer_spec:
  assumes "net_ok n" and "0 \<in> set url" and "0 \<in> set secret" and "0 \<in> set dir" and "w_str dir = root"
    and "event_callback = None \<or> event_callback = Some event_op"
  shows "\<exists>res n' f' b' e'. runtime_transfer api fapi bapi (Some url) (Some secret) (Some dir) event_callback n f b e =
      Some (res, n', f', b', e') \<and> net_ok n' \<and> net_live n' = net_live n \<and>
    (res = PD_WIN32_RECEIVER_RUNTIME_OK \<longrightarrow> transfer_delivered api items options wdelivered hash (c_str url) (c_str secret) f' b') \<and>
    res \<in> {PD_WIN32_RECEIVER_RUNTIME_OK, PD_WIN32_RECEIVER_RUNTIME_RELAY_ERROR, PD_WIN32_RECEIVER_RUNTIME_STORAGE_ERROR,
      PD_WIN32_RECEIVER_RUNTIME_PROTOCOL_ERROR}"
proof -
  obtain ir c n1 where i: "pd_win32_relay_client_init api (Some zero_client) (Some url) (Some secret) n = Some (ir, Some c, n1)"
    "client_init_outcome api net_ok net_live items options url secret n ir c n1"
    using client_init_spec [OF assms(1-3)] by blast
  show ?thesis
  proof (cases "ir = PD_RELAY_CLIENT_OK")
    case False
    then have "net_ok n1 \<and> net_live n1 = net_live n" using i(2) assms(1) by (auto simp: client_init_outcome_def split: if_splits)
    then show ?thesis using i(1) False by (simp add: runtime_transfer_def)
  next
    case True
    then have ci: "client_inv net_ok net_live c n1" and pr: "client_prepared net_live items options n (c_str url) (c_str secret) c n1"
      using i(2) by (auto simp: client_init_outcome_def split: if_splits)
    obtain cr c2 n2 where co: "pd_win32_relay_client_connect api (Some c) n1 = Some (cr, Some c2, n2)" "same_client c c2" "net_ok n2"
      "(net_live n2, items n2, options n2) = (net_live n1, items n1, options n1)"
      "cr = PD_RELAY_CLIENT_OK \<longrightarrow> rc_state c = PD_RELAY_CLIENT_PREPARED \<and> rc_state c2 = PD_RELAY_CLIENT_CONNECTED \<and>
       rc_easy_handle c \<noteq> 0 \<and> \<not> in_part n2 (rc_easy_handle c)"
      using connect_spec [OF ci] by blast
    have io: "runtime_io_inv net_ok net_live c n1 (c2, n2)"
      using co ci pr by (auto simp: runtime_io_inv_def client_inv_def same_client_def client_prepared_def)
    have shut: "\<exists>c' n'. pd_win32_relay_client_cleanup api (Some x) m = Some (c', n') \<and> net_ok n' \<and> net_live n' = net_live n"
      if "runtime_io_inv net_ok net_live c n1 (x, m)" for x m
    proof -
      have x: "client_inv net_ok net_live x m" "client_owned x = client_owned c" "net_live m = net_live n1"
        using that by (simp_all add: runtime_io_inv_def same_client_def client_owned_def)
      have "net_live n1 - client_owned c = net_live n" using pr by (auto simp: client_prepared_def)
      then show ?thesis using cleanup_spec [OF x(1)] x by auto
    qed
    obtain d2 m2 where d2: "pd_win32_relay_client_cleanup api (Some c2) n2 = Some (d2, m2)" "net_ok m2" "net_live m2 = net_live n"
      using shut [OF io] by blast
    obtain hr handler where hi: "pd_win32_receive_handler_init (Some (zero_handler :: ('f, 'b) pd_win32_receive_handler)) (Some dir) = Some (hr, handler)"
      using handler_init_eq [OF assms(4)] by (metis surj_pair)
    show ?thesis
    proof (cases "cr = PD_RELAY_CLIENT_OK \<and> hr = PD_WIN32_RECEIVE_HANDLER_OK")
      case False
      then show ?thesis using i(1) True co(1) hi d2 by (cases "cr = PD_RELAY_CLIENT_OK") (simp_all add: runtime_transfer_def)
    next
      case ok: True
      obtain h where h: "handler = Some h" "winv (h, f, b)" "wcurrent (h, f, b) = None"
        using handler_ready [OF assms(4,5)] hi ok by metis
      obtain lr lp h' f' b' c3 n3 e' where l: "pd_receiver_loop_run (Some (runtime_loop api
          (Some \<lparr>rp_ops = Some (pd_win32_receive_handler_ops fapi bapi), rp_current_file = pd_file_begin_zero,
            rp_sanitized_filename = replicate PD_FILENAME_CAPACITY 0, rp_state = PD_RECEIVER_PROTOCOL_WAIT_FILE, rp_file_active = False\<rparr>)
          event_callback)) (h, f, b) (c2, n2) e = Some (lr, lp, (h', f', b'), (c3, n3), e')"
        "runtime_io_inv net_ok net_live c n1 (c3, n3)"
        "lr = PD_RECEIVER_LOOP_OK \<longrightarrow> loop_delivered (io_trace (pd_runtime_receive_frame api) (pd_runtime_send_frame api)) wdelivered hash (c2, n2) (h', f', b') (c3, n3)"
        using transfer_loop_spec [OF io h(2,3) assms(6), of e] by (metis surj_pair)
      obtain d3 m3 where d3: "pd_win32_relay_client_cleanup api (Some c3) n3 = Some (d3, m3)" "net_ok m3" "net_live m3 = net_live n"
        using shut [OF l(2)] by blast
      have "pd_receiver_protocol_ops_valid (Some (pd_win32_receive_handler_ops fapi bapi))"
        by (simp add: pd_receiver_protocol_ops_valid_def pd_win32_receive_handler_ops_def handler_table_def)
      then have run: "runtime_transfer api fapi bapi (Some url) (Some secret) (Some dir) event_callback n f b e =
          Some (loop_result_code lr, m3, f', b', e')"
        using i(1) True co(1) hi ok h(1) l(1) d3(1) by (simp add: runtime_transfer_def pd_receiver_protocol_init_def)
      have "transfer_delivered api items options wdelivered hash (c_str url) (c_str secret) f' b'" if "loop_result_code lr = PD_WIN32_RECEIVER_RUNTIME_OK"
        unfolding transfer_delivered_def
        by (intro exI [of _ c2] exI [of _ n2] exI [of _ h'] exI [of _ "(c3, n3)"])
          (use that l(3) co pr ok in \<open>auto simp: loop_result_code_def client_prepared_def same_client_def split: if_splits\<close>)
      then show ?thesis using run d3 by (simp add: loop_result_code_def)
    qed
  qed
qed

end

section \<open>What a session run does\<close>

definition session_closed :: "pd_receiver_session \<Rightarrow> pd_receiver_session" where
  "session_closed s = s\<lparr>rs_token := replicate 33 0, rs_receiver_secret := replicate 65 0, rs_state := PD_RECEIVER_SESSION_CLOSED\<rparr>"

text \<open>
  The outcomes of a run. Only three exits leave the session as it was: it is refused before anything
  happens, libcurl does not start, or the registration is not accepted. Once the registration is accepted
  the session ends closed, with its credentials erased, whatever fails later. \<open>base\<close> is the memory of the
  relay address; every exit after \<^verbatim>\<open>curl_global_init\<close> has called \<^verbatim>\<open>curl_global_cleanup\<close> last.
\<close>

definition run_outcome where
  "run_outcome api net_ok net_live items options requests delivered hash base s n f b e res s' n' f' b' e' \<longleftrightarrow>
     (if rs_state s \<noteq> PD_RECEIVER_SESSION_WAITING
      then res = PD_WIN32_RECEIVER_RUNTIME_INVALID_ARGUMENT \<and> s' = s \<and> n' = n \<and> (f', b', e') = (f, b, e)
      else case relay_base (c_str base) of
        None \<Rightarrow> res = PD_WIN32_RECEIVER_RUNTIME_ENDPOINT_ERROR \<and> s' = s \<and> n' = n \<and> (f', b', e') = (f, b, e)
      | Some (secure, host) \<Rightarrow> (case curl_global_init api n of (code, n1) \<Rightarrow>
          if code \<noteq> 0 then res = PD_WIN32_RECEIVER_RUNTIME_RELAY_ERROR \<and> s' = s \<and> n' = n1 \<and> (f', b', e') = (f, b, e)
          else (\<exists>registered t locals n2 n3.
            pd_win32_relay_register_session api (Some base) (Some (rs_token s)) (Some (rs_receiver_secret s))
              (Some (replicate 256 0)) 256 n1 = Some (registered, t, locals, n2) \<and>
            registration_outcome api net_ok net_live requests (c_str base) (c_str (rs_token s)) (c_str (rs_receiver_secret s))
              (Some (replicate 256 0)) n1 registered t locals n2 \<and>
            n' = curl_global_cleanup api n3 \<and>
            (if registered \<noteq> PD_WIN32_RELAY_REGISTRATION_OK
             then res = PD_WIN32_RECEIVER_RUNTIME_REGISTRATION_ERROR \<and> s' = s \<and> n3 = n2 \<and> (f', b', e') = (f, b, e)
             else s' = session_closed s \<and>
               res \<in> {PD_WIN32_RECEIVER_RUNTIME_OK, PD_WIN32_RECEIVER_RUNTIME_RELAY_ERROR,
                 PD_WIN32_RECEIVER_RUNTIME_STORAGE_ERROR, PD_WIN32_RECEIVER_RUNTIME_PROTOCOL_ERROR} \<and>
               (res = PD_WIN32_RECEIVER_RUNTIME_OK \<longrightarrow>
                 transfer_delivered api items options delivered hash (ws_scheme secure @ host @ receiver_path @ c_str (rs_token s))
                   (c_str (rs_receiver_secret s)) f' b')))))"

lemma ws_url_no_nul:
  assumes "relay_base (c_str base) = Some (secure, host)"
  shows "0 \<notin> set (ws_scheme secure @ host @ receiver_path @ c_str token)"
  using relay_base_set [OF assms] path_no_nul(1) c_str_no_nul
  by (auto simp: ws_scheme_def wss_prefix_def ws_prefix_def c_lit_def)

lemma waiting_session:
  assumes "session_inv s" and "rs_state s = PD_RECEIVER_SESSION_WAITING"
  shows "lower_hex 32 (c_str (rs_token s))" and "lower_hex 64 (c_str (rs_receiver_secret s))"
    and "0 \<in> set (rs_token s)" and "0 \<in> set (rs_receiver_secret s)"
    and "\<exists>t. rd (rs_token s) 0 = Some t \<and> t \<noteq> 0" and "\<exists>t. rd (rs_receiver_secret s) 0 = Some t \<and> t \<noteq> 0"
    and "pd_receiver_session_close (Some s) = Some (Some (session_closed s))"
proof -
  obtain t k where t: "lower_hex 32 t" "lower_hex 64 k" "rs_token s = t @ [0]" "rs_receiver_secret s = k @ [0]"
    using assms by (auto simp: session_inv_def session_live_def)
  have n: "0 \<notin> set t" "0 \<notin> set k" using t(1,2) lower_hex_no_nul by blast+
  show "lower_hex 32 (c_str (rs_token s))" "lower_hex 64 (c_str (rs_receiver_secret s))" "0 \<in> set (rs_token s)" "0 \<in> set (rs_receiver_secret s)"
    using t n by simp_all
  show "\<exists>t. rd (rs_token s) 0 = Some t \<and> t \<noteq> 0" "\<exists>t. rd (rs_receiver_secret s) 0 = Some t \<and> t \<noteq> 0"
    using t n lower_hex_length [OF t(1)] lower_hex_length [OF t(2)] by (cases t; cases k; auto simp: rd_def)+
  show "pd_receiver_session_close (Some s) = Some (Some (session_closed s))"
    using t assms(2) lower_hex_length [OF t(1)] lower_hex_length [OF t(2)]
    by (simp add: pd_receiver_session_close_def pd_receiver_session_clear_credentials_eq session_closed_def)
qed

context runtime_env
begin

lemma run_session_spec:
  assumes "net_ok n" and "0 \<in> set base" and "session_inv s" and "0 \<in> set dir" and "w_str dir = root"
    and "event_callback = None \<or> event_callback = Some event_op"
  shows "\<exists>res s' n' f' b' e'. pd_win32_receiver_run_session api fapi bapi (Some base) (Some s) (Some dir) event_callback n f b e =
      Some (res, Some s', n', f', b', e') \<and> net_ok n' \<and> net_live n' = net_live n \<and>
    run_outcome api net_ok net_live items options requests wdelivered hash base s n f b e res s' n' f' b' e'"
proof (cases "rs_state s = PD_RECEIVER_SESSION_WAITING")
  case False
  then show ?thesis using assms(1) by (simp add: pd_win32_receiver_run_session_def run_outcome_def)
next
  case True
  note w = waiting_session [OF assms(3) True]
  have first: "c_or (Some (rs_state s \<noteq> PD_RECEIVER_SESSION_WAITING))
      (c_or (do { c \<leftarrow> rd (rs_token s) 0; Some (c = 0) }) (do { c \<leftarrow> rd (rs_receiver_secret s) 0; Some (c = 0) })) = Some False"
    using True w(5,6) by auto
  have url: "pd_relay_build_receiver_wss_url (Some base) (Some (rs_token s)) (Some (replicate 512 0)) 512 = Some (
      case relay_base (c_str base) of None \<Rightarrow> (PD_RELAY_ENDPOINT_INVALID_BASE_URL, Some (replicate 512 0))
      | Some (secure, host) \<Rightarrow> (let url = ws_scheme secure @ host @ receiver_path @ c_str (rs_token s) in
          (PD_RELAY_ENDPOINT_OK, Some (url @ 0 # drop (length url + 1) (replicate 512 0)))))"
    using ws_path_full [OF assms(2) w(3) _ path_no_nul(1), of "replicate 512 0"] w(1)
    by (simp add: pd_relay_build_receiver_wss_url_def)
  show ?thesis
  proof (cases "relay_base (c_str base)")
    case None
    then show ?thesis using assms(1) True first url by (simp add: pd_win32_receiver_run_session_def run_outcome_def)
  next
    case (Some x)
    then obtain secure host where rb: "relay_base (c_str base) = Some (secure, host)" by (cases x) auto
    let ?u = "ws_scheme secure @ host @ receiver_path @ c_str (rs_token s)"
    let ?U = "?u @ 0 # drop (length ?u + 1) (replicate 512 0)"
    have u: "pd_relay_build_receiver_wss_url (Some base) (Some (rs_token s)) (Some (replicate 512 0)) 512 = Some (PD_RELAY_ENDPOINT_OK, Some ?U)"
      using url rb by (simp add: Let_def)
    have nul: "0 \<in> set ?U" "c_str ?U = ?u" by simp (rule c_str_terminated [OF ws_url_no_nul [OF rb]])
    obtain code n1 where g: "curl_global_init api n = (code, n1)" by fastforce
    have n1: "net_ok n1" "net_live n1 = net_live n" using global_init [OF assms(1) g] by simp_all
    obtain rr t' auth n2 where r: "pd_win32_relay_register_session api (Some base) (Some (rs_token s)) (Some (rs_receiver_secret s))
        (Some (replicate 256 0)) 256 n1 = Some (rr, t', auth, n2)"
      "registration_outcome api net_ok net_live requests (c_str base) (c_str (rs_token s)) (c_str (rs_receiver_secret s))
         (Some (replicate 256 0)) n1 rr t' auth n2"
      using register_spec [OF n1(1) assms(2) w(3,4), of 256 "Some (replicate 256 0)"] by auto
    have n2: "net_ok n2" "net_live n2 = net_live n" using r(2) n1 by (auto simp: registration_outcome_def split: if_splits)
    obtain res n3 f' b' e' where t: "runtime_transfer api fapi bapi (Some ?U) (Some (rs_receiver_secret s)) (Some dir) event_callback n2 f b e =
        Some (res, n3, f', b', e')" "net_ok n3" "net_live n3 = net_live n2"
      "res = PD_WIN32_RECEIVER_RUNTIME_OK \<longrightarrow> transfer_delivered api items options wdelivered hash ?u (c_str (rs_receiver_secret s)) f' b'"
      "res \<in> {PD_WIN32_RECEIVER_RUNTIME_OK, PD_WIN32_RECEIVER_RUNTIME_RELAY_ERROR, PD_WIN32_RECEIVER_RUNTIME_STORAGE_ERROR,
        PD_WIN32_RECEIVER_RUNTIME_PROTOCOL_ERROR}"
      using transfer_spec [OF n2(1) nul(1) w(4) assms(4-6), of f b e] unfolding nul(2) by blast
    note gc = global_cleanup [OF n2(1)] global_cleanup [OF t(2)]
    note run_def = pd_win32_receiver_run_session_def pd_win32_curl_global_init_def pd_win32_curl_global_cleanup_def run_outcome_def
    consider (start) "code \<noteq> CURLE_OK" | (refused) "code = CURLE_OK" "rr \<noteq> PD_WIN32_RELAY_REGISTRATION_OK"
      | (ok) "code = CURLE_OK" "rr = PD_WIN32_RELAY_REGISTRATION_OK" by blast
    then show ?thesis
    proof cases
      case start
      then show ?thesis using True first u g n1 rb by (simp add: run_def CURLE_OK_def)
    next
      case refused
      then have "pd_win32_receiver_run_session api fapi bapi (Some base) (Some s) (Some dir) event_callback n f b e =
          Some (PD_WIN32_RECEIVER_RUNTIME_REGISTRATION_ERROR, Some s, curl_global_cleanup api n2, f, b, e)"
        using True first u g r(1) by (simp add: run_def CURLE_OK_def)
      then show ?thesis using True rb g refused r gc(1) n2(2)
        by (auto simp: run_outcome_def CURLE_OK_def intro!: exI [of _ rr] exI [of _ t'] exI [of _ auth] exI [of _ n2])
    next
      case ok
      have "pd_win32_receiver_run_session api fapi bapi (Some base) (Some s) (Some dir) event_callback n f b e =
          Some (res, Some (session_closed s), curl_global_cleanup api n3, f', b', e')"
        using True first u g r(1) ok t(1) w(7) by (simp add: run_def)
      moreover have "run_outcome api net_ok net_live items options requests wdelivered hash base s n f b e res (session_closed s)
          (curl_global_cleanup api n3) f' b' e'"
        unfolding run_outcome_def
        using True rb g r t(4,5) ok
        by (simp add: CURLE_OK_def) (intro exI [of _ t'] exI [of _ auth] exI [of _ n2] exI [of _ n3] conjI; simp)
      ultimately show ?thesis using gc(2) t(3) n2(2) by simp
    qed
  qed
qed

end

interpretation mem_runtime: runtime_env mem_file_api "\<lambda>p. p" mf_files mf_open "w_lit ''C:''" mem_bcrypt mb_live mb_hashing checksum
  mem_curl "\<lambda>_. True" mn_live "\<lambda>n. at_one [] (mn_items n)" "\<lambda>n. at_one [] (mn_options n)"
  "\<lambda>n. at_one [] (mn_out n)" "\<lambda>n. at_one [] (concat (mn_frames n))" "\<lambda>n. at_one False False" "\<lambda>n. length (mn_frames n)" mn_requests collect
  by unfold_locales (simp add: collect_def)

section \<open>The correctness of the runtime\<close>



end
