(* ===== verification/PD_QrCode.thy ===== *)
theory PD_QrCode
  imports PD_Prelude "HOL-Library.Signed_Division"
begin

text \<open>
  The QR code of a session link: the wrapper around the generator (\<^verbatim>\<open>qr.c\<close>) and the placement of its
  modules in the window (\<^verbatim>\<open>pd_draw_qr\<close> of \<^verbatim>\<open>win32_main.c\<close>). The generator is third-party code: a record
  of functions, with what its documentation promises in the locale \<open>qr_generator\<close>.
\<close>

section \<open>The wrapper\<close>

definition PD_QR_MAX_VERSION :: nat where "PD_QR_MAX_VERSION = 10"
definition PD_QR_STORAGE_CAPACITY :: nat where "PD_QR_STORAGE_CAPACITY = 512"

datatype pd_qr_result =
    PD_QR_OK
  | PD_QR_INVALID_ARGUMENT
  | PD_QR_DATA_TOO_LONG

record pd_qr_code =
  qr_encoded :: "u8 list"
  qr_size :: int

text \<open>The encoder takes a text, the output buffer and the largest version; it also uses a scratch buffer.\<close>

record qr_api =
  qrcodegen_encodeText :: "u8 list \<Rightarrow> u8 list \<Rightarrow> nat \<Rightarrow> bool \<times> u8 list"
  qrcodegen_getSize :: "u8 list \<Rightarrow> int"
  qrcodegen_getModule :: "u8 list \<Rightarrow> int \<Rightarrow> int \<Rightarrow> bool"

definition pd_qr_encode_text :: "qr_api \<Rightarrow> pd_qr_code option \<Rightarrow> u8 list option \<Rightarrow> (pd_qr_result \<times> pd_qr_code option) option" where
  "pd_qr_encode_text api code text =
     (case (code, text) of
        (Some _, Some t) \<Rightarrow> do {
          first \<leftarrow> rd t 0;
          if first = 0 then Some (PD_QR_INVALID_ARGUMENT, code)
          else do {
            let c = \<lparr>qr_encoded = replicate PD_QR_STORAGE_CAPACITY 0, qr_size = 0\<rparr>;
            n \<leftarrow> strlen t;
            let (success, encoded) = qrcodegen_encodeText api (take n t) (qr_encoded c) PD_QR_MAX_VERSION;
            let c = c\<lparr>qr_encoded := encoded\<rparr>;
            Some (if \<not> success then (PD_QR_DATA_TOO_LONG, Some c)
                  else (PD_QR_OK, Some (c\<lparr>qr_size := qrcodegen_getSize api encoded\<rparr>))) } }
      | _ \<Rightarrow> Some (PD_QR_INVALID_ARGUMENT, code))"

definition pd_qr_size :: "pd_qr_code option \<Rightarrow> int" where
  "pd_qr_size code = (case code of None \<Rightarrow> 0 | Some c \<Rightarrow> qr_size c)"

definition pd_qr_get_module :: "qr_api \<Rightarrow> pd_qr_code option \<Rightarrow> int \<Rightarrow> int \<Rightarrow> bool" where
  "pd_qr_get_module api code x y =
     (case code of
        None \<Rightarrow> False
      | Some c \<Rightarrow> if qr_size c \<le> 0 then False else qrcodegen_getModule api (qr_encoded c) x y)"

section \<open>Placing the modules\<close>

record RECT =
  rect_left :: int
  rect_top :: int
  rect_right :: int
  rect_bottom :: int

text \<open>
  The rectangles filled with black, in order; \<^verbatim>\<open>/\<close> truncates towards zero. Window coordinates stay far
  below the range of \<^verbatim>\<open>int\<close>, so they are mathematical integers here.
\<close>

definition pd_draw_qr :: "qr_api \<Rightarrow> bool \<Rightarrow> pd_qr_code option \<Rightarrow> RECT option \<Rightarrow> RECT list" where
  "pd_draw_qr api device_context qr area =
     (case (device_context, qr, area) of
        (True, Some _, Some a) \<Rightarrow>
          let quiet_modules = 4; n = pd_qr_size qr in
          if n \<le> 0 then []
          else
            let available_width = rect_right a - rect_left a;
                available_height = rect_bottom a - rect_top a;
                module_pixels = available_width sdiv (n + quiet_modules * 2);
                module_pixels = (if available_height sdiv (n + quiet_modules * 2) < module_pixels
                                 then available_height sdiv (n + quiet_modules * 2) else module_pixels) in
            if module_pixels < 1 then []
            else
              let rendered_size = module_pixels * (n + quiet_modules * 2);
                  origin_x = rect_left a + (available_width - rendered_size) sdiv 2 + quiet_modules * module_pixels;
                  origin_y = rect_top a + (available_height - rendered_size) sdiv 2 + quiet_modules * module_pixels in
              concat (map (\<lambda>y. concat (map (\<lambda>x.
                if pd_qr_get_module api qr x y
                then [\<lparr>rect_left = origin_x + x * module_pixels, rect_top = origin_y + y * module_pixels,
                       rect_right = origin_x + (x + 1) * module_pixels, rect_bottom = origin_y + (y + 1) * module_pixels\<rparr>]
                else []) [0..n - 1])) [0..n - 1])
      | _ \<Rightarrow> [])"

section \<open>What the generator promises\<close>

text \<open>An accepted text fills the buffer with a symbol of 21 to 57 modules a side, the sizes of versions 1 to 10.\<close>

locale qr_generator =
  fixes api :: qr_api
  assumes encode_size: "qrcodegen_encodeText api t buf v = (ok, enc) \<Longrightarrow> length enc = length buf \<and>
      (ok \<longrightarrow> 21 \<le> qrcodegen_getSize api enc \<and> qrcodegen_getSize api enc \<le> 4 * int v + 17)"
begin

lemma qr_encode_spec:
  assumes "0 \<in> set t" and "c_str t \<noteq> []"
  shows "\<exists>r c'. pd_qr_encode_text api (Some c) (Some t) = Some (r, Some c') \<and> length (qr_encoded c') = 512 \<and>
    (r = PD_QR_OK \<longrightarrow> qrcodegen_encodeText api (c_str t) (replicate 512 0) 10 = (True, qr_encoded c') \<and>
       21 \<le> qr_size c' \<and> qr_size c' \<le> 57 \<and> qr_size c' = qrcodegen_getSize api (qr_encoded c')) \<and>
    (r = PD_QR_OK \<longleftrightarrow> fst (qrcodegen_encodeText api (c_str t) (replicate 512 0) 10)) \<and> (r \<noteq> PD_QR_OK \<longrightarrow> r = PD_QR_DATA_TOO_LONG)"
proof -
  obtain x xs where t: "t = x # xs" "x \<noteq> 0" using assms(2) by (cases t) (auto simp: c_str_def split: if_splits)
  obtain ok enc where e: "qrcodegen_encodeText api (c_str t) (replicate 512 0) 10 = (ok, enc)" by fastforce
  have sizes: "PD_QR_STORAGE_CAPACITY = 512" "PD_QR_MAX_VERSION = 10" by (simp_all add: PD_QR_STORAGE_CAPACITY_def PD_QR_MAX_VERSION_def)
  have "rd t 0 = Some x" using t by (simp add: rd_def)
  then have "pd_qr_encode_text api (Some c) (Some t) = Some (
      if \<not> ok then (PD_QR_DATA_TOO_LONG, Some \<lparr>qr_encoded = enc, qr_size = 0\<rparr>)
      else (PD_QR_OK, Some \<lparr>qr_encoded = enc, qr_size = qrcodegen_getSize api enc\<rparr>))"
    using t(2) assms(1) e by (simp add: pd_qr_encode_text_def strlen_def sizes)
  then show ?thesis using e encode_size [OF e] by (cases ok) simp_all
qed

end

section \<open>A generator for the witnesses\<close>

text \<open>It accepts short texts and draws them as a symbol of the smallest size.\<close>

definition tiny_qr :: qr_api where
  "tiny_qr = \<lparr>
     qrcodegen_encodeText = \<lambda>t buf v. (0 < v \<and> length t \<le> 100, if 0 < v \<and> length t \<le> 100 \<and> length t \<le> length buf then t @ drop (length t) buf else buf),
     qrcodegen_getSize = \<lambda>enc. 21,
     qrcodegen_getModule = \<lambda>enc x y. 0 \<le> x \<and> x < 21 \<and> 0 \<le> y \<and> y < 21 \<and> x = y\<rparr>"

interpretation tiny: qr_generator tiny_qr
  by unfold_locales (auto simp: tiny_qr_def split: if_splits)

section \<open>The placement of the symbol\<close>

lemma sdiv_nonneg: "0 \<le> a \<Longrightarrow> 0 < b \<Longrightarrow> a sdiv b = a div b" for a b :: int
  by (simp add: signed_divide_int_def zsgn_def)

lemma sdiv_neg: "a < 0 \<Longrightarrow> 0 < b \<Longrightarrow> a sdiv b \<le> 0" for a b :: int
  by (simp add: signed_divide_int_def zsgn_def pos_imp_zdiv_nonneg_iff)

lemma sdiv_pos_iff: "0 < b \<Longrightarrow> 1 \<le> a sdiv b \<longleftrightarrow> b \<le> a" for a b :: int
  using sdiv_neg [of a b] pos_imp_zdiv_pos_iff [of b a] by (cases "0 \<le> a") (auto simp: sdiv_nonneg int_one_le_iff_zero_less)

text \<open>The rectangles of the black modules of a symbol with its corner at a point and a given module size.\<close>

definition qr_image :: "qr_api \<Rightarrow> pd_qr_code \<Rightarrow> int \<Rightarrow> int \<Rightarrow> int \<Rightarrow> RECT list" where
  "qr_image api c px x0 y0 =
     [\<lparr>rect_left = x0 + x * px, rect_top = y0 + y * px, rect_right = x0 + (x + 1) * px, rect_bottom = y0 + (y + 1) * px\<rparr>.
        y \<leftarrow> [0..qr_size c - 1], x \<leftarrow> [0..qr_size c - 1], qrcodegen_getModule api (qr_encoded c) x y]"

lemma symbol_fits:
  fixes n w h :: int
  assumes "0 < n \<and> n + 8 \<le> w \<and> n + 8 \<le> h"
  shows "1 \<le> min w h div (n + 8)" "min w h div (n + 8) * (n + 8) \<le> w" "min w h div (n + 8) * (n + 8) \<le> h"
  using assms pos_imp_zdiv_pos_iff [of "n + 8" "min w h"] pos_mod_sign [of "n + 8" "min w h"] div_mult_mod_eq [of "min w h" "n + 8"]
  by linarith+

lemma pd_draw_qr_exact:
  "pd_draw_qr api True (Some c) (Some a) =
    (let n = qr_size c; w = rect_right a - rect_left a; h = rect_bottom a - rect_top a; px = min w h div (n + 8) in
     if 0 < n \<and> n + 8 \<le> w \<and> n + 8 \<le> h
     then qr_image api c px (rect_left a + (w - px * (n + 8)) div 2 + 4 * px) (rect_top a + (h - px * (n + 8)) div 2 + 4 * px)
     else [])"
proof -
  let ?n = "qr_size c" and ?w = "rect_right a - rect_left a" and ?h = "rect_bottom a - rect_top a"
  show ?thesis
  proof (cases "0 < ?n \<and> ?n + 8 \<le> ?w \<and> ?n + 8 \<le> ?h")
    case False
    then have "?n \<le> 0 \<or> ?w sdiv (?n + 8) < 1 \<or> ?h sdiv (?n + 8) < 1"
      using sdiv_pos_iff [of "?n + 8" ?w] sdiv_pos_iff [of "?n + 8" ?h] by linarith
    then have "pd_draw_qr api True (Some c) (Some a) = []" by (auto simp: pd_draw_qr_def pd_qr_size_def Let_def)
    then show ?thesis unfolding Let_def if_not_P [OF False] .
  next
    case True
    define px where "px = min ?w ?h div (?n + 8)"
    have px: "(if ?h sdiv (?n + 8) < ?w sdiv (?n + 8) then ?h sdiv (?n + 8) else ?w sdiv (?n + 8)) = px"
      using True zdiv_mono1 [of ?w ?h "?n + 8"] zdiv_mono1 [of ?h ?w "?n + 8"] by (auto simp: sdiv_nonneg px_def min_def)
    note fit = symbol_fits [OF True, folded px_def]
    have half: "(k - px * (?n + 8)) sdiv 2 = (k - px * (?n + 8)) div 2" if "px * (?n + 8) \<le> k" for k
      using that by (simp add: sdiv_nonneg)
    have eight: "?n + 4 * 2 = ?n + 8" by simp
    have "pd_draw_qr api True (Some c) (Some a) =
        qr_image api c px (rect_left a + (?w - px * (?n + 8)) div 2 + 4 * px) (rect_top a + (?h - px * (?n + 8)) div 2 + 4 * px)"
      unfolding pd_draw_qr_def Let_def prod.case bool.case option.case pd_qr_size_def eight px half [OF fit(2)] half [OF fit(3)]
        pd_qr_get_module_def qr_image_def
      using True fit(1) by simp
    then show ?thesis unfolding Let_def if_P [OF True] px_def .
  qed
qed

text \<open>C19: The symbol is drawn with square modules of the largest size that fits, each black module exactly once and
  in its place, inside the given area with a quiet zone of at least four modules on every side; in an area
  too small for modules of one pixel nothing is drawn.\<close>

theorem qr_drawn_inside:
  "(if 0 < qr_size c \<and> qr_size c + 8 \<le> rect_right a - rect_left a \<and> qr_size c + 8 \<le> rect_bottom a - rect_top a
    then \<exists>px x0 y0. px = min (rect_right a - rect_left a) (rect_bottom a - rect_top a) div (qr_size c + 8) \<and> 1 \<le> px \<and>
      rect_left a + 4 * px \<le> x0 \<and> x0 + (qr_size c + 4) * px \<le> rect_right a \<and>
      rect_top a + 4 * px \<le> y0 \<and> y0 + (qr_size c + 4) * px \<le> rect_bottom a \<and>
      pd_draw_qr api True (Some c) (Some a) = qr_image api c px x0 y0
    else pd_draw_qr api True (Some c) (Some a) = [])"
proof -
  let ?n = "qr_size c" and ?w = "rect_right a - rect_left a" and ?h = "rect_bottom a - rect_top a"
  show ?thesis
  proof (cases "0 < ?n \<and> ?n + 8 \<le> ?w \<and> ?n + 8 \<le> ?h")
    case False
    show ?thesis unfolding pd_draw_qr_exact Let_def if_not_P [OF False] by (rule refl)
  next
    case True
    define px where "px = min ?w ?h div (?n + 8)"
    note fit = symbol_fits [OF True, folded px_def]
    have half: "0 \<le> (k - px * (?n + 8)) div 2" "(k - px * (?n + 8)) div 2 + px * (?n + 8) \<le> k" if "px * (?n + 8) \<le> k" for k
      using that by simp_all
    have wide: "x + 4 * px + (?n + 4) * px = x + px * (?n + 8)" for x by (simp add: algebra_simps)
    let ?x = "rect_left a + (?w - px * (?n + 8)) div 2 + 4 * px" and ?y = "rect_top a + (?h - px * (?n + 8)) div 2 + 4 * px"
    have "?x + (?n + 4) * px \<le> rect_right a" "?y + (?n + 4) * px \<le> rect_bottom a"
      unfolding wide using half(2) [OF fit(2)] half(2) [OF fit(3)] by linarith+
    moreover have "rect_left a + 4 * px \<le> ?x" "rect_top a + 4 * px \<le> ?y" using half(1) [OF fit(2)] half(1) [OF fit(3)] by simp_all
    ultimately show ?thesis
      using fit(1) unfolding pd_draw_qr_exact Let_def if_P [OF True] px_def [symmetric] by blast
  qed
qed

end
