(* ===== verification/PD_Win32App.thy ===== *)
theory PD_Win32App
  imports PD_Win32Runtime PD_QrCode
begin

text \<open>
  The application object of the Windows receiver and the preparation of a session (first part of
  \<^verbatim>\<open>win32_main.c\<close>): the relay address from the environment, the receive directory, a fresh session,
  its link and the QR code of the link.

  The environment, the folder and clock queries and the text conversion of Windows are parameters, the
  record \<open>desktop_api\<close> over a desktop state \<open>'w\<close>; the locale \<open>desktop\<close> says what their documentation
  promises.
\<close>

section \<open>Data\<close>

definition PD_UI_RELAY_CAPACITY :: nat where "PD_UI_RELAY_CAPACITY = 256"
definition PD_UI_URL_CAPACITY :: nat where "PD_UI_URL_CAPACITY = 512"
definition PD_UI_SESSION_TTL_MS :: u64 where "PD_UI_SESSION_TTL_MS = 300000"
definition MAX_PATH :: nat where "MAX_PATH = 260"

definition pd_default_relay_base :: "u8 list" where
  "pd_default_relay_base = c_lit ''https://send.printdrop.app''"

lemma ui_sizes [simp]: "PD_UI_RELAY_CAPACITY = 256" "PD_UI_URL_CAPACITY = 512" "MAX_PATH = 260"
  by (simp_all add: PD_UI_RELAY_CAPACITY_def PD_UI_URL_CAPACITY_def MAX_PATH_def)

datatype pd_ui_state =
    PD_UI_CONNECTING
  | PD_UI_READY
  | PD_UI_RECEIVING
  | PD_UI_VERIFYING
  | PD_UI_COMPLETE
  | PD_UI_FAILED

record pd_app =
  ap_window :: win_handle
  ap_worker :: win_handle
  ap_session :: pd_receiver_session
  ap_qr :: pd_qr_code
  ap_relay_base :: "u8 list"
  ap_public_url :: "u8 list"
  ap_public_url_wide :: "wchar list"
  ap_jobs_root :: "wchar list"
  ap_state :: pd_ui_state
  ap_runtime_result :: pd_win32_receiver_runtime_result
  ap_received_bytes :: u64
  ap_total_bytes :: u64
  ap_qr_valid :: bool

text \<open>
  Local arrays start indeterminate in C and zero here; each is filled before it is read.
  A query that fills a buffer gets the buffer and yields it back. \<open>desk_getenv\<close> is \<^verbatim>\<open>GetEnvironmentVariableA\<close>,
  \<open>desk_folder\<close> the query for the documents folder, \<open>desk_widen\<close> the conversion from UTF-8.
\<close>

record 'w desktop_api =
  desk_getenv :: "'w \<Rightarrow> u8 list \<Rightarrow> u8 list \<Rightarrow> nat \<times> u8 list"
  desk_folder :: "'w \<Rightarrow> wchar list \<Rightarrow> bool \<times> wchar list"
  desk_ticks :: "'w \<Rightarrow> u64"
  desk_widen :: "'w \<Rightarrow> u8 list \<Rightarrow> wchar list \<Rightarrow> nat \<times> wchar list"

section \<open>Operations\<close>

definition pd_copy_bytes :: "u8 list option \<Rightarrow> nat \<Rightarrow> u8 list option \<Rightarrow> nat \<Rightarrow> (bool \<times> u8 list option) option" where
  "pd_copy_bytes destination capacity source length0 =
     (case (destination, source) of
        (Some d, Some s) \<Rightarrow>
          if capacity < (length0 + 1) mod 2 ^ 64 then Some (False, destination)
          else do {
            d \<leftarrow> memcpy d 0 s 0 length0;
            d \<leftarrow> wr d length0 0;
            Some (True, Some d) }
      | _ \<Rightarrow> Some (False, destination))"

definition pd_load_relay_base :: "'w desktop_api \<Rightarrow> u8 list \<Rightarrow> 'w \<Rightarrow> (bool \<times> u8 list) option" where
  "pd_load_relay_base desk output w =
     (case desk_getenv desk w (c_lit ''PRINTDROP_BASE_URL'') output of (length0, output) \<Rightarrow>
        if length0 = 0
        then do {
          (ok, out) \<leftarrow> pd_copy_bytes (Some output) PD_UI_RELAY_CAPACITY (Some (pd_default_relay_base @ [0])) (length pd_default_relay_base);
          out \<leftarrow> out;
          Some (ok, out) }
        else Some (length0 < PD_UI_RELAY_CAPACITY, output))"

definition jobs_component :: "wchar list" where
  "jobs_component = w_lit (CHR 0x5C # ''PrintDrop'')"

definition pd_prepare_jobs_root :: "'w desktop_api \<Rightarrow> wchar list \<Rightarrow> 'w \<Rightarrow> (bool \<times> wchar list) option" where
  "pd_prepare_jobs_root desk output w =
     (case desk_folder desk w (replicate MAX_PATH 0) of (ok, documents) \<Rightarrow>
        if \<not> ok then Some (False, output)
        else do {
          document_length \<leftarrow> wcslen documents;
          if MAX_PATH < document_length + (length jobs_component + 1) then Some (False, output)
          else do {
            output \<leftarrow> memcpy output 0 documents 0 (document_length + 1);
            output \<leftarrow> wcscat_s output MAX_PATH jobs_component;
            Some (True, output) } })"

definition session_suffix :: "u8 list" where
  "session_suffix = c_lit ''/s/''"

text \<open>\<^verbatim>\<open>while (length > 0 && relay_base[length - 1] == '/')\<close>\<close>

fun drop_slashes :: "u8 list \<Rightarrow> nat \<Rightarrow> nat option" where
  "drop_slashes base_url 0 = Some 0"
| "drop_slashes base_url (Suc n) = do {
     c \<leftarrow> rd base_url n;
     if c = of_char (CHR ''/'') then drop_slashes base_url n else Some (Suc n) }"

definition pd_build_session_prefix :: "u8 list option \<Rightarrow> u8 list \<Rightarrow> (bool \<times> u8 list) option" where
  "pd_build_session_prefix base_url output =
     (case base_url of
        None \<Rightarrow> Some (False, output)
      | Some base \<Rightarrow> do {
          length0 \<leftarrow> strlen base;
          length0 \<leftarrow> drop_slashes base length0;
          let required = length0 + length session_suffix + 1;
          if length0 = 0 \<or> PD_UI_RELAY_CAPACITY < required then Some (False, output)
          else do {
            output \<leftarrow> memcpy output 0 base 0 length0;
            output \<leftarrow> put output length0 (session_suffix @ [0]);
            Some (True, output) } })"

text \<open>The preparation up to the new session, then its link, its QR code and the text for the window.\<close>

definition open_session :: "'w desktop_api \<Rightarrow> 'b bcrypt_api \<Rightarrow> pd_app \<Rightarrow> 'w \<Rightarrow> 'b \<Rightarrow> (bool \<times> pd_app \<times> 'b) option" where
  "open_session desk bapi app w b = do {
     url \<leftarrow> wr (ap_public_url app) 0 0;
     wide \<leftarrow> wr (ap_public_url_wide app) 0 0;
     let app = app\<lparr>ap_qr_valid := False, ap_public_url := url, ap_public_url_wide := wide, ap_received_bytes := 0, ap_total_bytes := 0\<rparr>;
     (loaded, base) \<leftarrow> pd_load_relay_base desk (ap_relay_base app) w;
     let app = app\<lparr>ap_relay_base := base\<rparr>;
     if \<not> loaded then Some (False, app, b)
     else do {
       (rooted, root) \<leftarrow> pd_prepare_jobs_root desk (ap_jobs_root app) w;
       let app = app\<lparr>ap_jobs_root := root\<rparr>;
       if \<not> rooted then Some (False, app, b)
       else do {
         (r, session, b) \<leftarrow> pd_receiver_session_create (Some (ap_session app)) (desk_ticks desk w) PD_UI_SESSION_TTL_MS
           (Some (win32_fill bapi)) b;
         session \<leftarrow> session;
         Some (r = PD_RECEIVER_SESSION_OK, app\<lparr>ap_session := session\<rparr>, b) } } }"

text \<open>The exit of the preparation that gives the new session up.\<close>

definition abandon_session :: "pd_app \<Rightarrow> pd_app option" where
  "abandon_session app = do {
     session \<leftarrow> pd_receiver_session_close (Some (ap_session app));
     session \<leftarrow> session;
     Some (app\<lparr>ap_session := session\<rparr>) }"

text \<open>The link and its QR code; each step is made only if the one before succeeded.\<close>

definition build_link :: "qr_api \<Rightarrow> pd_app \<Rightarrow> (bool \<times> pd_app) option" where
  "build_link qapi app = do {
     (built, prefix) \<leftarrow> pd_build_session_prefix (Some (ap_relay_base app)) (replicate PD_UI_RELAY_CAPACITY 0);
     if \<not> built then Some (False, app)
     else do {
       (ur, url, _) \<leftarrow> pd_receiver_session_build_url (2 ^ 64 - 1) (Some (ap_session app)) (Some prefix) (Some (ap_public_url app))
         PD_UI_URL_CAPACITY None;
       url \<leftarrow> url;
       let app = app\<lparr>ap_public_url := url\<rparr>;
       if ur \<noteq> PD_SESSION_URL_OK then Some (False, app)
       else do {
         (qr, code) \<leftarrow> pd_qr_encode_text qapi (Some (ap_qr app)) (Some (ap_public_url app));
         code \<leftarrow> code;
         Some (qr = PD_QR_OK, app\<lparr>ap_qr := code\<rparr>) } } }"

definition present_session :: "'w desktop_api \<Rightarrow> qr_api \<Rightarrow> pd_app \<Rightarrow> 'w \<Rightarrow> (bool \<times> pd_app) option" where
  "present_session desk qapi app w = do {
     (linked, app) \<leftarrow> build_link qapi app;
     if \<not> linked then do { app \<leftarrow> abandon_session app; Some (False, app) }
     else do {
       n \<leftarrow> strlen (ap_public_url app);
       let (k, wide) = desk_widen desk w (take n (ap_public_url app)) (ap_public_url_wide app);
       let app = app\<lparr>ap_public_url_wide := wide\<rparr>;
       if k = 0 then do { app \<leftarrow> abandon_session app; Some (False, app) }
       else Some (True, app\<lparr>ap_qr_valid := True, ap_state := PD_UI_CONNECTING, ap_runtime_result := PD_WIN32_RECEIVER_RUNTIME_OK\<rparr>) } }"

definition pd_prepare_session ::
  "'w desktop_api \<Rightarrow> qr_api \<Rightarrow> 'b bcrypt_api \<Rightarrow> pd_app option \<Rightarrow> 'w \<Rightarrow> 'b \<Rightarrow> (bool \<times> pd_app option \<times> 'b) option" where
  "pd_prepare_session desk qapi bapi app w b =
     (case app of
        None \<Rightarrow> Some (False, app, b)
      | Some a \<Rightarrow> do {
          (opened, a, b) \<leftarrow> open_session desk bapi a w b;
          if \<not> opened then Some (False, Some a, b)
          else do {
            (shown, a) \<leftarrow> present_session desk qapi a w;
            Some (shown, Some a, b) } })"

definition pd_state_text :: "pd_app option \<Rightarrow> string" where
  "pd_state_text app =
     (case app of
        None \<Rightarrow> ''Unknown''
      | Some a \<Rightarrow>
          (case ap_state a of
             PD_UI_CONNECTING \<Rightarrow> ''Connecting to relay''
           | PD_UI_READY \<Rightarrow> ''Ready - scan the QR code''
           | PD_UI_RECEIVING \<Rightarrow> ''Receiving file''
           | PD_UI_VERIFYING \<Rightarrow> ''Verifying SHA-256''
           | PD_UI_COMPLETE \<Rightarrow> ''Complete - preparing next QR''
           | PD_UI_FAILED \<Rightarrow>
               (case ap_runtime_result a of
                  PD_WIN32_RECEIVER_RUNTIME_REGISTRATION_ERROR \<Rightarrow> ''Relay registration failed''
                | PD_WIN32_RECEIVER_RUNTIME_RELAY_ERROR \<Rightarrow> ''Relay connection failed''
                | PD_WIN32_RECEIVER_RUNTIME_STORAGE_ERROR \<Rightarrow> ''Could not write the file''
                | PD_WIN32_RECEIVER_RUNTIME_PROTOCOL_ERROR \<Rightarrow> ''Transfer protocol failed''
                | PD_WIN32_RECEIVER_RUNTIME_ENDPOINT_ERROR \<Rightarrow> ''Relay URL is invalid''
                | _ \<Rightarrow> ''PrintDrop failed to start'')))"

section \<open>What the desktop promises\<close>

text \<open>
  The value of a variable is stored with its terminator if it fits, and the length without the
  terminator is returned; otherwise the returned size is not below that of the buffer. A folder path
  is a terminated text in a buffer of \<^verbatim>\<open>MAX_PATH\<close> characters. A conversion writes at most one character
  for each byte and the terminator, even when it fails.
\<close>

locale desktop =
  fixes desk :: "'w desktop_api"
  assumes getenv: "desk_getenv desk w name buf = (k, buf') \<Longrightarrow> length buf' = length buf \<and>
      (0 < k \<and> k < length buf \<longrightarrow> 0 \<in> set buf' \<and> length (c_str buf') = k)"
    and folder: "desk_folder desk w wbuf = (ok, wbuf') \<Longrightarrow> length wbuf' = length wbuf \<and> (ok \<longrightarrow> 0 \<in> set wbuf')"
    and widen: "desk_widen desk w t wbuf = (k, wbuf') \<Longrightarrow> length wbuf' = length wbuf \<and>
      drop (length t + 1) wbuf' = drop (length t + 1) wbuf \<and> (k \<noteq> 0 \<longrightarrow> 0 \<in> set wbuf')"

section \<open>The preparation of a session\<close>

text \<open>
  The arrays of an application object have their declared sizes, and the two texts the window shows
  are terminated; a link has at most 287 characters.
\<close>

definition app_shape :: "pd_app \<Rightarrow> bool" where
  "app_shape a \<longleftrightarrow> length (ap_relay_base a) = 256 \<and> length (ap_public_url a) = 512 \<and> length (ap_public_url_wide a) = 512 \<and>
     length (ap_jobs_root a) = 260 \<and> 0 \<in> set (ap_jobs_root a) \<and> 0 \<in> set (drop 288 (ap_public_url_wide a)) \<and> length (qr_encoded (ap_qr a)) = 512 \<and> session_object (ap_session a)"

text \<open>The link of a session: the base address without trailing slashes, the session path and the token.\<close>

definition session_link :: "u8 list \<Rightarrow> u8 list \<Rightarrow> u8 list" where
  "session_link base token = strip_right base @ c_lit ''/s/'' @ token"

lemma drop_slashes_eq: "n \<le> length b \<Longrightarrow> drop_slashes b n = Some (length (strip_right (take n b)))"
  by (induction n) (auto simp: rd_def take_Suc_conv_app_nth)

lemma session_suffix_simps [simp]: "length session_suffix = 3" "0 \<notin> set session_suffix"
  by (simp_all add: session_suffix_def c_lit_def)

lemma jobs_component_simps [simp]: "length jobs_component = 10" "0 \<notin> set jobs_component"
  by (simp_all add: jobs_component_def w_lit_def)

lemma default_base_simps [simp]: "length pd_default_relay_base = 26" "0 \<notin> set pd_default_relay_base"
  by (simp_all add: pd_default_relay_base_def c_lit_def)

lemma session_prefix_eq:
  assumes "0 \<in> set b" and "length b = 256"
  shows "\<exists>out'. pd_build_session_prefix (Some b) (replicate 256 0) = Some
    (strip_right (c_str b) \<noteq> [] \<and> length (strip_right (c_str b)) \<le> 252, out') \<and>
    (strip_right (c_str b) \<noteq> [] \<and> length (strip_right (c_str b)) \<le> 252 \<longrightarrow>
       0 \<in> set out' \<and> c_str out' = strip_right (c_str b) @ session_suffix)"
proof -
  let ?s = "strip_right (c_str b)"
  have le: "length (c_str b) < length b" by (rule length_c_str_less [OF assms(1)])
  have d: "drop_slashes b (length (c_str b)) = Some (length ?s)" using le drop_slashes_eq [of "length (c_str b)" b] by simp
  have s: "take (length ?s) b = ?s"
    using strip_right_take [of "c_str b"] length_strip_right [of "c_str b"] take_take [of "length ?s" "length (c_str b)" b]
    by (simp add: min_absorb1)
  have n: "0 \<notin> set (?s @ session_suffix)" using strip_right_take [of "c_str b"] c_str_no_nul [of b] by (metis UnE in_set_takeD
    session_suffix_simps(2) set_append)
  have p: "put (replicate 256 0) 0 ?s \<bind> (\<lambda>m. put m (length ?s) (session_suffix @ [0]) \<bind> (\<lambda>m. Some (True, m))) =
      Some (True, (?s @ session_suffix) @ 0 # replicate (252 - length ?s) 0)" if "length ?s \<le> 252"
    using that by (simp add: put_def)
  show ?thesis
  proof (cases "?s \<noteq> [] \<and> length ?s \<le> 252")
    case True
    then have "pd_build_session_prefix (Some b) (replicate 256 0) = Some (True, (?s @ session_suffix) @ 0 # replicate (252 - length ?s) 0)"
      using assms le d s p by (simp add: pd_build_session_prefix_def strlen_def memcpy_def mem_slice_def)
    then show ?thesis using True c_str_terminated [OF n] by simp
  next
    case False
    then show ?thesis using assms d by (auto simp: pd_build_session_prefix_def strlen_def)
  qed
qed


lemma session_close_eq:
  assumes "session_object s"
  shows "\<exists>s'. pd_receiver_session_close (Some s) = Some (Some s') \<and> session_object s' \<and> \<not> session_live s' \<and>
    (session_inv s \<longrightarrow> session_inv s')"
  using assms by (cases "rs_state s") (auto simp: pd_receiver_session_close_def pd_receiver_session_clear_credentials_eq session_object_def
    session_live_def session_inv_def)

lemma abandon_session_spec:
  assumes "app_shape a"
  shows "\<exists>s. abandon_session a = Some (a\<lparr>ap_session := s\<rparr>) \<and> session_object s \<and> \<not> session_live s"
  using session_close_eq [of "ap_session a"] assms by (auto simp: abandon_session_def app_shape_def)

context desktop
begin

lemma load_relay_base_spec:
  assumes "length out = 256"
  shows "\<exists>ok out'. pd_load_relay_base desk out w = Some (ok, out') \<and> length out' = 256 \<and>
    (ok \<longleftrightarrow> fst (desk_getenv desk w (c_lit ''PRINTDROP_BASE_URL'') out) < 256) \<and> (ok \<longrightarrow> 0 \<in> set out' \<and>
    (case desk_getenv desk w (c_lit ''PRINTDROP_BASE_URL'') out of (k, buf) \<Rightarrow>
       if k = 0 then c_str out' = pd_default_relay_base else k < 256 \<and> out' = buf))"
proof -
  obtain k buf where g: "desk_getenv desk w (c_lit ''PRINTDROP_BASE_URL'') out = (k, buf)" by fastforce
  have l: "length buf = 256" using getenv [OF g] assms by simp
  have "pd_copy_bytes (Some buf) 256 (Some (pd_default_relay_base @ [0])) 26 = Some (True, Some (pd_default_relay_base @ 0 # drop 27 buf))"
    using l by (simp add: pd_copy_bytes_def memcpy_def mem_slice_def mem_simps put_def)
  then show ?thesis using getenv [OF g] l assms by (auto simp: pd_load_relay_base_def g)
qed

lemma prepare_jobs_root_spec:
  assumes "length out = 260" and "0 \<in> set out"
  shows "\<exists>ok out'. pd_prepare_jobs_root desk out w = Some (ok, out') \<and> length out' = 260 \<and> 0 \<in> set out' \<and>
    (ok \<longleftrightarrow> (case desk_folder desk w (replicate 260 0) of (found, documents) \<Rightarrow> found \<and> length (w_str documents) \<le> 249)) \<and> (ok \<longrightarrow>
    (case desk_folder desk w (replicate 260 0) of (found, documents) \<Rightarrow> found \<and> w_str out' = w_str documents @ jobs_component))"
proof -
  obtain found d where f: "desk_folder desk w (replicate 260 0) = (found, d)" by fastforce
  have l: "length d = 260" using folder [OF f] by simp
  show ?thesis
  proof (cases "found \<and> length (w_str d) + 11 \<le> 260")
    case True
    then have z: "0 \<in> set d" using folder [OF f] by simp
    let ?m = "w_str d @ 0 # drop (length (w_str d) + 1) out" and ?o = "(w_str d @ jobs_component) @ 0 # drop (length (w_str d) + 11) out"
    have "memcpy out 0 d 0 (length (w_str d) + 1) = Some ?m"
      using True assms w_str_slice [OF z] put_text [of "w_str d" out 0] by (simp add: memcpy_def)
    moreover have "wcscat_s ?m 260 jobs_component = Some ?o"
      using True assms by (simp add: wcscat_s_def wcslen_eq put_def add.commute)
    ultimately have "pd_prepare_jobs_root desk out w = Some (True, ?o)"
      using True by (simp add: pd_prepare_jobs_root_def f wcslen_eq [OF z] jobs_component_simps)
    moreover have "w_str ?o = w_str d @ jobs_component" by (rule w_str_terminated) simp
    ultimately show ?thesis using True assms by (auto simp: f)
  next
    case False
    then have "pd_prepare_jobs_root desk out w = Some (False, out)"
      using folder [OF f] by (auto simp: pd_prepare_jobs_root_def f wcslen_eq)
    then show ?thesis using assms False by (auto simp: f)
  qed
qed

end


text \<open>The link fits its buffers and a QR code.\<close>

definition link_possible :: "qr_api \<Rightarrow> u8 list \<Rightarrow> u8 list \<Rightarrow> bool" where
  "link_possible qapi base token \<longleftrightarrow> strip_right base \<noteq> [] \<and> length (strip_right base) \<le> 252 \<and>
     fst (qrcodegen_encodeText qapi (session_link base token) (replicate 512 0) 10)"

text \<open>The link of a session and its QR code, as the window shows them.\<close>

definition link_shown :: "qr_api \<Rightarrow> pd_app \<Rightarrow> bool" where
  "link_shown qapi a \<longleftrightarrow> (let link = session_link (c_str (ap_relay_base a)) (c_str (rs_token (ap_session a))) in
     0 \<in> set (ap_public_url a) \<and> c_str (ap_public_url a) = link \<and> length link \<le> 287 \<and>
     qrcodegen_encodeText qapi link (replicate 512 0) 10 = (True, qr_encoded (ap_qr a)) \<and>
     qr_size (ap_qr a) = qrcodegen_getSize qapi (qr_encoded (ap_qr a)) \<and> 21 \<le> qr_size (ap_qr a) \<and> qr_size (ap_qr a) \<le> 57)"

context qr_generator
begin

lemma build_link_spec:
  assumes "app_shape a" and "session_inv (ap_session a)" and "session_live (ap_session a)" and "0 \<in> set (ap_relay_base a)"
  shows "\<exists>ok url code. build_link api a = Some (ok, a\<lparr>ap_public_url := url, ap_qr := code\<rparr>) \<and> length url = 512 \<and>
    length (qr_encoded code) = 512 \<and> (ok \<longleftrightarrow> link_possible api (c_str (ap_relay_base a)) (c_str (rs_token (ap_session a)))) \<and>
    (ok \<longrightarrow> link_shown api (a\<lparr>ap_public_url := url, ap_qr := code\<rparr>))"
proof -
  let ?b = "ap_relay_base a" and ?s = "ap_session a" and ?u = "ap_public_url a"
  define base where "base = strip_right (c_str ?b)"
  define fits where "fits = (base \<noteq> [] \<and> length base \<le> 252)"
  define link where "link = session_link (c_str ?b) (c_str (rs_token ?s))"
  have sh: "length ?b = 256" "length ?u = 512" "length (qr_encoded (ap_qr a)) = 512" using assms(1) by (simp_all add: app_shape_def)
  obtain pre where pre: "pd_build_session_prefix (Some ?b) (replicate 256 0) = Some (fits, pre)"
    "fits \<Longrightarrow> 0 \<in> set pre \<and> c_str pre = base @ session_suffix"
    using session_prefix_eq [OF assms(4) sh(1)] by (auto simp: base_def fits_def)
  show ?thesis
  proof (cases fits)
    case False
    then have "build_link api a = Some (False, a\<lparr>ap_public_url := ?u, ap_qr := ap_qr a\<rparr>)"
      by (simp add: build_link_def pre(1))
    moreover have "\<not> link_possible api (c_str ?b) (c_str (rs_token ?s))" using False by (auto simp: link_possible_def fits_def base_def)
    ultimately show ?thesis using sh by blast
  next
    case True
    have tl: "length (c_str (rs_token ?s)) = 32" using assms(2,3) by (auto simp: session_inv_def lower_hex_def dest: lower_hex_char_nonzero)
    have lk: "c_str pre @ c_str (rs_token ?s) = link" using pre(2) True by (simp add: link_def session_link_def base_def session_suffix_def)
    have len: "length link \<le> 287" "link \<noteq> []" using lk pre(2) True tl by (auto simp: fits_def simp flip: lk)
    have z: "0 \<notin> set link" unfolding lk [symmetric] by simp
    let ?url = "link @ 0 # drop (length link + 1) ?u"
    have u: "pd_receiver_session_build_url (2 ^ 64 - 1) (Some ?s) (Some pre) (Some ?u) 512 None = Some (PD_SESSION_URL_OK, Some ?url, None)"
      using build_url_live [OF assms(2,3), of pre "2 ^ 64 - 1" 512 ?u None] pre(2) True sh len
      by (simp add: lk store_size_def fits_def)
    obtain r code where q: "pd_qr_encode_text api (Some (ap_qr a)) (Some ?url) = Some (r, Some code)" "length (qr_encoded code) = 512"
      "r = PD_QR_OK \<longleftrightarrow> fst (qrcodegen_encodeText api link (replicate 512 0) 10)"
      "r = PD_QR_OK \<Longrightarrow> qrcodegen_encodeText api link (replicate 512 0) 10 = (True, qr_encoded code) \<and>
         21 \<le> qr_size code \<and> qr_size code \<le> 57 \<and> qr_size code = qrcodegen_getSize api (qr_encoded code)"
      using qr_encode_spec [of ?url "ap_qr a"] z len by auto
    have "build_link api a = Some (r = PD_QR_OK, a\<lparr>ap_public_url := ?url, ap_qr := code\<rparr>)"
      using True u q(1) by (simp add: build_link_def pre(1))
    moreover have "length ?url = 512" using len sh by simp
    moreover have "r = PD_QR_OK \<longleftrightarrow> link_possible api (c_str ?b) (c_str (rs_token ?s))"
      using q(3) True by (simp add: link_possible_def link_def fits_def base_def)
    ultimately show ?thesis using q(2,4) z by (fastforce simp: link_shown_def link_def [symmetric] len(1))
  qed
qed

end


text \<open>
  A prepared application: a fresh session that waits for five minutes from now, its link shown, the
  receive directory below the documents folder, the counters at zero. The environment variable gives
  the relay address; without it the built-in one is used.
\<close>

definition session_opened :: "'w desktop_api \<Rightarrow> 'w \<Rightarrow> pd_app \<Rightarrow> pd_app \<Rightarrow> bool" where
  "session_opened desk w a a' \<longleftrightarrow>
     session_inv (ap_session a') \<and> rs_state (ap_session a') = PD_RECEIVER_SESSION_WAITING \<and>
     rs_created_at_ms (ap_session a') = desk_ticks desk w \<and>
     unat (rs_expires_at_ms (ap_session a')) = unat (desk_ticks desk w) + 300000 \<and>
     0 \<in> set (ap_relay_base a') \<and>
     (case desk_getenv desk w (c_lit ''PRINTDROP_BASE_URL'') (ap_relay_base a) of (k, buf) \<Rightarrow>
        if k = 0 then c_str (ap_relay_base a') = c_lit ''https://send.printdrop.app'' else k < 256 \<and> ap_relay_base a' = buf) \<and>
     (case desk_folder desk w (replicate 260 0) of (found, documents) \<Rightarrow>
        found \<and> w_str (ap_jobs_root a') = w_str documents @ w_lit (CHR 0x5C # ''PrintDrop''))"

definition session_prepared :: "'w desktop_api \<Rightarrow> qr_api \<Rightarrow> 'w \<Rightarrow> pd_app \<Rightarrow> pd_app \<Rightarrow> bool" where
  "session_prepared desk qapi w a a' \<longleftrightarrow> session_opened desk w a a' \<and>
     link_shown qapi a' \<and> 0 \<in> set (ap_public_url_wide a') \<and>
     ap_qr_valid a' \<and> ap_state a' = PD_UI_CONNECTING \<and> ap_runtime_result a' = PD_WIN32_RECEIVER_RUNTIME_OK \<and>
     ap_received_bytes a' = 0 \<and> ap_total_bytes a' = 0"

text \<open>
  When a preparation succeeds: the variable and the documents folder fit their buffers, the clock is not
  at its end, the random source works, the link fits a QR code and converts to a text for the window.
\<close>

definition session_possible :: "'w desktop_api \<Rightarrow> 'b bcrypt_api \<Rightarrow> pd_app \<Rightarrow> 'w \<Rightarrow> 'b \<Rightarrow> bool" where
  "session_possible desk bapi a w b \<longleftrightarrow>
     fst (desk_getenv desk w (c_lit ''PRINTDROP_BASE_URL'') (ap_relay_base a)) < 256 \<and>
     (case desk_folder desk w (replicate 260 0) of (found, documents) \<Rightarrow> found \<and> length (w_str documents) \<le> 249) \<and>
     unat (desk_ticks desk w) + 300000 < 2 ^ 64 \<and> fst (win32_fill bapi b 48)"

definition preparation_possible :: "'w desktop_api \<Rightarrow> qr_api \<Rightarrow> 'b bcrypt_api \<Rightarrow> pd_app \<Rightarrow> 'w \<Rightarrow> 'b \<Rightarrow> bool" where
  "preparation_possible desk qapi bapi a w b \<longleftrightarrow> session_possible desk bapi a w b \<and>
     (let base = (case desk_getenv desk w (c_lit ''PRINTDROP_BASE_URL'') (ap_relay_base a) of (k, buf) \<Rightarrow>
            if k = 0 then c_lit ''https://send.printdrop.app'' else c_str buf);
          token = hex_of (take 16 (fst (snd (win32_fill bapi b 48)))) in
      link_possible qapi base token \<and> fst (desk_widen desk w (session_link base token) ((ap_public_url_wide a)[0 := 0])) \<noteq> 0)"

text \<open>A failed preparation shows no QR code and leaves no session that a sender could use.\<close>

definition session_refused :: "pd_app \<Rightarrow> pd_app \<Rightarrow> bool" where
  "session_refused a a' \<longleftrightarrow> \<not> ap_qr_valid a' \<and> ap_state a' = ap_state a \<and> ap_runtime_result a' = ap_runtime_result a \<and>
     (ap_session a' = ap_session a \<or> \<not> session_live (ap_session a'))"

definition same_window :: "pd_app \<Rightarrow> pd_app \<Rightarrow> bool" where
  "same_window a a' \<longleftrightarrow> ap_window a' = ap_window a \<and> ap_worker a' = ap_worker a"

locale session_setup =
  desktop desk + qr_generator qapi + bcrypt_service bapi live hashing hash
  for desk :: "'w desktop_api" and qapi and bapi :: "'b bcrypt_api" and live hashing hash
begin

lemma create_session_spec:
  assumes "session_object s"
  shows "\<exists>r s' b'. pd_receiver_session_create (Some s) now PD_UI_SESSION_TTL_MS (Some (win32_fill bapi)) b = Some (r, Some s', b') \<and>
    session_object s' \<and> (r \<noteq> PD_RECEIVER_SESSION_OK \<longrightarrow> \<not> session_live s') \<and>
    (r = PD_RECEIVER_SESSION_OK \<longleftrightarrow> unat now + 300000 < 2 ^ 64 \<and> fst (win32_fill bapi b 48)) \<and>
    (r = PD_RECEIVER_SESSION_OK \<longrightarrow> session_inv s' \<and> rs_state s' = PD_RECEIVER_SESSION_WAITING \<and> rs_created_at_ms s' = now \<and>
       unat (rs_expires_at_ms s') = unat now + 300000 \<and> c_str (rs_token s') = hex_of (take 16 (fst (snd (win32_fill bapi b 48)))))"
proof -
  have ttl: "PD_UI_SESSION_TTL_MS \<noteq> 0" "unat PD_UI_SESSION_TTL_MS = 300000" by (simp_all add: PD_UI_SESSION_TTL_MS_def)
  have blank: "session_object (session_blank s)" "\<not> session_live (session_blank s)"
    by (simp_all add: session_object_def session_blank_def session_live_def)
  obtain ok e b' where f: "win32_fill bapi b 48 = (ok, e, b')" using prod_cases3 by blast
  show ?thesis
  proof (cases "- 1 - now < PD_UI_SESSION_TTL_MS \<or> \<not> ok")
    case True
    then show ?thesis using blank ttl(2) by (auto simp: win_random.create_eq [OF assms ttl(1)] f overflow_iff)
  next
    case False
    then have i: "session_inv (session_created s now PD_UI_SESSION_TTL_MS e)"
      using win_random.created_inv [OF assms ttl(1) _ f] by blast
    have "unat (now + PD_UI_SESSION_TTL_MS) = unat now + 300000" using False no_wrap_less(2) [OF ttl(1)] ttl(2) by simp
    moreover have "unat now + 300000 < 2 ^ 64" using False ttl(2) by (simp add: overflow_iff)
    ultimately show ?thesis using False i session_inv_object [OF i] hex_of_no_nul [of "take 16 e"]
      by (auto simp: win_random.create_eq [OF assms ttl(1)] f session_created_def)
  qed
qed

lemma open_session_spec:
  assumes sh: "app_shape a"
  shows "\<exists>ok url base root s b'.
    let a' = a\<lparr>ap_qr_valid := False, ap_public_url := url, ap_public_url_wide := (ap_public_url_wide a)[0 := 0], ap_received_bytes := 0,
      ap_total_bytes := 0, ap_relay_base := base, ap_jobs_root := root, ap_session := s\<rparr> in
    open_session desk bapi a w b = Some (ok, a', b') \<and> app_shape a' \<and> (ok \<longleftrightarrow> session_possible desk bapi a w b) \<and>
    (ok \<longrightarrow> session_opened desk w a a' \<and> c_str (rs_token s) = hex_of (take 16 (fst (snd (win32_fill bapi b 48))))) \<and>
    (\<not> ok \<longrightarrow> s = ap_session a \<or> \<not> session_live s)"
proof -
  define url where "url = (ap_public_url a)[0 := 0]"
  let ?wide = "(ap_public_url_wide a)[0 := 0]"
  have len: "length (ap_relay_base a) = 256" "length (ap_jobs_root a) = 260" "session_object (ap_session a)"
      "0 \<in> set (ap_jobs_root a)"
    using sh by (simp_all add: app_shape_def)
  have w0: "wr (ap_public_url a) 0 0 = Some url" "wr (ap_public_url_wide a) 0 0 = Some ?wide" "length url = 512" "length ?wide = 512"
    using sh by (simp_all add: wr_def app_shape_def url_def)
  obtain l base where l: "pd_load_relay_base desk (ap_relay_base a) w = Some (l, base)" "length base = 256"
    "l \<longleftrightarrow> fst (desk_getenv desk w (c_lit ''PRINTDROP_BASE_URL'') (ap_relay_base a)) < 256"
    "l \<longrightarrow> 0 \<in> set base \<and> (case desk_getenv desk w (c_lit ''PRINTDROP_BASE_URL'') (ap_relay_base a) of (k, buf) \<Rightarrow>
        if k = 0 then c_str base = pd_default_relay_base else k < 256 \<and> base = buf)"
    using load_relay_base_spec [OF len(1), of w] by (elim exE conjE) (rule that)
  obtain j root where j: "pd_prepare_jobs_root desk (ap_jobs_root a) w = Some (j, root)" "length root = 260" "0 \<in> set root"
    "j \<longleftrightarrow> (case desk_folder desk w (replicate 260 0) of (found, documents) \<Rightarrow> found \<and> length (w_str documents) \<le> 249)"
    "j \<longrightarrow> (case desk_folder desk w (replicate 260 0) of (found, documents) \<Rightarrow> found \<and> w_str root = w_str documents @ jobs_component)"
    using prepare_jobs_root_spec [OF len(2) len(4), of w] by (elim exE conjE) (rule that)
  obtain r s b' where c: "pd_receiver_session_create (Some (ap_session a)) (desk_ticks desk w) PD_UI_SESSION_TTL_MS (Some (win32_fill bapi)) b = Some (r, Some s, b')"
    "session_object s" "r \<noteq> PD_RECEIVER_SESSION_OK \<longrightarrow> \<not> session_live s"
    "r = PD_RECEIVER_SESSION_OK \<longleftrightarrow> unat (desk_ticks desk w) + 300000 < 2 ^ 64 \<and> fst (win32_fill bapi b 48)"
    "r = PD_RECEIVER_SESSION_OK \<longrightarrow> session_inv s \<and> rs_state s = PD_RECEIVER_SESSION_WAITING \<and> rs_created_at_ms s = desk_ticks desk w \<and>
       unat (rs_expires_at_ms s) = unat (desk_ticks desk w) + 300000 \<and> c_str (rs_token s) = hex_of (take 16 (fst (snd (win32_fill bapi b 48))))"
    using create_session_spec [OF len(3), of "desk_ticks desk w" b] by (elim exE conjE) (rule that)
  define root' where "root' = (if l then root else ap_jobs_root a)"
  define s' where "s' = (if l \<and> j then s else ap_session a)"
  let ?ok = "l \<and> j \<and> r = PD_RECEIVER_SESSION_OK"
  let ?a = "a\<lparr>ap_qr_valid := False, ap_public_url := url, ap_public_url_wide := ?wide, ap_received_bytes := 0, ap_total_bytes := 0,
      ap_relay_base := base, ap_jobs_root := root', ap_session := s'\<rparr>"
  have "open_session desk bapi a w b = Some (?ok, ?a, if l \<and> j then b' else b)"
    using w0 l(1) j(1) c(1) by (cases l; cases j) (simp_all add: open_session_def root'_def s'_def)
  moreover have "app_shape ?a" using sh w0 l(2) j(2,3) c(2) by (simp add: app_shape_def root'_def s'_def drop_update_cancel)
  moreover have "?ok \<longleftrightarrow> session_possible desk bapi a w b" unfolding session_possible_def l(3) [symmetric] j(4) [symmetric] c(4) by blast
  moreover have "session_opened desk w a ?a \<and> c_str (rs_token s') = hex_of (take 16 (fst (snd (win32_fill bapi b 48))))" if ?ok
    using that l(4) j(5) c(5) by (auto simp: session_opened_def root'_def s'_def pd_default_relay_base_def jobs_component_def split: prod.splits)
  moreover have "s' = ap_session a \<or> \<not> session_live s'" if "\<not> ?ok" using that c(3) by (auto simp: s'_def)
  ultimately show ?thesis unfolding Let_def by blast
qed

lemma present_session_spec:
  assumes "app_shape a" and "session_inv (ap_session a)" and "session_live (ap_session a)" and "0 \<in> set (ap_relay_base a)"
  shows "\<exists>ok url code wide s. let a' = a\<lparr>ap_public_url := url, ap_qr := code, ap_public_url_wide := wide\<rparr> in
    present_session desk qapi a w = Some (ok, if ok
      then a'\<lparr>ap_qr_valid := True, ap_state := PD_UI_CONNECTING, ap_runtime_result := PD_WIN32_RECEIVER_RUNTIME_OK\<rparr>
      else a'\<lparr>ap_session := s\<rparr>) \<and>
    app_shape a' \<and> session_object s \<and> \<not> session_live s \<and> (ok \<longrightarrow> link_shown qapi a' \<and> 0 \<in> set wide) \<and>
    (ok \<longleftrightarrow> link_possible qapi (c_str (ap_relay_base a)) (c_str (rs_token (ap_session a))) \<and>
       fst (desk_widen desk w (session_link (c_str (ap_relay_base a)) (c_str (rs_token (ap_session a)))) (ap_public_url_wide a)) \<noteq> 0)"
proof -
  obtain k url code where k: "build_link qapi a = Some (k, a\<lparr>ap_public_url := url, ap_qr := code\<rparr>)" "length url = 512"
    "length (qr_encoded code) = 512" "k \<longrightarrow> link_shown qapi (a\<lparr>ap_public_url := url, ap_qr := code\<rparr>)"
    "k \<longleftrightarrow> link_possible qapi (c_str (ap_relay_base a)) (c_str (rs_token (ap_session a)))"
    using build_link_spec [OF assms] by blast
  obtain m wide where m: "desk_widen desk w (c_str url) (ap_public_url_wide a) = (m, wide)" by fastforce
  define wide' where "wide' = (if k then wide else ap_public_url_wide a)"
  define a' where "a' = a\<lparr>ap_public_url := url, ap_qr := code, ap_public_url_wide := wide'\<rparr>"
  have "drop 288 wide' = drop 288 (ap_public_url_wide a)"
  proof (cases k)
    case True
    then have "length (c_str url) + 1 \<le> 288" using k(4) by (simp add: link_shown_def Let_def)
    then show ?thesis using widen [OF m] drop_drop [of "288 - (length (c_str url) + 1)" "length (c_str url) + 1"] True
      by (metis wide'_def le_add_diff_inverse2)
  qed (simp add: wide'_def)
  then have sh: "app_shape a'" using assms(1) k(2,3) widen [OF m] by (simp add: app_shape_def a'_def wide'_def)
  obtain s where s: "abandon_session a' = Some (a'\<lparr>ap_session := s\<rparr>)" "session_object s" "\<not> session_live s"
    using abandon_session_spec [OF sh] by blast
  have z: "0 \<in> set url" "link_shown qapi a'" if k using k(4) that by (simp_all add: link_shown_def a'_def Let_def)
  have keep: "a\<lparr>ap_public_url := url, ap_qr := code\<rparr> = a'" if "\<not> k" using that by (simp add: a'_def wide'_def)
  have "present_session desk qapi a w = Some (k \<and> m \<noteq> 0, if k \<and> m \<noteq> 0
      then a'\<lparr>ap_qr_valid := True, ap_state := PD_UI_CONNECTING, ap_runtime_result := PD_WIN32_RECEIVER_RUNTIME_OK\<rparr>
      else a'\<lparr>ap_session := s\<rparr>)"
  proof (cases k)
    case True
    then have "a\<lparr>ap_public_url := url, ap_qr := code, ap_public_url_wide := wide\<rparr> = a'" by (simp add: a'_def wide'_def)
    then show ?thesis using True z(1) m s(1) by (simp add: present_session_def k(1) strlen_def)
  next
    case False
    then show ?thesis using s(1) by (simp add: present_session_def k(1) keep)
  qed
  moreover have "k \<Longrightarrow> c_str url = session_link (c_str (ap_relay_base a)) (c_str (rs_token (ap_session a)))"
    using k(4) by (simp add: link_shown_def Let_def)
  ultimately show ?thesis using sh s(2,3) z(2) widen [OF m] m k(5) unfolding Let_def a'_def
    by (intro exI [of _ "k \<and> m \<noteq> 0"] exI [of _ url] exI [of _ code] exI [of _ wide'] exI [of _ s]) (auto simp: wide'_def)
qed

lemma prepare_session_spec:
  assumes "app_shape a"
  shows "\<exists>ok a' b'. pd_prepare_session desk qapi bapi (Some a) w b = Some (ok, Some a', b') \<and> app_shape a' \<and> same_window a a' \<and>
    (ok \<longleftrightarrow> preparation_possible desk qapi bapi a w b) \<and> (if ok then session_prepared desk qapi w a a' else session_refused a a')"
proof -
  let ?token = "hex_of (take 16 (fst (snd (win32_fill bapi b 48))))"
  obtain ok1 a1 b1 where o: "open_session desk bapi a w b = Some (ok1, a1, b1)" "app_shape a1" "ok1 \<longleftrightarrow> session_possible desk bapi a w b"
    "ok1 \<longrightarrow> session_opened desk w a a1 \<and> c_str (rs_token (ap_session a1)) = ?token"
    "\<not> ok1 \<longrightarrow> ap_session a1 = ap_session a \<or> \<not> session_live (ap_session a1)" "same_window a a1" "\<not> ap_qr_valid a1"
    "ap_state a1 = ap_state a" "ap_runtime_result a1 = ap_runtime_result a" "ap_received_bytes a1 = 0" "ap_total_bytes a1 = 0"
    "ap_public_url_wide a1 = (ap_public_url_wide a)[0 := 0]"
    using open_session_spec [OF assms, of w b] unfolding Let_def same_window_def by fastforce
  show ?thesis
  proof (cases ok1)
    case False
    then show ?thesis using o by (auto simp: pd_prepare_session_def session_refused_def preparation_possible_def)
  next
    case True
    then have op: "session_opened desk w a a1" "c_str (rs_token (ap_session a1)) = ?token" using o(4) by blast+
    then have live: "session_inv (ap_session a1)" "session_live (ap_session a1)" "0 \<in> set (ap_relay_base a1)"
      by (simp_all add: session_opened_def session_live_def)
    have base: "c_str (ap_relay_base a1) = (case desk_getenv desk w (c_lit ''PRINTDROP_BASE_URL'') (ap_relay_base a) of (k, buf) \<Rightarrow>
        if k = 0 then c_lit ''https://send.printdrop.app'' else c_str buf)"
      using op(1) by (auto simp: session_opened_def split: prod.splits if_splits)
    obtain ok2 url code wide s where p: "present_session desk qapi a1 w = Some (ok2, if ok2
        then a1\<lparr>ap_public_url := url, ap_qr := code, ap_public_url_wide := wide, ap_qr_valid := True, ap_state := PD_UI_CONNECTING,
          ap_runtime_result := PD_WIN32_RECEIVER_RUNTIME_OK\<rparr>
        else a1\<lparr>ap_public_url := url, ap_qr := code, ap_public_url_wide := wide, ap_session := s\<rparr>)"
      "app_shape (a1\<lparr>ap_public_url := url, ap_qr := code, ap_public_url_wide := wide\<rparr>)" "session_object s" "\<not> session_live s"
      "ok2 \<longrightarrow> link_shown qapi (a1\<lparr>ap_public_url := url, ap_qr := code, ap_public_url_wide := wide\<rparr>) \<and> 0 \<in> set wide"
      "ok2 \<longleftrightarrow> link_possible qapi (c_str (ap_relay_base a1)) (c_str (rs_token (ap_session a1))) \<and>
         fst (desk_widen desk w (session_link (c_str (ap_relay_base a1)) (c_str (rs_token (ap_session a1)))) (ap_public_url_wide a1)) \<noteq> 0"
      using present_session_spec [OF o(2) live, of w] unfolding Let_def by blast
    have pos: "ok2 \<longleftrightarrow> preparation_possible desk qapi bapi a w b"
      unfolding preparation_possible_def o(3) [symmetric] Let_def p(6) base op(2) o(12) using True by simp
    have e: "pd_prepare_session desk qapi bapi (Some a) w b = map_option (\<lambda>(ok, a). (ok, Some a, b1)) (present_session desk qapi a1 w)"
      using True p(1) by (simp add: pd_prepare_session_def o(1))
    show ?thesis
    proof (cases ok2)
      case True
      then show ?thesis using o(6,10,11) op(1) p(1,2,5) e pos
        by (auto simp: app_shape_def same_window_def session_prepared_def session_opened_def link_shown_def split: prod.splits)
    next
      case False
      then show ?thesis using o(6-9) p(1-4) e pos by (auto simp: app_shape_def same_window_def session_refused_def)
    qed
  qed
qed

end

section \<open>A desktop for the witnesses\<close>

text \<open>Its state is the value of the variable, empty for none, and the documents folder; the clock stands still.\<close>

type_synonym plain_desk = "u8 list \<times> wchar list"

definition fill_text :: "('a :: zero) list \<Rightarrow> 'a list \<Rightarrow> bool \<times> 'a list" where
  "fill_text t buf = (if length t < length buf \<and> 0 \<notin> set t then (True, t @ 0 # drop (length t + 1) buf) else (False, buf))"

definition plain_desktop :: "plain_desk desktop_api" where
  "plain_desktop = \<lparr>
     desk_getenv = (\<lambda>w name buf. case fill_text (fst w) buf of (ok, buf') \<Rightarrow> (if ok then length (fst w) else 0, buf')),
     desk_folder = (\<lambda>w buf. fill_text (snd w) buf),
     desk_ticks = (\<lambda>w. 7),
     desk_widen = (\<lambda>w t buf. case fill_text (map ucast t) buf of (ok, buf') \<Rightarrow> (if ok then length t + 1 else 0, buf'))\<rparr>"

lemma fill_text_length: "fill_text t buf = (ok, buf') \<Longrightarrow> length buf' = length buf \<and> drop (length t + 1) buf' = drop (length t + 1) buf \<and>
    (ok \<longrightarrow> 0 \<in> set buf')"
  by (auto simp: fill_text_def split: if_splits)

lemma fill_text_str: "fill_text t buf = (True, buf') \<Longrightarrow> c_str buf' = t"
  by (auto simp: fill_text_def split: if_splits)

interpretation plain: desktop plain_desktop
proof (unfold_locales, goal_cases)
  case (1 w name buf k buf')
  obtain ok b where f: "fill_text (fst w) buf = (ok, b)" by fastforce
  then show ?case using 1 fill_text_length [OF f] fill_text_str [of "fst w" buf b] by (auto simp: plain_desktop_def split: if_splits)
next
  case (2 w wbuf ok wbuf')
  then show ?case using fill_text_length [of "snd w" wbuf] by (simp add: plain_desktop_def)
next
  case (3 w t wbuf k wbuf')
  obtain ok b where f: "fill_text (map ucast t) wbuf = (ok, b)" by fastforce
  then show ?case using 3 fill_text_length [OF f] by (auto simp: plain_desktop_def split: if_splits)
qed

interpretation plain_setup: session_setup plain_desktop tiny_qr mem_bcrypt mb_live mb_hashing checksum
  by unfold_locales

text \<open>The application object at the start of the program: all zero.\<close>

definition zero_app :: pd_app where
  "zero_app = \<lparr>ap_window = 0, ap_worker = 0,
     ap_session = \<lparr>rs_token = replicate 33 0, rs_receiver_secret = replicate 65 0, rs_created_at_ms = 0, rs_expires_at_ms = 0,
       rs_state = PD_RECEIVER_SESSION_INACTIVE\<rparr>,
     ap_qr = \<lparr>qr_encoded = replicate 512 0, qr_size = 0\<rparr>, ap_relay_base = replicate 256 0, ap_public_url = replicate 512 0,
     ap_public_url_wide = replicate 512 0, ap_jobs_root = replicate 260 0, ap_state = PD_UI_CONNECTING,
     ap_runtime_result = PD_WIN32_RECEIVER_RUNTIME_OK, ap_received_bytes = 0, ap_total_bytes = 0, ap_qr_valid = False\<rparr>"

lemma zero_app_shape: "app_shape zero_app"
  by (simp add: app_shape_def zero_app_def session_object_def)

section \<open>Properties\<close>

text \<open>C17: Preparing a session always returns and stays inside every buffer. When it succeeds, a fresh session waits for a
  sender until exactly five minutes after the clock reading, the window holds its link (the relay address
  without trailing slashes, the session path and the token) and a QR code that encodes precisely that link,
  and the receive directory lies below the documents folder. When it fails, no QR code is shown and
  no new session can be used.\<close>

theorem prepare_session_correct:
  assumes "session_setup desk qapi bapi live hashing hash" and "app_shape a"
  shows "\<exists>ok a' b'. pd_prepare_session desk qapi bapi (Some a) w b = Some (ok, Some a', b') \<and> app_shape a' \<and> same_window a a' \<and>
    (ok \<longleftrightarrow> preparation_possible desk qapi bapi a w b) \<and> (if ok then session_prepared desk qapi w a a' else session_refused a a')"
  by (rule session_setup.prepare_session_spec [OF assms])

lemma ucast_nz: "ucast c = (0 :: wchar) \<longleftrightarrow> c = 0" for c :: u8
  using bit_imp_le_length [of c] by (fastforce simp: bit_eq_iff bit_simps)

lemma plain_possible: "preparation_possible plain_desktop tiny_qr mem_bcrypt zero_app ([], w_lit ''C:'') idle_bc"
proof -
  obtain b' where f: "win32_fill mem_bcrypt idle_bc 48 = (True, replicate 48 (mb_seed idle_bc), b')"
    by (simp add: win32_fill_def pd_win32_random_fill_def mem_bcrypt_def put_def nt_failed_def ULONG_MAX_def)
  have e: "desk_getenv plain_desktop ([], w_lit ''C:'') name (ap_relay_base zero_app) = (0, replicate 256 0)" for name
    by (simp add: plain_desktop_def fill_text_def zero_app_def replicate_Suc [symmetric] del: replicate_Suc)
  have d: "case desk_folder plain_desktop ([], w_lit ''C:'') (replicate 260 0) of (found, documents) \<Rightarrow> found \<and> length (w_str documents) \<le> 249"
    by (simp add: plain_desktop_def fill_text_def w_lit_def w_str_def)
  let ?base = "c_lit ''https://send.printdrop.app''" and ?token = "hex_of (take 16 (replicate 48 (mb_seed idle_bc)))"
  have base: "strip_right ?base = ?base" by (simp add: strip_right_def c_lit_def)
  have len: "length (session_link ?base ?token) = 61" by (simp add: session_link_def base)
  have nz: "0 \<notin> set (session_link ?base ?token)" unfolding session_link_def base using hex_of_no_nul [of "take 16 (replicate 48 (mb_seed idle_bc))"]
    by (simp add: c_lit_def)
  have link: "link_possible tiny_qr ?base ?token" using len unfolding link_possible_def base by (simp add: tiny_qr_def c_lit_def)
  have wide: "fst (desk_widen plain_desktop ([], w_lit ''C:'') (session_link ?base ?token) ((ap_public_url_wide zero_app)[0 := 0])) \<noteq> 0"
    using len nz ucast_nz by (auto simp: plain_desktop_def fill_text_def zero_app_def)
  have "desk_ticks plain_desktop ([], w_lit ''C:'') = 7" by (simp add: plain_desktop_def)
  then show ?thesis
    unfolding preparation_possible_def session_possible_def e prod.case fst_conv Let_def f snd_conv
    using d link wide by simp
qed

theorem prepare_session_correct_witness:
  "\<exists>a' b'. pd_prepare_session plain_desktop tiny_qr mem_bcrypt (Some zero_app) ([], w_lit ''C:'') idle_bc = Some (True, Some a', b') \<and>
     app_shape a' \<and> session_prepared plain_desktop tiny_qr ([], w_lit ''C:'') zero_app a'"
  using prepare_session_correct [OF plain_setup.session_setup_axioms zero_app_shape, of "([], w_lit ''C:'')" idle_bc] plain_possible
  by auto

end
