(* ===== verification/PD_Win32Paint.thy ===== *)
theory PD_Win32Paint
  imports Complex_Main PD_Win32App
begin

text \<open>
  The contents of the window (the drawing routines of \<^verbatim>\<open>win32_main.c\<close>): texts, the progress bar and the
  layout. GDI is a parameter, the record \<open>gdi_api\<close> over a drawing state \<open>'g\<close>, with its promises in the locale
  \<open>gdi\<close>; what has been drawn is a list of \<open>draw_op\<close>.

  The ratio of the progress bar is a \<^verbatim>\<open>double\<close>. Each of its operations is the exact one on real numbers
  followed by a rounding \<open>rnd\<close>; the locale \<open>double_rounding\<close> says what IEEE 754 promises of it.
\<close>

section \<open>Data\<close>

datatype dt_flag = DT_LEFT | DT_CENTER | DT_VCENTER | DT_WORDBREAK | DT_SINGLELINE | DT_NOPREFIX

definition FW_NORMAL :: int where "FW_NORMAL = 400"
definition FW_SEMIBOLD :: int where "FW_SEMIBOLD = 600"
definition FW_BOLD :: int where "FW_BOLD = 700"

datatype stock_brush = BLACK_BRUSH | WHITE_BRUSH

definition RGB :: "nat \<Rightarrow> nat \<Rightarrow> nat \<Rightarrow> nat" where
  "RGB r g b = r + 256 * g + 65536 * b"

text \<open>A text is drawn with the selected font, given by its height and weight, and the current colour.\<close>

datatype draw_op =
    Filled RECT stock_brush
  | Framed RECT stock_brush
  | Text "wchar list" RECT "int \<times> int" nat "dt_flag list"

text \<open>The remaining arguments of \<^verbatim>\<open>CreateFontW\<close> are constants. A handle that is not live is an error (\<open>None\<close>).\<close>

record 'g gdi_api =
  BeginPaint :: "'g \<Rightarrow> win_handle \<Rightarrow> win_handle \<times> 'g"
  EndPaint :: "'g \<Rightarrow> win_handle \<Rightarrow> 'g"
  GetClientRect :: "'g \<Rightarrow> win_handle \<Rightarrow> RECT"
  CreateFontW :: "'g \<Rightarrow> int \<Rightarrow> int \<Rightarrow> win_handle \<times> 'g"
  SelectObject :: "'g \<Rightarrow> win_handle \<Rightarrow> win_handle \<Rightarrow> (win_handle \<times> 'g) option"
  DeleteObject :: "'g \<Rightarrow> win_handle \<Rightarrow> 'g option"
  SetTextColor :: "'g \<Rightarrow> win_handle \<Rightarrow> nat \<Rightarrow> 'g"
  SetBkMode :: "'g \<Rightarrow> win_handle \<Rightarrow> 'g"
  DrawTextW :: "'g \<Rightarrow> win_handle \<Rightarrow> wchar list \<Rightarrow> RECT \<Rightarrow> dt_flag list \<Rightarrow> 'g"
  FillRect :: "'g \<Rightarrow> win_handle \<Rightarrow> RECT \<Rightarrow> stock_brush \<Rightarrow> 'g"
  FrameRect :: "'g \<Rightarrow> win_handle \<Rightarrow> RECT \<Rightarrow> stock_brush \<Rightarrow> 'g"

section \<open>Operations\<close>

definition pd_draw_text ::
  "'g gdi_api \<Rightarrow> win_handle \<Rightarrow> wchar list \<Rightarrow> RECT \<Rightarrow> int \<Rightarrow> int \<Rightarrow> nat \<Rightarrow> dt_flag list \<Rightarrow> 'g \<Rightarrow> 'g option" where
  "pd_draw_text gapi device_context txt rect height weight color flags g =
     (case CreateFontW gapi g (- height) weight of (font, g) \<Rightarrow>
        if font = 0 then Some g
        else do {
          (previous, g) \<leftarrow> SelectObject gapi g device_context font;
          let g = SetTextColor gapi g device_context color;
          let g = SetBkMode gapi g device_context;
          t \<leftarrow> w_arg txt;
          let g = DrawTextW gapi g device_context t rect flags;
          (_, g) \<leftarrow> SelectObject gapi g device_context previous;
          DeleteObject gapi g font })"

definition trunc :: "real \<Rightarrow> int" where
  "trunc x = (if x < 0 then \<lceil>x\<rceil> else \<lfloor>x\<rfloor>)"

definition progress_ratio :: "(real \<Rightarrow> real) \<Rightarrow> u64 \<Rightarrow> u64 \<Rightarrow> real" where
  "progress_ratio rnd received_bytes total_bytes =
     (if total_bytes \<noteq> 0
      then let ratio = rnd (rnd (real (unat received_bytes)) / rnd (real (unat total_bytes))) in if 1 < ratio then 1 else ratio
      else 0)"

definition progress_percent :: "(real \<Rightarrow> real) \<Rightarrow> u64 \<Rightarrow> u64 \<Rightarrow> nat" where
  "progress_percent rnd received_bytes total_bytes =
     (if total_bytes \<noteq> 0 then nat (trunc (rnd (rnd (progress_ratio rnd received_bytes total_bytes * 100) + 1 / 2))) else 0)"

fun decimal :: "nat \<Rightarrow> wchar list" where
  "decimal n = (if n < 10 then [48 + of_nat n] else decimal (n div 10) @ [48 + of_nat (n mod 10)])"

declare decimal.simps [simp del]

text \<open>\<^verbatim>\<open>swprintf_s\<close>: a text that does not fit ends the process.\<close>

definition progress_label :: "nat \<Rightarrow> u64 \<Rightarrow> u64 \<Rightarrow> wchar list option" where
  "progress_label percent received_bytes total_bytes =
     put (replicate 96 0) 0 (decimal percent @ w_lit ''%   '' @ decimal (unat received_bytes) @ w_lit '' / '' @
       decimal (unat total_bytes) @ w_lit '' bytes'' @ [0])"

definition InflateRect :: "RECT \<Rightarrow> int \<Rightarrow> int \<Rightarrow> RECT" where
  "InflateRect r dx dy = \<lparr>rect_left = rect_left r - dx, rect_top = rect_top r - dy, rect_right = rect_right r + dx, rect_bottom = rect_bottom r + dy\<rparr>"

definition progress_bar :: "(real \<Rightarrow> real) \<Rightarrow> pd_app \<Rightarrow> RECT \<Rightarrow> RECT" where
  "progress_bar rnd app area =
     (let inside = InflateRect area (- 2) (- 2) in
      inside\<lparr>rect_right := rect_left inside + trunc (rnd (rnd (of_int (rect_right inside - rect_left inside)) *
        progress_ratio rnd (ap_received_bytes app) (ap_total_bytes app)))\<rparr>)"

definition pd_draw_progress :: "(real \<Rightarrow> real) \<Rightarrow> 'g gdi_api \<Rightarrow> win_handle \<Rightarrow> pd_app \<Rightarrow> RECT \<Rightarrow> 'g \<Rightarrow> 'g option" where
  "pd_draw_progress rnd gapi device_context app area g = (
     let percent = progress_percent rnd (ap_received_bytes app) (ap_total_bytes app);
         g = FrameRect gapi g device_context area BLACK_BRUSH;
         filled = progress_bar rnd app area;
         g = (if rect_left filled < rect_right filled then FillRect gapi g device_context filled BLACK_BRUSH else g) in do {
     label \<leftarrow> progress_label percent (ap_received_bytes app) (ap_total_bytes app);
     let label_area = area\<lparr>rect_top := rect_bottom area + 8, rect_bottom := rect_bottom area + 8 + 28\<rparr>;
     pd_draw_text gapi device_context label label_area 14 FW_NORMAL (RGB 90 90 90) [DT_LEFT, DT_SINGLELINE] g })"

definition w_text :: "string \<Rightarrow> wchar list" where
  "w_text s = w_lit s @ [0]"

text \<open>The areas of the window.\<close>

definition qr_area :: "RECT \<Rightarrow> RECT" where
  "qr_area client = \<lparr>rect_left = 32, rect_top = 92, rect_right = rect_right client sdiv 2, rect_bottom = rect_bottom client - 52\<rparr>"

definition title_area :: "RECT \<Rightarrow> RECT" where
  "title_area client = client\<lparr>rect_left := rect_left client + 32, rect_top := rect_top client + 24, rect_bottom := rect_top client + 24 + 44\<rparr>"

definition status_area :: "RECT \<Rightarrow> RECT" where
  "status_area client = \<lparr>rect_left = rect_right client sdiv 2 + 24, rect_top = 120, rect_right = rect_right client - 32, rect_bottom = 120 + 72\<rparr>"

definition below :: "RECT \<Rightarrow> int \<Rightarrow> int \<Rightarrow> RECT" where
  "below r gap height = r\<lparr>rect_top := rect_bottom r + gap, rect_bottom := rect_bottom r + gap + height\<rparr>"

definition path_area :: "RECT \<Rightarrow> RECT" where
  "path_area client = (status_area client)\<lparr>rect_top := rect_bottom client - 88, rect_bottom := rect_bottom client - 28\<rparr>"

definition show_qr :: "pd_app option \<Rightarrow> bool" where
  "show_qr app = (case app of None \<Rightarrow> False
     | Some a \<Rightarrow> ap_qr_valid a \<and> (ap_state a = PD_UI_READY \<or> ap_state a = PD_UI_RECEIVING \<or> ap_state a = PD_UI_VERIFYING))"

definition in_state :: "pd_app option \<Rightarrow> pd_ui_state \<Rightarrow> bool" where
  "in_state app s = (case app of None \<Rightarrow> False | Some a \<Rightarrow> ap_state a = s)"

definition placeholder_text :: "pd_app option \<Rightarrow> string" where
  "placeholder_text app =
     (if in_state app PD_UI_COMPLETE then ''Transfer complete''
      else if in_state app PD_UI_FAILED then ''Receiver unavailable''
      else ''Preparing QR code...'')"

text \<open>A text of the application is drawn unless it is empty.\<close>

definition draw_field :: "'g gdi_api \<Rightarrow> win_handle \<Rightarrow> wchar list option \<Rightarrow> RECT \<Rightarrow> nat \<Rightarrow> 'g \<Rightarrow> 'g option" where
  "draw_field gapi dc txt rect color g =
     (case txt of
        None \<Rightarrow> Some g
      | Some t \<Rightarrow> do {
          first \<leftarrow> rd t 0;
          if first \<noteq> 0 then pd_draw_text gapi dc t rect 13 FW_NORMAL color [DT_LEFT, DT_WORDBREAK, DT_NOPREFIX] g else Some g })"

definition pd_paint :: "(real \<Rightarrow> real) \<Rightarrow> qr_api \<Rightarrow> 'g gdi_api \<Rightarrow> win_handle \<Rightarrow> pd_app option \<Rightarrow> 'g \<Rightarrow> 'g option" where
  "pd_paint rnd qapi gapi window app g =
     (case BeginPaint gapi g window of (dc, g) \<Rightarrow>
       let client = GetClientRect gapi g window;
           g = FillRect gapi g dc client WHITE_BRUSH;
           status = status_area client;
           hint = below status 8 54;
           url = below hint 18 54;
           progress = below url 24 14 in do {
       g \<leftarrow> pd_draw_text gapi dc (w_text ''PrintDrop'') (title_area client) 30 FW_BOLD (RGB 20 20 20) [DT_LEFT, DT_SINGLELINE] g;
       g \<leftarrow> (if show_qr app
             then Some (fold (\<lambda>module g. FillRect gapi g dc module BLACK_BRUSH)
                    (pd_draw_qr qapi (dc \<noteq> 0) (map_option ap_qr app) (Some (qr_area client))) g)
             else pd_draw_text gapi dc (w_text (placeholder_text app)) (qr_area client) 18 FW_SEMIBOLD (RGB 70 70 70)
                    [DT_CENTER, DT_VCENTER, DT_WORDBREAK] g);
       g \<leftarrow> pd_draw_text gapi dc (w_text (pd_state_text app)) status 22 FW_SEMIBOLD
             (if in_state app PD_UI_FAILED then RGB 150 25 25 else RGB 20 20 20) [DT_LEFT, DT_WORDBREAK] g;
       g \<leftarrow> pd_draw_text gapi dc (w_text ''Scan with Android or iPhone. No login, WhatsApp, or cable required.'') hint 15 FW_NORMAL
             (RGB 90 90 90) [DT_LEFT, DT_WORDBREAK] g;
       g \<leftarrow> draw_field gapi dc (map_option ap_public_url_wide app) url (RGB 80 80 80) g;
       g \<leftarrow> (case app of
               Some a \<Rightarrow> if ap_state a = PD_UI_RECEIVING \<or> ap_state a = PD_UI_VERIFYING \<or> ap_state a = PD_UI_COMPLETE
                         then pd_draw_progress rnd gapi dc a progress g else Some g
             | None \<Rightarrow> Some g);
       g \<leftarrow> draw_field gapi dc (map_option ap_jobs_root app) (path_area client) (RGB 110 110 110) g;
       Some (EndPaint gapi g window) })"

section \<open>The progress bar\<close>

declare of_nat_unat [simp del]

locale double_rounding =
  fixes rnd :: "real \<Rightarrow> real"
  assumes rnd_mono: "x \<le> y \<Longrightarrow> rnd x \<le> rnd y"
    and rnd_int: "\<bar>n\<bar> \<le> 2 ^ 53 \<Longrightarrow> rnd (of_int n) = of_int n"
    and rnd_half: "\<bar>n\<bar> \<le> 2 ^ 52 \<Longrightarrow> rnd (of_int n + 1 / 2) = of_int n + 1 / 2"
begin

lemma rnd_consts [simp]: "rnd 0 = 0" "rnd 1 = 1" "rnd 100 = 100" "rnd (201 / 2) = 201 / 2" "rnd (1 / 2) = 1 / 2"
  using rnd_int [of 0] rnd_int [of 1] rnd_int [of 100] rnd_half [of 100] rnd_half [of 0] by simp_all

lemma ratio_bounds: "0 \<le> progress_ratio rnd r t" "progress_ratio rnd r t \<le> 1"
proof -
  have "0 \<le> rnd (real n)" for n using rnd_mono [of 0 "real n"] by simp
  then have "0 \<le> rnd (rnd (real (unat r)) / rnd (real (unat t)))" using rnd_mono [of 0 "rnd (real (unat r)) / rnd (real (unat t))"] by simp
  then show "0 \<le> progress_ratio rnd r t" "progress_ratio rnd r t \<le> 1" by (simp_all add: progress_ratio_def Let_def)
qed

lemma ratio_full:
  assumes "t \<noteq> 0" and "t \<le> r"
  shows "progress_ratio rnd r t = 1"
proof -
  have "1 \<le> unat t" using assms(1) by (simp add: unat_gt_0 Suc_le_eq)
  then have p: "1 \<le> rnd (real (unat t))" using rnd_mono [of 1 "real (unat t)"] by simp
  have "rnd (real (unat t)) \<le> rnd (real (unat r))" using assms(2) by (intro rnd_mono) (simp add: word_le_nat_alt)
  then have "1 \<le> rnd (real (unat r)) / rnd (real (unat t))" using p by (simp add: le_divide_eq)
  then show ?thesis using assms(1) rnd_mono [of 1 "rnd (real (unat r)) / rnd (real (unat t))"] by (simp add: progress_ratio_def Let_def)
qed

lemma ratio_mono:
  assumes "r \<le> r'"
  shows "progress_ratio rnd r t \<le> progress_ratio rnd r' t"
proof -
  have "rnd (real (unat r)) \<le> rnd (real (unat r'))" using assms by (intro rnd_mono) (simp add: word_le_nat_alt)
  moreover have "0 \<le> rnd (real (unat t))" using rnd_mono [of 0 "real (unat t)"] by simp
  ultimately have "rnd (rnd (real (unat r)) / rnd (real (unat t))) \<le> rnd (rnd (real (unat r')) / rnd (real (unat t)))"
    by (metis rnd_mono divide_right_mono)
  then show ?thesis by (simp add: progress_ratio_def Let_def)
qed

lemma trunc_mono: "x \<le> y \<Longrightarrow> trunc x \<le> trunc y"
  by (auto simp: trunc_def floor_mono ceiling_mono intro: order_trans [of "\<lceil>x\<rceil>" 0])

lemma percent_mono: "progress_ratio rnd r t \<le> progress_ratio rnd r' t \<Longrightarrow> progress_percent rnd r t \<le> progress_percent rnd r' t"
  unfolding progress_percent_def by (auto intro!: nat_mono trunc_mono rnd_mono)

lemma percent_spec: "progress_percent rnd r t \<le> 100" "t \<noteq> 0 \<Longrightarrow> t \<le> r \<Longrightarrow> progress_percent rnd r t = 100"
  "r \<le> r' \<Longrightarrow> progress_percent rnd r t \<le> progress_percent rnd r' t"
proof -
  have "rnd (progress_ratio rnd r t * 100) \<le> 100" using ratio_bounds(2) [of r t] rnd_mono [of "progress_ratio rnd r t * 100" 100] by simp
  then have "rnd (rnd (progress_ratio rnd r t * 100) + 1 / 2) \<le> 100 + 1 / 2"
    using rnd_mono [of "rnd (progress_ratio rnd r t * 100) + 1 / 2" "100 + 1 / 2"] by simp
  then have "trunc (rnd (rnd (progress_ratio rnd r t * 100) + 1 / 2)) \<le> trunc (100 + 1 / 2)" by (rule trunc_mono)
  moreover have "trunc (100 + 1 / 2) = 100" by (simp add: trunc_def floor_eq_iff)
  ultimately show "progress_percent rnd r t \<le> 100" by (simp add: progress_percent_def nat_le_iff)
  show "progress_percent rnd r t = 100" if "t \<noteq> 0" "t \<le> r"
    using that(1) ratio_full [OF that] by (simp add: progress_percent_def trunc_def floor_eq_iff)
  show "progress_percent rnd r t \<le> progress_percent rnd r' t" if "r \<le> r'" using percent_mono [OF ratio_mono [OF that]] .
qed

lemma bar_inside:
  assumes "\<bar>rect_right area - rect_left area\<bar> \<le> 2 ^ 32"
  shows "(if 4 \<le> rect_right area - rect_left area
          then rect_left area + 2 \<le> rect_right (progress_bar rnd app area) \<and> rect_right (progress_bar rnd app area) \<le> rect_right area - 2
          else rect_right (progress_bar rnd app area) \<le> rect_left (progress_bar rnd app area))"
proof -
  let ?w = "rect_right area - 2 - (rect_left area + 2)" and ?q = "progress_ratio rnd (ap_received_bytes app) (ap_total_bytes app)"
  define k where "k = trunc (rnd (of_int ?w * ?q))"
  have e: "progress_bar rnd app area = (InflateRect area (- 2) (- 2))\<lparr>rect_right := rect_left area + 2 + k\<rparr>"
    using rnd_int [of ?w] assms by (simp add: progress_bar_def InflateRect_def k_def Let_def)
  have w: "rnd (of_int ?w) = of_int ?w" using rnd_int [of ?w] assms by simp
  note q = ratio_bounds [of "ap_received_bytes app" "ap_total_bytes app"]
  have "0 \<le> k \<and> k \<le> ?w" if "0 \<le> ?w"
  proof -
    have "0 \<le> of_int ?w * ?q" "of_int ?w * ?q \<le> of_int ?w" using that q by (simp_all add: mult_left_le)
    then have "0 \<le> rnd (of_int ?w * ?q)" "rnd (of_int ?w * ?q) \<le> of_int ?w"
      using rnd_mono [of 0 "of_int ?w * ?q"] rnd_mono [of "of_int ?w * ?q" "of_int ?w"] w by simp_all
    then show ?thesis using trunc_mono [of 0 "rnd (of_int ?w * ?q)"] trunc_mono [of "rnd (of_int ?w * ?q)" "of_int ?w"] that
      by (simp add: k_def trunc_def)
  qed
  moreover have "k \<le> 0" if "\<not> 0 \<le> ?w"
  proof -
    have "of_int ?w * ?q \<le> 0" using that q(1) by (intro mult_nonpos_nonneg) linarith+
    then show ?thesis using rnd_mono [of "of_int ?w * ?q" 0] trunc_mono [of "rnd (of_int ?w * ?q)" 0] by (simp add: k_def trunc_def)
  qed
  ultimately show ?thesis by (auto simp: e InflateRect_def)
qed

lemma bar_mono:
  assumes "r \<le> r'" and "4 \<le> rect_right area - rect_left area"
  shows "rect_right (progress_bar rnd (app\<lparr>ap_received_bytes := r, ap_total_bytes := t\<rparr>) area) \<le>
    rect_right (progress_bar rnd (app\<lparr>ap_received_bytes := r', ap_total_bytes := t\<rparr>) area)"
proof -
  let ?w = "rect_right area - 2 - (rect_left area + 2)"
  have "0 \<le> rnd (of_int ?w)" using rnd_mono [of 0 "of_int ?w"] assms(2) by simp
  then have "rnd (of_int ?w) * progress_ratio rnd r t \<le> rnd (of_int ?w) * progress_ratio rnd r' t"
    using ratio_mono [OF assms(1)] by (intro mult_left_mono)
  then have "trunc (rnd (rnd (of_int ?w) * progress_ratio rnd r t)) \<le> trunc (rnd (rnd (of_int ?w) * progress_ratio rnd r' t))"
    by (intro trunc_mono rnd_mono)
  then show ?thesis by (simp add: progress_bar_def InflateRect_def Let_def)
qed

lemma bar_spec:
  assumes "\<bar>rect_right area - rect_left area\<bar> \<le> 2 ^ 32"
  shows "rect_left (progress_bar rnd (app\<lparr>ap_received_bytes := r, ap_total_bytes := t\<rparr>) area) = rect_left area + 2"
    "rect_top (progress_bar rnd (app\<lparr>ap_received_bytes := r, ap_total_bytes := t\<rparr>) area) = rect_top area + 2"
    "rect_bottom (progress_bar rnd (app\<lparr>ap_received_bytes := r, ap_total_bytes := t\<rparr>) area) = rect_bottom area - 2"
    "t \<noteq> 0 \<Longrightarrow> t \<le> r \<Longrightarrow> 4 \<le> rect_right area - rect_left area \<Longrightarrow>
      rect_right (progress_bar rnd (app\<lparr>ap_received_bytes := r, ap_total_bytes := t\<rparr>) area) = rect_right area - 2"
    "r = 0 \<or> t = 0 \<Longrightarrow> rect_right (progress_bar rnd (app\<lparr>ap_received_bytes := r, ap_total_bytes := t\<rparr>) area) = rect_left area + 2"
proof -
  let ?w = "rect_right area - 2 - (rect_left area + 2)"
  have w: "rnd (of_int ?w) = of_int ?w" using rnd_int [of ?w] assms by simp
  show "rect_right (progress_bar rnd (app\<lparr>ap_received_bytes := r, ap_total_bytes := t\<rparr>) area) = rect_right area - 2"
    if "t \<noteq> 0" "t \<le> r" "4 \<le> rect_right area - rect_left area"
    using that(3) ratio_full [OF that(1,2)] w by (simp add: progress_bar_def InflateRect_def Let_def trunc_def)
  show "rect_right (progress_bar rnd (app\<lparr>ap_received_bytes := r, ap_total_bytes := t\<rparr>) area) = rect_left area + 2" if "r = 0 \<or> t = 0"
  proof -
    have "progress_ratio rnd r t = 0" using that by (auto simp: progress_ratio_def)
    then show ?thesis by (simp add: progress_bar_def InflateRect_def Let_def trunc_def)
  qed
qed (simp_all add: progress_bar_def InflateRect_def Let_def)

end

declare of_nat_unat [simp]

text \<open>Rounding to multiples of \<open>2\<^sup>-\<^sup>5\<^sup>2\<close>, the spacing of the numbers between one and two.\<close>

definition fixed_round :: "real \<Rightarrow> real" where
  "fixed_round x = of_int \<lfloor>x * 2 ^ 52 + 1 / 2\<rfloor> / 2 ^ 52"

interpretation fixed: double_rounding fixed_round
proof
  show "fixed_round x \<le> fixed_round y" if "x \<le> y" for x y
    using that by (auto simp: fixed_round_def intro!: divide_right_mono floor_mono)
  have half: "\<lfloor>of_int k + 1 / 2 :: real\<rfloor> = k" for k by linarith
  show "fixed_round (of_int n) = of_int n" for n
    using half [of "n * 2 ^ 52"] by (simp add: fixed_round_def)
  show "fixed_round (of_int n + 1 / 2) = of_int n + 1 / 2" for n
  proof -
    have "(of_int n + 1 / 2) * 2 ^ 52 = (of_int (n * 2 ^ 52 + 2 ^ 51) :: real)" by (simp add: algebra_simps)
    then show ?thesis unfolding fixed_round_def half [of "n * 2 ^ 52 + 2 ^ 51"] by (simp add: half add_divide_distrib)
  qed
qed

lemma length_decimal: "n < 10 ^ k \<Longrightarrow> 0 < k \<Longrightarrow> length (decimal n) \<le> k"
proof (induction k arbitrary: n)
  case (Suc k)
  show ?case
  proof (cases "n < 10")
    case False
    then have "k \<noteq> 0" using Suc.prems(1) by (cases k) simp_all
    then show ?thesis using Suc.IH [of "n div 10"] Suc.prems(1) False by (subst decimal.simps) (simp add: less_mult_imp_div_less mult.commute)
  qed (subst decimal.simps, simp)
qed simp

text \<open>The text for the progress: a percentage and two counts of bytes.\<close>

definition progress_text :: "nat \<Rightarrow> u64 \<Rightarrow> u64 \<Rightarrow> wchar list" where
  "progress_text percent r t = decimal percent @ w_lit ''%   '' @ decimal (unat r) @ w_lit '' / '' @ decimal (unat t) @ w_lit '' bytes''"

lemma decimal_no_nul: "0 \<notin> set (decimal n)"
proof (induction n rule: decimal.induct)
  case (1 n)
  have d: "(0 :: wchar) \<noteq> 48 + of_nat d" if "d < 10" for d
  proof -
    have "unat (48 + of_nat d :: wchar) = 48 + d" using that by (simp add: unat_word_ariths unat_of_nat)
    then show ?thesis by (metis add_is_0 unsigned_0 zero_neq_numeral)
  qed
  show ?case using 1 d [of n] d [of "n mod 10"] by (subst decimal.simps) auto
qed

lemma progress_label_eq:
  assumes "percent \<le> 100"
  shows "\<exists>rest. progress_label percent r t = Some (progress_text percent r t @ 0 # rest) \<and> 0 \<notin> set (progress_text percent r t)"
proof -
  have u: "length (decimal (unat v)) \<le> 20" for v :: u64
    using length_decimal [of "unat v" 20] unsigned_less [of v, where ?'a = nat] by simp
  have "length (decimal percent) \<le> 3" using length_decimal [of percent 3] assms by simp
  then have "length (progress_text percent r t) < 96" using u [of r] u [of t] by (simp add: progress_text_def w_lit_def)
  then show ?thesis
    using put_text [of "progress_text percent r t" "replicate 96 0" 0] decimal_no_nul
    by (simp add: progress_label_def progress_text_def w_lit_def)
qed

section \<open>What GDI promises\<close>

text \<open>
  A created font stays until it is deleted, and a font in use must not be deleted. A device context that
  could not be had draws nothing. The objects of the system are always there.
\<close>

locale gdi =
  fixes gapi :: "'g gdi_api"
    and fonts :: "'g \<Rightarrow> win_handle \<Rightarrow> (int \<times> int) option"
    and selected :: "'g \<Rightarrow> win_handle \<Rightarrow> win_handle"
    and colour :: "'g \<Rightarrow> win_handle \<Rightarrow> nat"
    and drawn :: "'g \<Rightarrow> draw_op list"
    and stock :: "win_handle \<Rightarrow> bool"
  assumes begin_paint: "BeginPaint gapi g w = (dc, g') \<Longrightarrow> fonts g' = fonts g \<and> drawn g' = drawn g \<and> (\<forall>d. stock (selected g d) \<longrightarrow> stock (selected g' d))"
    and end_paint: "fonts (EndPaint gapi g w) = fonts g \<and> drawn (EndPaint gapi g w) = drawn g \<and> selected (EndPaint gapi g w) = selected g"
    and create_font: "CreateFontW gapi g h wt = (f, g') \<Longrightarrow> (selected g', colour g', drawn g') = (selected g, colour g, drawn g) \<and>
      (if f = 0 then fonts g' = fonts g else \<not> stock f \<and> fonts g f = None \<and> fonts g' = (fonts g)(f \<mapsto> (h, wt)))"
    and select: "dc \<noteq> 0 \<Longrightarrow> stock obj \<or> fonts g obj \<noteq> None \<Longrightarrow> \<exists>g'. SelectObject gapi g dc obj = Some (selected g dc, g') \<and>
      (selected g', colour g', drawn g', fonts g') = ((selected g)(dc := obj), colour g, drawn g, fonts g)"
    and select_none: "SelectObject gapi g 0 obj = Some (0, g)"
    and delete_font: "fonts g f \<noteq> None \<Longrightarrow> (\<And>d. selected g d \<noteq> f) \<Longrightarrow> \<exists>g'. DeleteObject gapi g f = Some g' \<and>
      (selected g', colour g', drawn g', fonts g') = (selected g, colour g, drawn g, (fonts g)(f := None))"
    and text_color: "g' = SetTextColor gapi g dc c \<Longrightarrow>
      (selected g', drawn g', fonts g') = (selected g, drawn g, fonts g) \<and> (dc \<noteq> 0 \<longrightarrow> colour g' dc = c)"
    and bk_mode: "g' = SetBkMode gapi g dc \<Longrightarrow> (selected g', colour g', drawn g', fonts g') = (selected g, colour g, drawn g, fonts g)"
    and draw_text: "g' = DrawTextW gapi g dc t r fl \<Longrightarrow> (selected g', fonts g') = (selected g, fonts g) \<and>
      drawn g' = drawn g @ (if dc = 0 then [] else [Text t r (the (fonts g (selected g dc))) (colour g dc) fl])"
    and fill_rect: "g' = FillRect gapi g dc r b \<Longrightarrow> (selected g', fonts g') = (selected g, fonts g) \<and>
      drawn g' = drawn g @ (if dc = 0 then [] else [Filled r b])"
    and frame_rect: "g' = FrameRect gapi g dc r b \<Longrightarrow> (selected g', fonts g') = (selected g, fonts g) \<and>
      drawn g' = drawn g @ (if dc = 0 then [] else [Framed r b])"

text \<open>What reaches the screen of a picture: everything but the texts for which no font could be created.\<close>

inductive rendered :: "draw_op list \<Rightarrow> draw_op list \<Rightarrow> bool" where
  nothing: "rendered [] []"
| shown: "rendered xs ys \<Longrightarrow> rendered (x # xs) (x # ys)"
| no_font: "rendered xs ys \<Longrightarrow> rendered (Text t r f c fl # xs) ys"

lemma rendered_append: "rendered xs ys \<Longrightarrow> rendered xs' ys' \<Longrightarrow> rendered (xs @ xs') (ys @ ys')"
  by (induction rule: rendered.induct) (auto intro: rendered.intros)

lemma rendered_refl: "rendered xs xs"
  by (induction xs) (auto intro: rendered.intros)

text \<open>A drawing routine: it keeps fonts and selections and adds a picture.\<close>

definition draws where
  "draws fonts selected drawn dc picture g g' \<longleftrightarrow> fonts g' = fonts g \<and> selected g' = selected g \<and>
     (\<exists>ops. drawn g' = drawn g @ ops \<and> (if dc = (0 :: win_handle) then ops = [] else rendered picture ops))"

lemma draws_trans:
  assumes "draws fonts selected drawn dc p g g1" and "draws fonts selected drawn dc q g1 g2"
  shows "draws fonts selected drawn dc (p @ q) g g2"
proof -
  obtain x y where "drawn g1 = drawn g @ x" "drawn g2 = drawn g1 @ y" "if dc = 0 then x = [] else rendered p x" "if dc = 0 then y = [] else rendered q y"
    using assms by (auto simp: draws_def)
  then show ?thesis using assms rendered_append by (auto simp: draws_def split: if_splits)
qed

context gdi
begin

abbreviation "adds \<equiv> draws fonts selected drawn"
abbreviation "idle g \<equiv> \<forall>d. stock (selected g d)"

lemma adds_idle: "adds dc p g g' \<Longrightarrow> idle g \<Longrightarrow> idle g'"
  by (simp add: draws_def)

lemma adds_nil: "adds dc [] g g"
  by (auto simp: draws_def intro: rendered.intros)

lemma adds_fill: "adds dc [Filled r b] g (FillRect gapi g dc r b)"
  using fill_rect [OF refl, of g dc r b] by (auto simp: draws_def intro: rendered_refl)

lemma adds_frame: "adds dc [Framed r b] g (FrameRect gapi g dc r b)"
  using frame_rect [OF refl, of g dc r b] by (auto simp: draws_def intro: rendered_refl)

lemma adds_fills: "adds dc (map (\<lambda>r. Filled r b) rs) g (fold (\<lambda>r g. FillRect gapi g dc r b) rs g)"
proof (induction rs arbitrary: g)
  case (Cons r rs)
  then show ?case using draws_trans [OF adds_fill [of dc r b g] Cons.IH] by simp
qed (simp add: adds_nil)

lemma draw_text_spec:
  assumes "idle g" and "0 \<in> set txt"
  shows "\<exists>g'. pd_draw_text gapi dc txt rect height weight color flags g = Some g' \<and>
    adds dc [Text (w_str txt) rect (- height, weight) color flags] g g'"
proof -
  obtain f g1 where f: "CreateFontW gapi g (- height) weight = (f, g1)" by fastforce
  note c = create_font [OF f]
  have t: "w_arg txt = Some (w_str txt)" using assms(2) by (simp add: w_arg_def)
  show ?thesis
  proof (cases "f = 0")
    case True
    then have "adds dc [Text (w_str txt) rect (- height, weight) color flags] g g1"
      using c by (auto simp: draws_def intro: rendered.intros)
    then show ?thesis using True f by (simp add: pd_draw_text_def)
  next
    case False
    let ?g = "\<lambda>g. DrawTextW gapi (SetBkMode gapi (SetTextColor gapi g dc color) dc) dc (w_str txt) rect flags"
    have new: "\<not> stock f" "fonts g f = None" "fonts g1 = (fonts g)(f \<mapsto> (- height, weight))" "selected g1 = selected g" "drawn g1 = drawn g"
      using c False by simp_all
    have fr: "selected (?g x) = selected x" "fonts (?g x) = fonts x" "drawn (?g x) = drawn x @
        (if dc = 0 then [] else [Text (w_str txt) rect (the (fonts x (selected x dc))) color flags])" for x
      using text_color [OF refl, of x dc color] bk_mode [OF refl, of "SetTextColor gapi x dc color" dc]
        draw_text [OF refl, of "SetBkMode gapi (SetTextColor gapi x dc color) dc" dc "w_str txt" rect flags] by simp_all
    obtain g2 where s: "SelectObject gapi g1 dc f = Some (if dc = 0 then 0 else selected g dc, g2)" "fonts g2 = fonts g1" "drawn g2 = drawn g"
      "selected g2 = (if dc = 0 then selected g else (selected g)(dc := f))"
      using select [of dc f g1] select_none [of g1 f] new by (cases "dc = 0") auto
    obtain p g3 where r: "SelectObject gapi (?g g2) dc (if dc = 0 then 0 else selected g dc) = Some (p, g3)" "fonts g3 = fonts g1"
      "selected g3 = selected g" "drawn g3 = drawn (?g g2)"
      using select [of dc "selected g dc" "?g g2"] select_none [of "?g g2" 0] assms(1) fr [of g2] s(2,4) by (cases "dc = 0") auto
    have "selected g3 d \<noteq> f" for d using r(3) assms(1) new(1) by metis
    then obtain g4 where d: "DeleteObject gapi g3 f = Some g4" "selected g4 = selected g3" "drawn g4 = drawn g3" "fonts g4 = (fonts g3)(f := None)"
      using delete_font [of g3 f] r(2) new(3) by auto
    have "pd_draw_text gapi dc txt rect height weight color flags g = Some g4"
      using False f s(1) t r(1) d(1) by (simp add: pd_draw_text_def)
    moreover have "fonts g4 = fonts g" using d(4) r(2) new(2,3) by auto
    moreover have "drawn g4 = drawn g @ (if dc = 0 then [] else [Text (w_str txt) rect (- height, weight) color flags])"
      using d(3) r(4) fr(3) [of g2] s new(3) by simp
    ultimately show ?thesis using d(2) r(3) by (auto simp: draws_def intro: rendered_refl)
  qed
qed

end

section \<open>What the routines draw\<close>

definition progress_picture :: "(real \<Rightarrow> real) \<Rightarrow> pd_app \<Rightarrow> RECT \<Rightarrow> draw_op list" where
  "progress_picture rnd a area =
     Framed area BLACK_BRUSH #
     (let bar = progress_bar rnd a area in if rect_left bar < rect_right bar then [Filled bar BLACK_BRUSH] else []) @
     [Text (progress_text (progress_percent rnd (ap_received_bytes a) (ap_total_bytes a)) (ap_received_bytes a) (ap_total_bytes a))
        (below area 8 28) (- 14, 400) (RGB 90 90 90) [DT_LEFT, DT_SINGLELINE]]"

definition field_picture :: "wchar list \<Rightarrow> RECT \<Rightarrow> nat \<Rightarrow> draw_op list" where
  "field_picture t rect color = (if t = [] then [] else [Text t rect (- 13, 400) color [DT_LEFT, DT_WORDBREAK, DT_NOPREFIX]])"

definition placeholder :: "string \<Rightarrow> RECT \<Rightarrow> draw_op list" where
  "placeholder s client = [Text (w_lit s) (qr_area client) (- 18, 600) (RGB 70 70 70) [DT_CENTER, DT_VCENTER, DT_WORDBREAK]]"

text \<open>The left half by the state: the QR code of a session that can be used, a note in every other state.\<close>

definition left_half :: "qr_api \<Rightarrow> pd_app \<Rightarrow> RECT \<Rightarrow> draw_op list" where
  "left_half qapi a client =
     (case ap_state a of
        PD_UI_CONNECTING \<Rightarrow> placeholder ''Preparing QR code...'' client
      | PD_UI_COMPLETE \<Rightarrow> placeholder ''Transfer complete'' client
      | PD_UI_FAILED \<Rightarrow> placeholder ''Receiver unavailable'' client
      | _ \<Rightarrow> if ap_qr_valid a then map (\<lambda>r. Filled r BLACK_BRUSH) (pd_draw_qr qapi True (Some (ap_qr a)) (Some (qr_area client)))
             else placeholder ''Preparing QR code...'' client)"

definition progress_shown :: "pd_ui_state \<Rightarrow> bool" where
  "progress_shown s \<longleftrightarrow> s = PD_UI_RECEIVING \<or> s = PD_UI_VERIFYING \<or> s = PD_UI_COMPLETE"

definition drawn_picture :: "(real \<Rightarrow> real) \<Rightarrow> qr_api \<Rightarrow> RECT \<Rightarrow> pd_app \<Rightarrow> draw_op list" where
  "drawn_picture rnd qapi client a =
     (let status = status_area client; hint = below status 8 54; url = below hint 18 54 in
      [Filled client WHITE_BRUSH, Text (w_lit ''PrintDrop'') (title_area client) (- 30, 700) (RGB 20 20 20) [DT_LEFT, DT_SINGLELINE]] @
      left_half qapi a client @
      [Text (w_lit (pd_state_text (Some a))) status (- 22, 600) (if ap_state a = PD_UI_FAILED then RGB 150 25 25 else RGB 20 20 20)
         [DT_LEFT, DT_WORDBREAK],
       Text (w_lit ''Scan with Android or iPhone. No login, WhatsApp, or cable required.'') hint (- 15, 400) (RGB 90 90 90)
         [DT_LEFT, DT_WORDBREAK]] @
      field_picture (w_str (ap_public_url_wide a)) url (RGB 80 80 80) @
      (if progress_shown (ap_state a) then progress_picture rnd a (below url 24 14) else []) @
      field_picture (w_str (ap_jobs_root a)) (path_area client) (RGB 110 110 110))"

lemma w_text_simps: "0 \<in> set (w_text s)" "(\<forall>c \<in> set s. of_char c \<noteq> (0 :: wchar)) \<Longrightarrow> w_str (w_text s) = w_lit s"
proof -
  show "0 \<in> set (w_text s)" by (simp add: w_text_def)
  assume "\<forall>c \<in> set s. of_char c \<noteq> (0 :: wchar)"
  then have "0 \<notin> set (w_lit s)" by (fastforce simp: w_lit_def)
  then show "w_str (w_text s) = w_lit s" by (simp add: w_text_def)
qed

lemma state_text_nonzero: "\<forall>c \<in> set (pd_state_text a). of_char c \<noteq> (0 :: wchar)"
  by (auto simp: pd_state_text_def split: option.splits pd_ui_state.splits pd_win32_receiver_runtime_result.splits)

context gdi
begin

lemma label_text_spec:
  assumes "idle g" and "\<forall>c \<in> set s. of_char c \<noteq> (0 :: wchar)"
  shows "\<exists>g'. pd_draw_text gapi dc (w_text s) rect height weight color flags g = Some g' \<and>
    adds dc [Text (w_lit s) rect (- height, weight) color flags] g g'"
  using draw_text_spec [OF assms(1) w_text_simps(1) [of s]] w_text_simps(2) [OF assms(2)] by simp

lemma draw_field_spec:
  assumes "idle g" and "0 \<in> set t"
  shows "\<exists>g'. draw_field gapi dc (Some t) rect color g = Some g' \<and> adds dc (field_picture (w_str t) rect color) g g'"
proof -
  obtain x xs where t: "t = x # xs" using assms(2) by (cases t) auto
  have "w_str t = [] \<longleftrightarrow> x = 0" by (simp add: t w_str_def)
  then show ?thesis
    using draw_text_spec [OF assms, of dc rect 13 FW_NORMAL color "[DT_LEFT, DT_WORDBREAK, DT_NOPREFIX]"] adds_nil [of dc g]
    by (cases "x = 0") (auto simp: draw_field_def t rd_def field_picture_def FW_NORMAL_def)
qed

lemma draw_progress_spec:
  assumes "double_rounding rnd" and "idle g"
  shows "\<exists>g'. pd_draw_progress rnd gapi dc a area g = Some g' \<and> adds dc (progress_picture rnd a area) g g'"
proof -
  let ?p = "progress_percent rnd (ap_received_bytes a) (ap_total_bytes a)" and ?r = "ap_received_bytes a" and ?t = "ap_total_bytes a"
  let ?bar = "progress_bar rnd a area"
  let ?f = "FrameRect gapi g dc area BLACK_BRUSH"
  let ?g = "if rect_left ?bar < rect_right ?bar then FillRect gapi ?f dc ?bar BLACK_BRUSH else ?f"
  obtain rest where l: "progress_label ?p ?r ?t = Some (progress_text ?p ?r ?t @ 0 # rest)" "0 \<notin> set (progress_text ?p ?r ?t)"
    using progress_label_eq [OF double_rounding.percent_spec(1) [OF assms(1)]] by blast
  have a: "adds dc ([Framed area BLACK_BRUSH] @ (if rect_left ?bar < rect_right ?bar then [Filled ?bar BLACK_BRUSH] else [])) g ?g"
    by (rule draws_trans [OF adds_frame]) (simp add: adds_fill adds_nil)
  obtain g' where g': "pd_draw_text gapi dc (progress_text ?p ?r ?t @ 0 # rest) (below area 8 28) 14 FW_NORMAL (RGB 90 90 90) [DT_LEFT, DT_SINGLELINE] ?g = Some g'"
    "adds dc [Text (progress_text ?p ?r ?t) (below area 8 28) (- 14, 400) (RGB 90 90 90) [DT_LEFT, DT_SINGLELINE]] ?g g'"
    using draw_text_spec [OF adds_idle [OF a assms(2)], of "progress_text ?p ?r ?t @ 0 # rest" dc "below area 8 28" 14 FW_NORMAL "RGB 90 90 90" "[DT_LEFT, DT_SINGLELINE]"]
      l(2) by (auto simp: FW_NORMAL_def)
  have "pd_draw_progress rnd gapi dc a area g = Some g'" using l(1) g'(1) by (simp add: pd_draw_progress_def Let_def below_def)
  moreover have "adds dc (progress_picture rnd a area) g g'"
    using draws_trans [OF a g'(2)] by (simp add: progress_picture_def Let_def)
  ultimately show ?thesis by blast
qed

lemma left_half_spec:
  assumes "idle g"
  shows "\<exists>g'. (if show_qr (Some a)
       then Some (fold (\<lambda>module g. FillRect gapi g dc module BLACK_BRUSH) (pd_draw_qr qapi (dc \<noteq> 0) (Some (ap_qr a)) (Some (qr_area client))) g)
       else pd_draw_text gapi dc (w_text (placeholder_text (Some a))) (qr_area client) 18 FW_SEMIBOLD (RGB 70 70 70)
              [DT_CENTER, DT_VCENTER, DT_WORDBREAK] g) = Some g' \<and> adds dc (left_half qapi a client) g g'"
proof (cases "show_qr (Some a)")
  case True
  then have "left_half qapi a client = map (\<lambda>r. Filled r BLACK_BRUSH) (pd_draw_qr qapi True (Some (ap_qr a)) (Some (qr_area client)))"
    by (auto simp: show_qr_def left_half_def)
  moreover have "adds dc ps g (fold (\<lambda>module g. FillRect gapi g dc module BLACK_BRUSH) (pd_draw_qr qapi False q r) g)" if "dc = 0" for ps q r
    using that by (simp add: pd_draw_qr_def draws_def)
  ultimately show ?thesis using True adds_fills [of dc BLACK_BRUSH "pd_draw_qr qapi True (Some (ap_qr a)) (Some (qr_area client))" g]
    by (cases "dc = 0") auto
next
  case False
  then have "left_half qapi a client = placeholder (placeholder_text (Some a)) client"
    by (auto simp: show_qr_def left_half_def placeholder_text_def in_state_def split: pd_ui_state.splits)
  moreover have "\<forall>c \<in> set (placeholder_text (Some a)). of_char c \<noteq> (0 :: wchar)" by (auto simp: placeholder_text_def)
  ultimately show ?thesis
    using False label_text_spec [OF assms, of "placeholder_text (Some a)" dc "qr_area client" 18 FW_SEMIBOLD "RGB 70 70 70"
      "[DT_CENTER, DT_VCENTER, DT_WORDBREAK]"] by (simp add: placeholder_def FW_SEMIBOLD_def)
qed

lemma paint_spec:
  assumes "double_rounding rnd" and "idle g" and "0 \<in> set (ap_public_url_wide a)" and "0 \<in> set (ap_jobs_root a)"
    and "BeginPaint gapi g window = (dc, g0)"
  shows "\<exists>g'. pd_paint rnd qapi gapi window (Some a) g = Some g' \<and> fonts g' = fonts g \<and> idle g' \<and>
    (\<exists>ops. drawn g' = drawn g @ ops \<and>
       (if dc = 0 then ops = [] else rendered (drawn_picture rnd qapi (GetClientRect gapi g0 window) a) ops))"
proof -
  define client where "client = GetClientRect gapi g0 window"
  define status where "status = status_area client"
  define hint where "hint = below status 8 54"
  define url where "url = below hint 18 54"
  have b: "fonts g0 = fonts g" "drawn g0 = drawn g" "idle g0" using begin_paint [OF assms(5)] assms(2) by auto
  note step = adds_idle [OF _ b(3)]
  let ?g1 = "FillRect gapi g0 dc client WHITE_BRUSH"
  have a1: "adds dc [Filled client WHITE_BRUSH] g0 ?g1" by (rule adds_fill)
  obtain g2 where g2: "pd_draw_text gapi dc (w_text ''PrintDrop'') (title_area client) 30 FW_BOLD (RGB 20 20 20) [DT_LEFT, DT_SINGLELINE] ?g1 = Some g2"
    "adds dc [Text (w_lit ''PrintDrop'') (title_area client) (- 30, FW_BOLD) (RGB 20 20 20) [DT_LEFT, DT_SINGLELINE]] ?g1 g2"
    using label_text_spec [OF step [OF a1], of "''PrintDrop''"] by fastforce
  note a2 = draws_trans [OF a1 g2(2)]
  obtain g3 where g3: "(if show_qr (Some a)
       then Some (fold (\<lambda>module g. FillRect gapi g dc module BLACK_BRUSH) (pd_draw_qr qapi (dc \<noteq> 0) (Some (ap_qr a)) (Some (qr_area client))) g2)
       else pd_draw_text gapi dc (w_text (placeholder_text (Some a))) (qr_area client) 18 FW_SEMIBOLD (RGB 70 70 70)
              [DT_CENTER, DT_VCENTER, DT_WORDBREAK] g2) = Some g3" "adds dc (left_half qapi a client) g2 g3"
    using left_half_spec [OF step [OF a2]] by blast
  note a3 = draws_trans [OF a2 g3(2)]
  let ?c = "if in_state (Some a) PD_UI_FAILED then RGB 150 25 25 else RGB 20 20 20"
  obtain g4 where g4: "pd_draw_text gapi dc (w_text (pd_state_text (Some a))) status 22 FW_SEMIBOLD ?c [DT_LEFT, DT_WORDBREAK] g3 = Some g4"
    "adds dc [Text (w_lit (pd_state_text (Some a))) status (- 22, FW_SEMIBOLD) ?c [DT_LEFT, DT_WORDBREAK]] g3 g4"
    using label_text_spec [OF step [OF a3] state_text_nonzero] by blast
  note a4 = draws_trans [OF a3 g4(2)]
  let ?h = "''Scan with Android or iPhone. No login, WhatsApp, or cable required.''"
  obtain g5 where g5: "pd_draw_text gapi dc (w_text ?h) hint 15 FW_NORMAL (RGB 90 90 90) [DT_LEFT, DT_WORDBREAK] g4 = Some g5"
    "adds dc [Text (w_lit ?h) hint (- 15, FW_NORMAL) (RGB 90 90 90) [DT_LEFT, DT_WORDBREAK]] g4 g5"
    using label_text_spec [OF step [OF a4], of ?h] by fastforce
  note a5 = draws_trans [OF a4 g5(2)]
  obtain g6 where g6: "draw_field gapi dc (Some (ap_public_url_wide a)) url (RGB 80 80 80) g5 = Some g6"
    "adds dc (field_picture (w_str (ap_public_url_wide a)) url (RGB 80 80 80)) g5 g6"
    using draw_field_spec [OF step [OF a5] assms(3)] by blast
  note a6 = draws_trans [OF a5 g6(2)]
  obtain g7 where g7: "(if progress_shown (ap_state a) then pd_draw_progress rnd gapi dc a (below url 24 14) g6 else Some g6) = Some g7"
    "adds dc (if progress_shown (ap_state a) then progress_picture rnd a (below url 24 14) else []) g6 g7"
    using draw_progress_spec [OF assms(1) step [OF a6], of dc a "below url 24 14"] adds_nil [of dc g6] by (cases "progress_shown (ap_state a)") auto
  note a7 = draws_trans [OF a6 g7(2)]
  obtain g8 where g8: "draw_field gapi dc (Some (ap_jobs_root a)) (path_area client) (RGB 110 110 110) g7 = Some g8"
    "adds dc (field_picture (w_str (ap_jobs_root a)) (path_area client) (RGB 110 110 110)) g7 g8"
    using draw_field_spec [OF step [OF a7] assms(4)] by blast
  note a8 = draws_trans [OF a7 g8(2)]
  have "pd_paint rnd qapi gapi window (Some a) g = Some (EndPaint gapi g8 window)"
    unfolding pd_paint_def assms(5) prod.case Let_def client_def [symmetric] status_def [symmetric] hint_def [symmetric] url_def [symmetric]
      option.map option.case progress_shown_def [symmetric] g2(1) g3(1) g4(1) g5(1) g6(1) g7(1) g8(1) Option.bind.bind_lunit ..
  moreover have "adds dc (drawn_picture rnd qapi client a) g0 g8"
    using a8 unfolding drawn_picture_def Let_def status_def [symmetric] hint_def [symmetric] url_def [symmetric] in_state_def option.case
      FW_NORMAL_def FW_SEMIBOLD_def FW_BOLD_def append_assoc append.simps .
  ultimately show ?thesis using b end_paint [of g8 window] by (auto simp: draws_def client_def [symmetric])
qed

end

section \<open>What the window shows\<close>

text \<open>
  The picture of each state of the application, told without the routines that draw it: every text, rectangle,
  font and colour is a literal, as a function of the size of the window and of the state.
\<close>

definition rect :: "int \<Rightarrow> int \<Rightarrow> int \<Rightarrow> int \<Rightarrow> RECT" where
  "rect l t r b = \<lparr>rect_left = l, rect_top = t, rect_right = r, rect_bottom = b\<rparr>"

text \<open>The words for each state; a failure is told by its cause.\<close>

definition failure_words :: "(pd_win32_receiver_runtime_result \<times> string) list" where
  "failure_words =
     [(PD_WIN32_RECEIVER_RUNTIME_REGISTRATION_ERROR, ''Relay registration failed''),
      (PD_WIN32_RECEIVER_RUNTIME_RELAY_ERROR, ''Relay connection failed''),
      (PD_WIN32_RECEIVER_RUNTIME_STORAGE_ERROR, ''Could not write the file''),
      (PD_WIN32_RECEIVER_RUNTIME_PROTOCOL_ERROR, ''Transfer protocol failed''),
      (PD_WIN32_RECEIVER_RUNTIME_ENDPOINT_ERROR, ''Relay URL is invalid'')]"

definition state_words :: "pd_ui_state \<Rightarrow> pd_win32_receiver_runtime_result \<Rightarrow> string" where
  "state_words s res =
     (if s = PD_UI_CONNECTING then ''Connecting to relay''
      else if s = PD_UI_READY then ''Ready - scan the QR code''
      else if s = PD_UI_RECEIVING then ''Receiving file''
      else if s = PD_UI_VERIFYING then ''Verifying SHA-256''
      else if s = PD_UI_COMPLETE then ''Complete - preparing next QR''
      else case map_of failure_words res of Some t \<Rightarrow> t | None \<Rightarrow> ''PrintDrop failed to start'')"

text \<open>
  The code in an area: modules of the largest size that leaves four of them free on every side, in the middle,
  one black square for each black module.
\<close>

definition code_picture :: "qr_api \<Rightarrow> pd_qr_code \<Rightarrow> RECT \<Rightarrow> draw_op list" where
  "code_picture qapi c area =
     (let n = qr_size c; w = rect_right area - rect_left area; h = rect_bottom area - rect_top area; px = min w h div (n + 8) in
      if 0 < n \<and> n + 8 \<le> w \<and> n + 8 \<le> h
      then map (\<lambda>square. Filled square BLACK_BRUSH)
             (qr_image qapi c px (rect_left area + (w - px * (n + 8)) div 2 + 4 * px) (rect_top area + (h - px * (n + 8)) div 2 + 4 * px))
      else [])"

text \<open>
  The share of the file that has arrived, with the roundings of the division. The bar is as long as that share of
  the room in its frame, in whole pixels, and not drawn when it has no pixel; the percentage is rounded to the
  nearest number.
\<close>

definition share :: "(real \<Rightarrow> real) \<Rightarrow> u64 \<Rightarrow> u64 \<Rightarrow> real" where
  "share rnd received announced =
     (if announced = 0 then 0 else if announced \<le> received then 1
      else rnd (rnd (real (unat received)) / rnd (real (unat announced))))"

definition progress_view :: "(real \<Rightarrow> real) \<Rightarrow> u64 \<Rightarrow> u64 \<Rightarrow> int \<Rightarrow> int \<Rightarrow> draw_op list" where
  "progress_view rnd received announced l r =
     (let room = r - l - 4; pixels = \<lfloor>rnd (rnd (of_int room) * share rnd received announced)\<rfloor>;
          percent = nat \<lfloor>rnd (rnd (share rnd received announced * 100) + 1 / 2)\<rfloor> in
      [Framed (rect l 350 r 364) BLACK_BRUSH] @
      (if 0 < room \<and> 0 < pixels then [Filled (rect (l + 2) 352 (l + 2 + pixels) 362) BLACK_BRUSH] else []) @
      [Text (decimal percent @ w_lit ''%   '' @ decimal (unat received) @ w_lit '' / '' @ decimal (unat announced) @ w_lit '' bytes'')
         (rect l 372 r 400) (- 14, 400) (RGB 90 90 90) [DT_LEFT, DT_SINGLELINE]])"

definition window_picture :: "(real \<Rightarrow> real) \<Rightarrow> qr_api \<Rightarrow> RECT \<Rightarrow> pd_app \<Rightarrow> draw_op list" where
  "window_picture rnd qapi client a =
     (let middle = rect_right client sdiv 2; bottom = rect_bottom client; l = middle + 24; r = rect_right client - 32;
          s = ap_state a; left = rect 32 92 middle (bottom - 52);
          note = (\<lambda>t. [Text (w_lit t) left (- 18, 600) (RGB 70 70 70) [DT_CENTER, DT_VCENTER, DT_WORDBREAK]]);
          small = (\<lambda>t area colour. if t = [] then [] else [Text t area (- 13, 400) colour [DT_LEFT, DT_WORDBREAK, DT_NOPREFIX]]) in
      [Filled client WHITE_BRUSH,
       Text (w_lit ''PrintDrop'') (rect (rect_left client + 32) (rect_top client + 24) (rect_right client) (rect_top client + 68))
         (- 30, 700) (RGB 20 20 20) [DT_LEFT, DT_SINGLELINE]] @
      (if s = PD_UI_COMPLETE then note ''Transfer complete''
       else if s = PD_UI_FAILED then note ''Receiver unavailable''
       else if s = PD_UI_CONNECTING \<or> \<not> ap_qr_valid a then note ''Preparing QR code...''
       else code_picture qapi (ap_qr a) left) @
      [Text (w_lit (state_words s (ap_runtime_result a))) (rect l 120 r 192) (- 22, 600)
         (if s = PD_UI_FAILED then RGB 150 25 25 else RGB 20 20 20) [DT_LEFT, DT_WORDBREAK],
       Text (w_lit ''Scan with Android or iPhone. No login, WhatsApp, or cable required.'') (rect l 200 r 254) (- 15, 400)
         (RGB 90 90 90) [DT_LEFT, DT_WORDBREAK]] @
      small (w_str (ap_public_url_wide a)) (rect l 272 r 326) (RGB 80 80 80) @
      (if s \<in> {PD_UI_RECEIVING, PD_UI_VERIFYING, PD_UI_COMPLETE}
       then progress_view rnd (ap_received_bytes a) (ap_total_bytes a) l r else []) @
      small (w_str (ap_jobs_root a)) (rect l (bottom - 88) r (bottom - 28)) (RGB 110 110 110))"

lemma state_words_eq: "pd_state_text (Some a) = state_words (ap_state a) (ap_runtime_result a)"
  by (cases "ap_state a"; cases "ap_runtime_result a") (simp_all add: pd_state_text_def state_words_def failure_words_def)

lemma code_picture_eq: "map (\<lambda>r. Filled r BLACK_BRUSH) (pd_draw_qr qapi True (Some c) (Some area)) = code_picture qapi c area"
  by (simp add: code_picture_def pd_draw_qr_exact Let_def)

lemma code_note_eq: "left_half qapi a client =
    (let left = rect 32 92 (rect_right client sdiv 2) (rect_bottom client - 52);
         note = (\<lambda>t. [Text (w_lit t) left (- 18, 600) (RGB 70 70 70) [DT_CENTER, DT_VCENTER, DT_WORDBREAK]]); s = ap_state a in
     if s = PD_UI_COMPLETE then note ''Transfer complete''
     else if s = PD_UI_FAILED then note ''Receiver unavailable''
     else if s = PD_UI_CONNECTING \<or> \<not> ap_qr_valid a then note ''Preparing QR code...''
     else code_picture qapi (ap_qr a) left)"
  by (cases "ap_state a") (simp_all add: left_half_def placeholder_def code_picture_eq Let_def qr_area_def rect_def)

context double_rounding
begin

lemma share_eq: "progress_ratio rnd r t = share rnd r t"
proof (cases "t = 0 \<or> t \<le> r")
  case True
  then show ?thesis using ratio_full [of t r] by (cases "t = 0") (simp_all add: share_def progress_ratio_def)
next
  case False
  then have "real (unat r) \<le> real (unat t)" by (simp add: word_le_nat_alt del: of_nat_unat)
  then have lt: "rnd (real (unat r)) \<le> rnd (real (unat t))" "0 < unat t" using False by (auto intro!: rnd_mono simp: unat_gt_0 simp del: of_nat_unat)
  have "1 \<le> rnd (real (unat t))" using rnd_mono [of 1 "real (unat t)"] lt(2) by (simp del: of_nat_unat)
  then have "rnd (real (unat r)) / rnd (real (unat t)) \<le> 1" using lt(1) by simp
  then have "rnd (rnd (real (unat r)) / rnd (real (unat t))) \<le> 1" using rnd_mono [of _ 1] by fastforce
  then show ?thesis using False by (auto simp: share_def progress_ratio_def Let_def)
qed

lemma progress_view_eq:
  assumes "rect_top area = 350" and "rect_bottom area = 364"
  shows "progress_picture rnd a area = progress_view rnd (ap_received_bytes a) (ap_total_bytes a) (rect_left area) (rect_right area)"
proof -
  let ?q = "share rnd (ap_received_bytes a) (ap_total_bytes a)" and ?l = "rect_left area" and ?r = "rect_right area"
  note q = ratio_bounds [of "ap_received_bytes a" "ap_total_bytes a", unfolded share_eq]
  have area: "area = rect ?l 350 ?r 364" using assms by (simp add: rect_def)
  have "0 \<le> rnd (?q * 100)" using rnd_mono [of 0 "?q * 100"] q(1) by simp
  then have "0 \<le> rnd (rnd (?q * 100) + 1 / 2)" using rnd_mono [of 0 "rnd (?q * 100) + 1 / 2"] by simp
  then have percent: "progress_percent rnd (ap_received_bytes a) (ap_total_bytes a) = nat \<lfloor>rnd (rnd (?q * 100) + 1 / 2)\<rfloor>"
    by (simp add: progress_percent_def share_eq trunc_def share_def)
  define room where "room = ?r - ?l - 4"
  define x where "x = rnd (rnd (of_int room) * ?q)"
  have bar: "progress_bar rnd a area = rect (?l + 2) 352 (?l + 2 + trunc x) 362"
    using assms by (simp add: progress_bar_def InflateRect_def Let_def share_eq rect_def x_def room_def diff_diff_eq algebra_simps)
  have pos: "0 \<le> x" if "0 < room"
  proof -
    have "0 \<le> rnd (of_int room) * ?q" using rnd_mono [of 0 "of_int room"] that q(1) by simp
    then show ?thesis using rnd_mono [of 0 "rnd (of_int room) * ?q"] by (simp add: x_def)
  qed
  have neg: "trunc x \<le> 0" if "\<not> 0 < room"
  proof -
    have "rnd (of_int room) * ?q \<le> 0" using rnd_mono [of "of_int room" 0] that q(1) by (simp add: mult_nonpos_nonneg)
    then show ?thesis using rnd_mono [of "rnd (of_int room) * ?q" 0] trunc_mono [of x 0] by (simp add: x_def trunc_def)
  qed
  have "0 < trunc x \<longleftrightarrow> 0 < room \<and> 0 < \<lfloor>x\<rfloor>" "0 < room \<Longrightarrow> trunc x = \<lfloor>x\<rfloor>"
    using pos neg by (cases "0 < room"; simp add: trunc_def)+
  then show ?thesis
    using assms unfolding progress_picture_def progress_view_def percent bar Let_def room_def [symmetric] x_def [symmetric] progress_text_def
    by (auto simp: rect_def below_def)
qed

lemma drawn_picture_eq: "drawn_picture rnd qapi client a = window_picture rnd qapi client a"
proof -
  let ?l = "rect_right client sdiv 2 + 24" and ?r = "rect_right client - 32"
  have places: "title_area client = rect (rect_left client + 32) (rect_top client + 24) (rect_right client) (rect_top client + 68)"
    "status_area client = rect ?l 120 ?r 192" "path_area client = rect ?l (rect_bottom client - 88) ?r (rect_bottom client - 28)"
    "below (rect x y z w) gap height = rect x (w + gap) z (w + gap + height)" for x y z w gap height
    by (simp_all add: title_area_def status_area_def below_def path_area_def rect_def)
  have view: "progress_picture rnd a (rect ?l 350 ?r 364) = progress_view rnd (ap_received_bytes a) (ap_total_bytes a) ?l ?r"
    using progress_view_eq [of "rect ?l 350 ?r 364" a] by (simp add: rect_def)
  show ?thesis
    unfolding drawn_picture_def window_picture_def Let_def places state_words_eq field_picture_def progress_shown_def code_note_eq
    by (simp add: view)
qed

end

section \<open>A screen for the witnesses\<close>

text \<open>It has room for one font and its device context has the number five; object two is the system font.\<close>

record mem_gdi =
  mg_font :: "(int \<times> int) option"
  mg_selected :: "win_handle \<Rightarrow> win_handle"
  mg_colour :: "win_handle \<Rightarrow> nat"
  mg_drawn :: "draw_op list"

definition mg_fonts :: "mem_gdi \<Rightarrow> win_handle \<Rightarrow> (int \<times> int) option" where
  "mg_fonts g h = (if h = 1 then mg_font g else None)"

definition mg_draw :: "mem_gdi \<Rightarrow> win_handle \<Rightarrow> draw_op \<Rightarrow> mem_gdi" where
  "mg_draw g dc x = g\<lparr>mg_drawn := mg_drawn g @ (if dc = 0 then [] else [x])\<rparr>"

definition mem_gdi_api :: "mem_gdi gdi_api" where
  "mem_gdi_api = \<lparr>
     BeginPaint = (\<lambda>g w. (5, g)), EndPaint = (\<lambda>g w. g),
     GetClientRect = (\<lambda>g w. \<lparr>rect_left = 0, rect_top = 0, rect_right = 764, rect_bottom = 501\<rparr>),
     CreateFontW = (\<lambda>g h wt. if mg_font g = None then (1, g\<lparr>mg_font := Some (h, wt)\<rparr>) else (0, g)),
     SelectObject = (\<lambda>g dc obj. if dc = 0 then Some (0, g)
       else if obj = 2 \<or> mg_fonts g obj \<noteq> None then Some (mg_selected g dc, g\<lparr>mg_selected := (mg_selected g)(dc := obj)\<rparr>) else None),
     DeleteObject = (\<lambda>g f. if mg_fonts g f \<noteq> None then Some (g\<lparr>mg_font := None\<rparr>) else None),
     SetTextColor = (\<lambda>g dc c. g\<lparr>mg_colour := (mg_colour g)(dc := c)\<rparr>),
     SetBkMode = (\<lambda>g dc. g),
     DrawTextW = (\<lambda>g dc t r fl. mg_draw g dc (Text t r (the (mg_fonts g (mg_selected g dc))) (mg_colour g dc) fl)),
     FillRect = (\<lambda>g dc r b. mg_draw g dc (Filled r b)),
     FrameRect = (\<lambda>g dc r b. mg_draw g dc (Framed r b))\<rparr>"

interpretation screen: gdi mem_gdi_api mg_fonts mg_selected mg_colour mg_drawn "\<lambda>h. h = 2"
  by unfold_locales (auto simp: mem_gdi_api_def mg_fonts_def mg_draw_def fun_eq_iff split: if_splits)

section \<open>Properties\<close>

text \<open>C18: Painting the window always returns, reads only inside the texts of the application, deletes every font it
  creates after the previous one is selected again, and draws exactly the picture of the application's
  state, in order: the QR code only while a session can be used and its code is valid, a note in its
  place otherwise, the progress only from the start of a file on. Only a text whose font could not be
  created is missing.\<close>

theorem paint_correct:
  assumes "gdi gapi fonts selected colour drawn stock" and "double_rounding rnd" and "app_shape a"
    and "\<forall>d. stock (selected g d)" and "BeginPaint gapi g window = (dc, g0)"
  shows "\<exists>g'. pd_paint rnd qapi gapi window (Some a) g = Some g' \<and> fonts g' = fonts g \<and> (\<forall>d. stock (selected g' d)) \<and>
    (\<exists>ops. drawn g' = drawn g @ ops \<and>
       (if dc = 0 then ops = [] else rendered (window_picture rnd qapi (GetClientRect gapi g0 window) a) ops))"
proof -
  have "0 \<in> set (ap_public_url_wide a)" "0 \<in> set (ap_jobs_root a)"
    using assms(3) set_drop_subset [of 288 "ap_public_url_wide a"] by (auto simp: app_shape_def)
  then show ?thesis using gdi.paint_spec [OF assms(1,2,4) _ _ assms(5)] unfolding double_rounding.drawn_picture_eq [OF assms(2)] by blast
qed

definition clear_screen :: mem_gdi where
  "clear_screen = \<lparr>mg_font = None, mg_selected = \<lambda>_. 2, mg_colour = \<lambda>_. 0, mg_drawn = []\<rparr>"

lemma clear_screen_simps:
  "BeginPaint mem_gdi_api g 9 = (5, g)"
  "GetClientRect mem_gdi_api g 9 = \<lparr>rect_left = 0, rect_top = 0, rect_right = 764, rect_bottom = 501\<rparr>"
  "mg_selected clear_screen = (\<lambda>_. 2)" "mg_fonts clear_screen = (\<lambda>_. None)" "mg_drawn clear_screen = []"
  by (simp_all add: mem_gdi_api_def clear_screen_def mg_fonts_def fun_eq_iff)

theorem paint_correct_witness:
  "\<exists>g'. pd_paint fixed_round tiny_qr mem_gdi_api 9 (Some zero_app) clear_screen = Some g' \<and> mg_fonts g' = (\<lambda>_. None) \<and>
     rendered (window_picture fixed_round tiny_qr \<lparr>rect_left = 0, rect_top = 0, rect_right = 764, rect_bottom = 501\<rparr> zero_app) (mg_drawn g')"
  using paint_correct [OF screen.gdi_axioms fixed.double_rounding_axioms zero_app_shape, of clear_screen 9 5 clear_screen tiny_qr]
  by (auto simp: clear_screen_simps)

text \<open>C20: The percentage shown is never above one hundred, is one hundred when all announced bytes have arrived and
  never falls while more bytes arrive. The filled part of the bar starts at the left end of the room inside its
  frame and never leaves it, never gets shorter while more bytes arrive, fills the whole room when all
  announced bytes have arrived and is empty before the first byte and while no size is announced, however the
  floating-point operations round; a frame without room has no bar.\<close>

theorem progress_in_bounds:
  assumes "double_rounding rnd" and "received \<le> received'" and "\<bar>rect_right area - rect_left area\<bar> \<le> 2 ^ 32"
  shows "progress_percent rnd received announced \<le> 100 \<and>
    (announced \<noteq> 0 \<and> announced \<le> received \<longrightarrow> progress_percent rnd received announced = 100) \<and>
    progress_percent rnd received announced \<le> progress_percent rnd received' announced \<and>
    (let bar = (\<lambda>n. progress_bar rnd (app\<lparr>ap_received_bytes := n, ap_total_bytes := announced\<rparr>) area) in
     if 4 \<le> rect_right area - rect_left area
     then rect_left (bar received) = rect_left area + 2 \<and> rect_top (bar received) = rect_top area + 2 \<and>
       rect_bottom (bar received) = rect_bottom area - 2 \<and>
       rect_left area + 2 \<le> rect_right (bar received) \<and> rect_right (bar received) \<le> rect_right (bar received') \<and>
       rect_right (bar received') \<le> rect_right area - 2 \<and>
       (announced \<noteq> 0 \<and> announced \<le> received \<longrightarrow> rect_right (bar received) = rect_right area - 2) \<and>
       (received = 0 \<or> announced = 0 \<longrightarrow> rect_right (bar received) = rect_left area + 2)
     else rect_right (bar received) \<le> rect_left (bar received))"
proof -
  let ?bar = "\<lambda>n. progress_bar rnd (app\<lparr>ap_received_bytes := n, ap_total_bytes := announced\<rparr>) area"
  note in_frame = double_rounding.bar_inside [OF assms(1,3), of "app\<lparr>ap_received_bytes := _, ap_total_bytes := announced\<rparr>"]
  note bar = double_rounding.bar_spec [OF assms(1,3), where t = announced and app = app and r = received]
  have "rect_right (?bar received) \<le> rect_right (?bar received')" if "4 \<le> rect_right area - rect_left area"
    using double_rounding.bar_mono [OF assms(1,2) that] .
  then show ?thesis
    using double_rounding.percent_spec [OF assms(1)] in_frame [of received] in_frame [of received'] bar assms(2)
    unfolding Let_def by (cases "4 \<le> rect_right area - rect_left area") auto
qed

theorem progress_in_bounds_witness:
  "progress_percent fixed_round 3 7 \<le> progress_percent fixed_round 7 7 \<and> progress_percent fixed_round 3 7 \<le> 100 \<and>
   rect_right (progress_bar fixed_round (zero_app\<lparr>ap_received_bytes := 7, ap_total_bytes := 7\<rparr>) \<lparr>rect_left = 10, rect_top = 0, rect_right = 110, rect_bottom = 14\<rparr>) = 108"
  using progress_in_bounds [OF fixed.double_rounding_axioms, of 3 7 "\<lparr>rect_left = 10, rect_top = 0, rect_right = 110, rect_bottom = 14\<rparr>" 7 zero_app]
    progress_in_bounds [OF fixed.double_rounding_axioms, of 7 7 "\<lparr>rect_left = 10, rect_top = 0, rect_right = 110, rect_bottom = 14\<rparr>" 7 zero_app]
  by (simp add: Let_def word_le_def)

end
