(* ===== verification/PD_Win32Events.thy ===== *)
theory PD_Win32Events
  imports PD_Win32Runtime
begin

text \<open>
  The events a run of the receiver reports (\<^verbatim>\<open>pd_loop_emit\<close> in \<^verbatim>\<open>receiver_loop.c\<close>), seen from their
  receiver: whatever the callback does with its state, a run is a sequence of calls of the callback that
  starts with the report that the receiver is ready and ends with the only report of the outcome.
\<close>

section \<open>What a routine yields if it returns\<close>

definition yields :: "('a \<Rightarrow> bool) \<Rightarrow> 'a option \<Rightarrow> bool" where
  "yields P m \<longleftrightarrow> (\<forall>x. m = Some x \<longrightarrow> P x)"

lemma yields_bind: "(\<And>x. m = Some x \<Longrightarrow> yields P (k x)) \<Longrightarrow> yields P (m \<bind> k)"
  by (auto simp: yields_def bind_eq_Some_conv)

lemma yields_if: "(b \<Longrightarrow> yields P m) \<Longrightarrow> (\<not> b \<Longrightarrow> yields P n) \<Longrightarrow> yields P (if b then m else n)"
  by simp

lemma yields_prod: "(\<And>a b. x = (a, b) \<Longrightarrow> yields P (f a b)) \<Longrightarrow> yields P (case x of (a, b) \<Rightarrow> f a b)"
  by (cases x) simp

lemma yields_Some: "P x \<Longrightarrow> yields P (Some x)"
  by (simp add: yields_def)

lemma yields_map: "yields (\<lambda>x. P (f x)) m \<Longrightarrow> yields P (map_option f m)"
  by (auto simp: yields_def)

lemmas yields_rules = yields_bind yields_if yields_prod yields_map

section \<open>Reports\<close>

type_synonym loop_report = "pd_receiver_loop_event \<times> u64 \<times> u64"

fun event_run :: "'e pd_receiver_loop_event_fn \<Rightarrow> 'e \<Rightarrow> loop_report list \<Rightarrow> 'e option" where
  "event_run f e [] = Some e"
| "event_run f e ((ev, r, t) # evs) = do { e \<leftarrow> f e ev r t; event_run f e evs }"

lemma event_run_append: "event_run f e (xs @ ys) = event_run f e xs \<bind> (\<lambda>e. event_run f e ys)"
proof (induction xs arbitrary: e)
  case (Cons x xs)
  then show ?case by (cases x) (auto simp: bind_eq_None_conv split: Option.bind_splits)
qed simp

definition under_way :: "loop_report list \<Rightarrow> bool" where
  "under_way evs \<longleftrightarrow> fst ` set evs \<subseteq> {PD_RECEIVER_LOOP_FILE_STARTED, PD_RECEIVER_LOOP_PROGRESS, PD_RECEIVER_LOOP_VERIFYING}"

lemma under_way_simps [simp]: "under_way []" "under_way (xs @ ys) \<longleftrightarrow> under_way xs \<and> under_way ys"
  "under_way [(ev, r, t)] \<longleftrightarrow> ev \<in> {PD_RECEIVER_LOOP_FILE_STARTED, PD_RECEIVER_LOOP_PROGRESS, PD_RECEIVER_LOOP_VERIFYING}"
  by (auto simp: under_way_def)

definition outcome_event :: "pd_receiver_loop_result \<Rightarrow> pd_receiver_loop_event" where
  "outcome_event res = (if res = PD_RECEIVER_LOOP_OK then PD_RECEIVER_LOOP_COMPLETE else PD_RECEIVER_LOOP_FAILED)"

text \<open>The reports of a part of a run that ends with a result.\<close>

definition ends_with :: "'e pd_receiver_loop_event_fn \<Rightarrow> 'e \<Rightarrow> pd_receiver_loop_result \<Rightarrow> 'e \<Rightarrow> bool" where
  "ends_with f e res e' \<longleftrightarrow> (\<exists>mid r t. under_way mid \<and> event_run f e (mid @ [(outcome_event res, r, t)]) = Some e')"

definition goes_on :: "'e pd_receiver_loop_event_fn \<Rightarrow> 'e \<Rightarrow> 'e \<Rightarrow> bool" where
  "goes_on f e e' \<longleftrightarrow> (\<exists>mid. under_way mid \<and> event_run f e mid = Some e')"

lemma goes_on_refl [simp]: "goes_on f e e"
  unfolding goes_on_def by (intro exI [of _ "[]"]) simp

lemma goes_on_ends: "goes_on f e e1 \<Longrightarrow> ends_with f e1 res e2 \<Longrightarrow> ends_with f e res e2"
  unfolding goes_on_def ends_with_def by (metis append_assoc event_run_append Option.bind.bind_lunit under_way_simps(2))

lemma goes_on_trans: "goes_on f e e1 \<Longrightarrow> goes_on f e1 e2 \<Longrightarrow> goes_on f e e2"
  unfolding goes_on_def by (metis event_run_append Option.bind.bind_lunit under_way_simps(2))

lemma emit_report:
  assumes "pd_loop_emit l ev c e = Some e'" and "lp_event_callback l = Some f"
  shows "\<exists>r t. event_run f e [(ev, r, t)] = Some e'"
  using assms by (auto simp: pd_loop_emit_def bind_eq_Some_conv)

lemma emit_goes_on:
  assumes "pd_loop_emit l ev c e = Some e'" and "lp_event_callback l = Some f"
    and "ev \<in> {PD_RECEIVER_LOOP_FILE_STARTED, PD_RECEIVER_LOOP_PROGRESS, PD_RECEIVER_LOOP_VERIFYING}"
  shows "goes_on f e e'"
proof -
  obtain r t where "event_run f e [(ev, r, t)] = Some e'" using emit_report [OF assms(1,2)] by blast
  then show ?thesis unfolding goes_on_def using assms(3) by (intro exI [of _ "[(ev, r, t)]"]) simp
qed

lemma emit_ends:
  assumes "pd_loop_emit l (outcome_event res) c e = Some e'" and "lp_event_callback l = Some f"
  shows "ends_with f e res e'"
proof -
  obtain r t where "event_run f e [(outcome_event res, r, t)] = Some e'" using emit_report [OF assms] by blast
  then have "event_run f e ([] @ [(outcome_event res, r, t)]) = Some e'" by simp
  then show ?thesis unfolding ends_with_def using under_way_simps(1) by blast
qed

lemma loop_exit_ends:
  assumes "goes_on f e e1" and "lp_event_callback l = Some f" and "res \<noteq> PD_RECEIVER_LOOP_OK"
  shows "yields (\<lambda>(res', l', c', i', e'). ends_with f e res' e') (loop_exit l res c i e1)"
proof -
  have o: "outcome_event res = PD_RECEIVER_LOOP_FAILED" using assms(3) by (simp add: outcome_event_def)
  have "ends_with f e res e'" if "pd_loop_emit (l\<lparr>lp_protocol := p\<rparr>) PD_RECEIVER_LOOP_FAILED c e1 = Some e'" for p c e'
    using goes_on_ends [OF assms(1) emit_ends [of "l\<lparr>lp_protocol := p\<rparr>" res c e1 e' f]] that assms(2) by (simp add: o)
  then show ?thesis unfolding loop_exit_def Let_def by (intro yields_rules yields_Some) simp
qed

text \<open>What one pass through the loop reports.\<close>

fun pass_reports :: "'e pd_receiver_loop_event_fn \<Rightarrow> 'e \<Rightarrow>
    (pd_receiver_loop_result \<times> ('c, 'i, 'e) pd_receiver_loop \<times> 'c \<times> 'i \<times> 'e) + (('c, 'i, 'e) pd_receiver_loop \<times> 'c \<times> 'i \<times> 'e) \<Rightarrow> bool" where
  "pass_reports f e (Inl (res, l', c', i', e')) \<longleftrightarrow> ends_with f e res e'"
| "pass_reports f e (Inr (l', c', i', e')) \<longleftrightarrow> lp_event_callback l' = Some f \<and> goes_on f e e'"

lemma loop_iteration_reports:
  assumes "lp_event_callback l = Some f"
  shows "yields (pass_reports f e) (loop_iteration l c i e)"
proof -
  have l: "lp_event_callback (l\<lparr>lp_protocol := p\<rparr>) = Some f" for p using assms by simp
  have exit: "yields (\<lambda>x. pass_reports f e (Inl x)) (loop_exit l' res c i e1)"
    if "goes_on f e e1" "lp_event_callback l' = Some f" "res \<noteq> PD_RECEIVER_LOOP_OK" for l' res c i e1
    using loop_exit_ends [OF that, of c i] by (auto simp: yields_def)
  have first: "goes_on f e e1" if "(if b then pd_loop_emit l PD_RECEIVER_LOOP_VERIFYING c e else Some e) = Some e1" for b e1
    using that emit_goes_on [OF _ assms] by (auto split: if_splits)
  have over: "ends_with f e PD_RECEIVER_LOOP_OK e'" if "goes_on f e e1" "pd_loop_emit (l\<lparr>lp_protocol := p\<rparr>) PD_RECEIVER_LOOP_COMPLETE c e1 = Some e'"
    for e1 p c e' using goes_on_ends [OF that(1) emit_ends [OF _ l, of p PD_RECEIVER_LOOP_OK c]] that(2) by (simp add: outcome_event_def)
  have on: "goes_on f e e'" if "goes_on f e e1" "pd_loop_emit (l\<lparr>lp_protocol := p\<rparr>) ev c e1 = Some e'"
    "ev = PD_RECEIVER_LOOP_FILE_STARTED \<or> ev = PD_RECEIVER_LOOP_PROGRESS" for e1 p ev c e'
    using goes_on_trans [OF that(1) emit_goes_on [OF that(2) l]] that(3) by auto
  show ?thesis
    unfolding loop_iteration_def Let_def
    by (intro yields_rules exit yields_Some; (unfold pass_reports.simps)?; (intro conjI)?;
      (rule goes_on_refl assms l | erule first | (rule over, erule first, assumption) | (rule on, erule first, assumption, rule disjI1, rule refl)
       | (rule on, erule first, assumption, rule disjI2, rule refl) | (simp; fail)))
qed

lemma loop_forever_reports:
  fixes l :: "('c, 'i, 'e) pd_receiver_loop" and f :: "'e pd_receiver_loop_event_fn"
  assumes "lp_event_callback l = Some f"
  shows "yields (\<lambda>(res, l', c', i', e'). ends_with f e res e') (loop_forever l c i e)"
proof -
  have "lp_event_callback l = Some f \<longrightarrow> (case r of (res, l', c', i', e') \<Rightarrow> ends_with f e res e')" if "loop_forever l c i e = Some r" for r
  proof (rule loop_forever.raw_induct [OF _ that], intro impI)
    fix self and l :: "('c, 'i, 'e) pd_receiver_loop" and c i e r
    assume ih: "\<And>l c i e r. self l c i e = Some r \<Longrightarrow>
        lp_event_callback l = Some f \<longrightarrow> (case r of (res, l', c', i', e') \<Rightarrow> ends_with f e res e')"
      and body: "loop_iteration l c i e \<bind> (\<lambda>r. case r of Inl result \<Rightarrow> Some result | Inr (l, c, i, e) \<Rightarrow> self l c i e) = Some r"
      and cb: "lp_event_callback l = Some f"
    obtain x where x: "loop_iteration l c i e = Some x" "(case x of Inl r \<Rightarrow> Some r | Inr (l, c, i, e) \<Rightarrow> self l c i e) = Some r"
      using body by (auto simp: bind_eq_Some_conv)
    have p: "pass_reports f e x" using loop_iteration_reports [OF cb, of e c i] x(1) by (simp add: yields_def)
    show "case r of (res, l', c', i', e') \<Rightarrow> ends_with f e res e'"
    proof (cases x)
      case (Inl y)
      then show ?thesis using p x(2) by (cases y) auto
    next
      case (Inr y)
      then obtain l1 c1 i1 e1 where y: "x = Inr (l1, c1, i1, e1)" by (cases y) auto
      then show ?thesis using p x(2) ih [of l1 c1 i1 e1 r] goes_on_ends [of f e e1] by (auto split: prod.splits)
    qed
  qed
  then show ?thesis using assms by (auto simp: yields_def)
qed

text \<open>A whole run: ready, what happens under way, and the outcome last.\<close>

definition run_reports :: "'e pd_receiver_loop_event_fn \<Rightarrow> 'e \<Rightarrow> pd_receiver_loop_event \<Rightarrow> 'e \<Rightarrow> bool" where
  "run_reports f e final e' \<longleftrightarrow> (\<exists>mid r t r' t'. under_way mid \<and>
     event_run f e ((PD_RECEIVER_LOOP_READY, r, t) # mid @ [(final, r', t')]) = Some e')"

lemma loop_run_reports:
  assumes "lp_event_callback l = Some f" and "lp_io_ops l = Some \<lparr>io_receive_frame = Some rf, io_send_frame = Some sf\<rparr>" and "lp_protocol l \<noteq> None"
  shows "yields (\<lambda>(res, l', c', i', e'). run_reports f e (outcome_event res) e') (pd_receiver_loop_run (Some l) c i e)"
proof -
  have "run_reports f e (outcome_event res) e'"
    if start: "pd_loop_emit l PD_RECEIVER_LOOP_READY c e = Some e1" and rest: "ends_with f e1 res e'" for e1 res e'
  proof -
    obtain r t where "f e PD_RECEIVER_LOOP_READY r t = Some e1" using emit_report [OF start assms(1)] by (auto simp: bind_eq_Some_conv)
    moreover obtain mid r' t' where "under_way mid" "event_run f e1 (mid @ [(outcome_event res, r', t')]) = Some e'"
      using rest by (auto simp: ends_with_def)
    ultimately have "event_run f e ((PD_RECEIVER_LOOP_READY, r, t) # mid @ [(outcome_event res, r', t')]) = Some e'" "under_way mid" by simp_all
    then show ?thesis unfolding run_reports_def by blast
  qed
  then show ?thesis
    using loop_forever_reports [OF assms(1)] assms(2,3)
    by (auto simp: yields_def pd_receiver_loop_run_def bind_eq_Some_conv split: prod.splits)
qed

section \<open>The reports of a session\<close>

text \<open>A session that fails before its loop reports nothing and has touched neither a file nor the cryptography.\<close>

definition session_reports :: "'e pd_receiver_loop_event_fn \<Rightarrow> 'e \<Rightarrow> pd_win32_receiver_runtime_result \<Rightarrow> 'e \<Rightarrow> bool \<Rightarrow> bool" where
  "session_reports f e res e' untouched \<longleftrightarrow> e' = e \<and> untouched \<and> res \<noteq> PD_WIN32_RECEIVER_RUNTIME_OK \<or>
     run_reports f e (if res = PD_WIN32_RECEIVER_RUNTIME_OK then PD_RECEIVER_LOOP_COMPLETE else PD_RECEIVER_LOOP_FAILED) e'"

lemma session_reports_early [simp]: "res \<noteq> PD_WIN32_RECEIVER_RUNTIME_OK \<Longrightarrow> session_reports f e res e True"
  by (simp add: session_reports_def)

lemma runtime_transfer_reports:
  fixes fapi :: "'f win32_file_api" and bapi :: "'b bcrypt_api"
  shows "yields (\<lambda>(res, n', fs', b', e'). session_reports f e res e' (fs' = fs \<and> b' = b)) (runtime_transfer api fapi bapi url secret dir (Some f) n fs b e)"
proof -
  have p: "protocol \<noteq> None" if "pd_receiver_protocol_init (Some q) ops = (PD_RECEIVER_PROTOCOL_OK, protocol)"
    for q :: "('f, 'b) handler_world pd_receiver_protocol" and ops protocol
    using that by (auto simp: pd_receiver_protocol_init_def split: if_splits option.splits)
  have run: "session_reports f e (loop_result_code res) e' untouched"
    if "protocol \<noteq> None" "pd_receiver_loop_run (Some (runtime_loop api protocol (Some f))) h io e = Some (res, l', h', io', e')" for protocol h io res l' h' io' e' untouched
  proof -
    have "run_reports f e (outcome_event res) e'"
      using loop_run_reports [of "runtime_loop api protocol (Some f)" f "pd_runtime_receive_frame api" "pd_runtime_send_frame api" e h io] that
      unfolding yields_def by (fastforce simp: runtime_loop_def)
    then show ?thesis by (auto simp: session_reports_def loop_result_code_def outcome_event_def)
  qed
  show ?thesis
    unfolding runtime_transfer_def Let_def
    by (intro yields_rules yields_Some) (auto simp: session_reports_early yields_def bind_eq_Some_conv intro: run [OF p])
qed

lemma run_session_reports:
  "yields (\<lambda>(res, s', n', fs', b', e'). session_reports f e res e' (fs' = fs \<and> b' = b))
     (pd_win32_receiver_run_session api fapi bapi base session dir (Some f) n fs b e)"
proof -
  have t: "session_reports f e res e' (fs' = fs \<and> b' = b)" if "runtime_transfer api fapi bapi url secret dir (Some f) n fs b e = Some (res, n', fs', b', e')"
    for url secret dir n res n' fs' b' e'
    using runtime_transfer_reports [of f e fs b api fapi bapi url secret dir n] that by (simp add: yields_def)
  show ?thesis
  proof (cases "base = None \<or> session = None \<or> dir = None")
    case True
    then show ?thesis by (auto simp: pd_win32_receiver_run_session_def yields_def split: option.splits)
  next
    case False
    then obtain x s d where "base = Some x" "session = Some s" "dir = Some d" by auto
    then show ?thesis
      unfolding pd_win32_receiver_run_session_def Let_def
      by (simp only: prod.case option.case) (intro yields_rules yields_Some; auto intro: t)
  qed
qed

end
