(* ===== verification/PD_Win32Window.thy ===== *)
theory PD_Win32Window
  imports PD_Win32Paint PD_Win32Events "HOL-Library.Sublist"
begin

text \<open>
  The window of the receiver, its messages and its worker thread (the rest of \<^verbatim>\<open>win32_main.c\<close>).

  Two threads share the application object: the window procedure and the worker that runs a session. They
  communicate by messages; a report of the worker travels in a block of the process heap that the
  window procedure frees. Heap, message queue, timers, handles and window data are the state \<open>'u\<close> of
  the record \<open>ui_api\<close>, with their promises in the locale \<open>ui_system\<close>. The interleaving of the two threads is
  the step relation \<open>process_step\<close>: a handler and a report are one step each, so accesses of the two
  threads to the same field inside such a step are not interleaved.
\<close>

section \<open>Data\<close>

definition PD_UI_NEXT_SESSION_TIMER_ID :: u64 where "PD_UI_NEXT_SESSION_TIMER_ID = 1"
definition PD_UI_NEXT_SESSION_DELAY_MS :: nat where "PD_UI_NEXT_SESSION_DELAY_MS = 900"

record pd_ui_event_message =
  um_event :: pd_receiver_loop_event
  um_received_bytes :: u64
  um_total_bytes :: u64

type_synonym heap_ptr = u64

text \<open>
  The messages the window procedure tells apart. The creation message says whether it carries the
  address of the application; the two messages of the application carry a block and a result.
\<close>

datatype ui_message =
    WM_NCCREATE bool
  | PD_WM_RUNTIME_EVENT heap_ptr
  | PD_WM_RUNTIME_DONE pd_win32_receiver_runtime_result
  | WM_TIMER u64
  | WM_PAINT
  | WM_SIZE
  | WM_DESTROY
  | WM_OTHER nat

text \<open>
  The user data of a window is the address of the one application object or \<^verbatim>\<open>NULL\<close>. A block or handle
  that is not live is an error (\<open>None\<close>). \<open>ui_window_removed\<close> is not called by the program: it is what
  the system does when the handler of the destruction has returned.
\<close>

record 'u ui_api =
  ui_heap_alloc :: "'u \<Rightarrow> heap_ptr \<times> 'u"
  ui_heap_write :: "'u \<Rightarrow> heap_ptr \<Rightarrow> pd_ui_event_message \<Rightarrow> 'u option"
  ui_heap_read :: "'u \<Rightarrow> heap_ptr \<Rightarrow> pd_ui_event_message option"
  ui_heap_free :: "'u \<Rightarrow> heap_ptr \<Rightarrow> 'u option"
  ui_close_handle :: "'u \<Rightarrow> win_handle \<Rightarrow> 'u option"
  beginthreadex :: "'u \<Rightarrow> win_handle \<times> 'u"
  PostMessageW :: "'u \<Rightarrow> win_handle \<Rightarrow> ui_message \<Rightarrow> bool \<times> 'u"
  GetMessageW :: "'u \<Rightarrow> bool \<times> ui_message \<times> 'u"
  GetWindowLongPtrW :: "'u \<Rightarrow> win_handle \<Rightarrow> bool"
  SetWindowLongPtrW :: "'u \<Rightarrow> win_handle \<Rightarrow> 'u"
  SetTimer :: "'u \<Rightarrow> win_handle \<Rightarrow> u64 \<Rightarrow> nat \<Rightarrow> bool \<times> 'u"
  KillTimer :: "'u \<Rightarrow> win_handle \<Rightarrow> u64 \<Rightarrow> 'u"
  InvalidateRect :: "'u \<Rightarrow> win_handle \<Rightarrow> 'u"
  PostQuitMessage :: "'u \<Rightarrow> 'u"
  DefWindowProcW :: "'u \<Rightarrow> win_handle \<Rightarrow> ui_message \<Rightarrow> int \<times> 'u"
  RegisterClassW :: "'u \<Rightarrow> bool \<times> 'u"
  CreateWindowExW :: "'u \<Rightarrow> win_handle \<times> 'u"
  ui_window_removed :: "'u \<Rightarrow> win_handle \<Rightarrow> 'u"

text \<open>Everything the window thread calls.\<close>

record ('u, 'g, 'b, 'w) gui =
  gui_ui :: "'u ui_api"
  gui_gdi :: "'g gdi_api"
  gui_qr :: qr_api
  gui_bcrypt :: "'b bcrypt_api"
  gui_desk :: "'w desktop_api"
  gui_rnd :: "real \<Rightarrow> real"

section \<open>The worker\<close>

definition pd_post_runtime_event :: "'u ui_api \<Rightarrow> pd_app option \<Rightarrow> 'u pd_receiver_loop_event_fn" where
  "pd_post_runtime_event uapi app u event received_bytes total_bytes =
     (case app of
        None \<Rightarrow> Some u
      | Some a \<Rightarrow>
          if ap_window a = 0 then Some u
          else (case ui_heap_alloc uapi u of (message, u) \<Rightarrow>
            if message = 0 then Some u
            else do {
              u \<leftarrow> ui_heap_write uapi u message \<lparr>um_event = event, um_received_bytes = received_bytes, um_total_bytes = total_bytes\<rparr>;
              (case PostMessageW uapi u (ap_window a) (PD_WM_RUNTIME_EVENT message) of (posted, u) \<Rightarrow>
                 if \<not> posted then ui_heap_free uapi u message else Some u) }))"

definition pd_receiver_worker ::
  "'u ui_api \<Rightarrow> 'n curl_api \<Rightarrow> 'f win32_file_api \<Rightarrow> 'b bcrypt_api \<Rightarrow> pd_app \<Rightarrow> 'n \<Rightarrow> 'f \<Rightarrow> 'b \<Rightarrow> 'u \<Rightarrow>
   (pd_app \<times> 'n \<times> 'f \<times> 'b \<times> 'u) option" where
  "pd_receiver_worker uapi api fapi bapi app n f b u = do {
     (result, session, n, f, b, u) \<leftarrow> pd_win32_receiver_run_session api fapi bapi (Some (ap_relay_base app)) (Some (ap_session app))
       (Some (ap_jobs_root app)) (Some (pd_post_runtime_event uapi (Some app))) n f b u;
     session \<leftarrow> session;
     let app = app\<lparr>ap_session := session\<rparr>;
     let u = (if ap_window app \<noteq> 0 then snd (PostMessageW uapi u (ap_window app) (PD_WM_RUNTIME_DONE result)) else u);
     Some (app, n, f, b, u) }"

section \<open>The window thread\<close>

definition pd_start_receiver :: "'u ui_api \<Rightarrow> pd_app option \<Rightarrow> 'u \<Rightarrow> bool \<times> pd_app option \<times> 'u" where
  "pd_start_receiver uapi app u =
     (case app of
        None \<Rightarrow> (False, app, u)
      | Some a \<Rightarrow>
          if ap_window a = 0 \<or> ap_worker a \<noteq> 0 then (False, app, u)
          else (case beginthreadex uapi u of (thread, u) \<Rightarrow>
            if thread = 0 then (False, app, u) else (True, Some (a\<lparr>ap_worker := thread\<rparr>), u)))"

definition pd_start_next_session ::
  "('u, 'g, 'b, 'w) gui \<Rightarrow> pd_app option \<Rightarrow> 'w \<Rightarrow> 'u \<Rightarrow> 'b \<Rightarrow> (bool \<times> pd_app option \<times> 'u \<times> 'b) option" where
  "pd_start_next_session gui app w u b =
     (case app of
        None \<Rightarrow> Some (False, app, u, b)
      | Some a \<Rightarrow>
          if ap_worker a \<noteq> 0 then Some (False, app, u, b)
          else do {
            (prepared, app, b) \<leftarrow> pd_prepare_session (gui_desk gui) (gui_qr gui) (gui_bcrypt gui) app w b;
            if \<not> prepared then Some (False, app, u, b)
            else (case pd_start_receiver (gui_ui gui) app u of (started, app, u) \<Rightarrow>
              if \<not> started then do {
                a \<leftarrow> app;
                session \<leftarrow> pd_receiver_session_close (Some (ap_session a));
                session \<leftarrow> session;
                Some (False, Some (a\<lparr>ap_session := session, ap_qr_valid := False\<rparr>), u, b) }
              else Some (True, app, u, b)) })"

definition pd_apply_runtime_event :: "pd_app option \<Rightarrow> pd_ui_event_message option \<Rightarrow> pd_app option" where
  "pd_apply_runtime_event app message =
     (case (app, message) of
        (Some a, Some m) \<Rightarrow>
          let a = a\<lparr>ap_received_bytes := um_received_bytes m, ap_total_bytes := um_total_bytes m\<rparr> in
          Some (case um_event m of
             PD_RECEIVER_LOOP_READY \<Rightarrow> a\<lparr>ap_state := PD_UI_READY\<rparr>
           | PD_RECEIVER_LOOP_FILE_STARTED \<Rightarrow> a\<lparr>ap_state := PD_UI_RECEIVING\<rparr>
           | PD_RECEIVER_LOOP_PROGRESS \<Rightarrow> a\<lparr>ap_state := PD_UI_RECEIVING\<rparr>
           | PD_RECEIVER_LOOP_VERIFYING \<Rightarrow> a\<lparr>ap_state := PD_UI_VERIFYING\<rparr>
           | PD_RECEIVER_LOOP_COMPLETE \<Rightarrow> a\<lparr>ap_state := PD_UI_COMPLETE\<rparr>
           | PD_RECEIVER_LOOP_FAILED \<Rightarrow> a\<lparr>ap_state := PD_UI_FAILED\<rparr>)
      | _ \<Rightarrow> app)"

text \<open>The handlers of the two messages from the worker and of the timer.\<close>

definition on_runtime_event :: "'u ui_api \<Rightarrow> win_handle \<Rightarrow> pd_app option \<Rightarrow> heap_ptr \<Rightarrow> 'u \<Rightarrow> (pd_app option \<times> 'u) option" where
  "on_runtime_event uapi window app runtime_event u = do {
     (app, u) \<leftarrow> (if app \<noteq> None \<and> runtime_event \<noteq> 0
                  then do {
                    m \<leftarrow> ui_heap_read uapi u runtime_event;
                    Some (pd_apply_runtime_event app (Some m), InvalidateRect uapi u window) }
                  else Some (app, u));
     u \<leftarrow> (if runtime_event \<noteq> 0 then ui_heap_free uapi u runtime_event else Some u);
     Some (app, u) }"

text \<open>\<^verbatim>\<open>if (app->worker != NULL) CloseHandle, app->worker = NULL\<close>\<close>

definition release_worker :: "'u ui_api \<Rightarrow> pd_app \<Rightarrow> 'u \<Rightarrow> (pd_app \<times> 'u) option" where
  "release_worker uapi a u =
     (if ap_worker a \<noteq> 0 then do { u \<leftarrow> ui_close_handle uapi u (ap_worker a); Some (a\<lparr>ap_worker := 0\<rparr>, u) } else Some (a, u))"

definition ui_failed :: "pd_app \<Rightarrow> pd_app" where
  "ui_failed a = a\<lparr>ap_runtime_result := PD_WIN32_RECEIVER_RUNTIME_RELAY_ERROR, ap_state := PD_UI_FAILED\<rparr>"

definition on_runtime_done ::
  "'u ui_api \<Rightarrow> win_handle \<Rightarrow> pd_app option \<Rightarrow> pd_win32_receiver_runtime_result \<Rightarrow> 'u \<Rightarrow> (pd_app option \<times> 'u) option" where
  "on_runtime_done uapi window app result u =
     (case app of
        None \<Rightarrow> Some (None, u)
      | Some a \<Rightarrow> do {
          (a, u) \<leftarrow> release_worker uapi (a\<lparr>ap_runtime_result := result\<rparr>) u;
          let (a, u) = (if ap_runtime_result a = PD_WIN32_RECEIVER_RUNTIME_OK
            then (case SetTimer uapi u window PD_UI_NEXT_SESSION_TIMER_ID PD_UI_NEXT_SESSION_DELAY_MS of (armed, u) \<Rightarrow>
                    (if \<not> armed then ui_failed a else a, u))
            else (a\<lparr>ap_state := PD_UI_FAILED\<rparr>, u));
          Some (Some a, InvalidateRect uapi u window) })"

definition on_next_session ::
  "('u, 'g, 'b, 'w) gui \<Rightarrow> win_handle \<Rightarrow> pd_app option \<Rightarrow> 'w \<Rightarrow> 'u \<Rightarrow> 'b \<Rightarrow> (pd_app option \<times> 'u \<times> 'b) option" where
  "on_next_session gui window app w u b = (
     let u = KillTimer (gui_ui gui) u window PD_UI_NEXT_SESSION_TIMER_ID in do {
     (app, u, b) \<leftarrow> (if app \<noteq> None
       then do {
         (started, app, u, b) \<leftarrow> pd_start_next_session gui app w u b;
         Some (if \<not> started then map_option ui_failed app else app, u, b) }
       else Some (app, u, b));
     Some (app, InvalidateRect (gui_ui gui) u window, b) })"

text \<open>
  The window procedure: the result, the application object and the state of the three services. The
  procedure reaches the object through the user data of the window.
\<close>

definition pd_app_from_window :: "'u ui_api \<Rightarrow> win_handle \<Rightarrow> pd_app \<Rightarrow> 'u \<Rightarrow> pd_app option" where
  "pd_app_from_window uapi window object u = (if GetWindowLongPtrW uapi u window then Some object else None)"

definition pd_window_proc ::
  "('u, 'g, 'b, 'w) gui \<Rightarrow> win_handle \<Rightarrow> ui_message \<Rightarrow> 'w \<Rightarrow> pd_app \<Rightarrow> 'u \<Rightarrow> 'g \<Rightarrow> 'b \<Rightarrow> (int \<times> pd_app \<times> 'u \<times> 'g \<times> 'b) option" where
  "pd_window_proc gui window message w object u g b = (
     let uapi = gui_ui gui;
         app = pd_app_from_window uapi window object u;
         default = (case DefWindowProcW uapi u window message of (r, u) \<Rightarrow> Some (r, object, u, g, b)) in
     case message of
       WM_NCCREATE create_params \<Rightarrow>
         if \<not> create_params then Some (0, object, u, g, b)
         else Some (1, object\<lparr>ap_window := window\<rparr>, SetWindowLongPtrW uapi u window, g, b)
     | PD_WM_RUNTIME_EVENT runtime_event \<Rightarrow> do {
         (app, u) \<leftarrow> on_runtime_event uapi window app runtime_event u;
         Some (0, the_default object app, u, g, b) }
     | PD_WM_RUNTIME_DONE result \<Rightarrow> do {
         (app, u) \<leftarrow> on_runtime_done uapi window app result u;
         Some (0, the_default object app, u, g, b) }
     | WM_TIMER timer \<Rightarrow>
         if timer = PD_UI_NEXT_SESSION_TIMER_ID
         then do {
           (app, u, b) \<leftarrow> on_next_session gui window app w u b;
           Some (0, the_default object app, u, g, b) }
         else default
     | WM_PAINT \<Rightarrow> do {
         g \<leftarrow> pd_paint (gui_rnd gui) (gui_qr gui) (gui_gdi gui) window app g;
         Some (0, object, u, g, b) }
     | WM_SIZE \<Rightarrow> Some (0, object, InvalidateRect uapi u window, g, b)
     | WM_DESTROY \<Rightarrow> do {
         let u = KillTimer uapi u window PD_UI_NEXT_SESSION_TIMER_ID;
         (a, u) \<leftarrow> (case app of Some a \<Rightarrow> release_worker uapi a u | None \<Rightarrow> Some (object, u));
         Some (0, a, PostQuitMessage uapi u, g, b) }
     | WM_OTHER k \<Rightarrow> default)"

text \<open>
  The start of the program up to the message loop: the exit code, or the window with the application.
  Creating the window sends the creation message with the address of the application; showing it sends
  a size message and updating it a paint message.
\<close>

definition close_app :: "pd_app \<Rightarrow> (int + win_handle \<times> pd_app) \<times> 'r \<Rightarrow> ((int + win_handle \<times> pd_app) \<times> 'r) option" where
  "close_app app r = do { s \<leftarrow> pd_receiver_session_close (Some (ap_session app)); s \<leftarrow> s; Some r }"

definition wWinMain_start ::
  "('u, 'g, 'b, 'w) gui \<Rightarrow> 'w \<Rightarrow> 'u \<Rightarrow> 'g \<Rightarrow> 'b \<Rightarrow> ((int + win_handle \<times> pd_app) \<times> 'u \<times> 'g \<times> 'b) option" where
  "wWinMain_start gui w u g b = do {
     (prepared, app, b) \<leftarrow> pd_prepare_session (gui_desk gui) (gui_qr gui) (gui_bcrypt gui) (Some zero_app) w b;
     app \<leftarrow> app;
     if \<not> prepared then Some (Inl 1, u, g, b)
     else (case RegisterClassW (gui_ui gui) u of (registered, u) \<Rightarrow>
       if \<not> registered then close_app app (Inl 1, u, g, b)
       else (case CreateWindowExW (gui_ui gui) u of (window, u) \<Rightarrow>
         if window = 0 then close_app app (Inl 1, u, g, b)
         else do {
           (_, app, u, g, b) \<leftarrow> pd_window_proc gui window (WM_NCCREATE True) w app u g b;
           (_, app, u, g, b) \<leftarrow> pd_window_proc gui window WM_SIZE w app u g b;
           (_, app, u, g, b) \<leftarrow> pd_window_proc gui window WM_PAINT w app u g b;
           (case pd_start_receiver (gui_ui gui) (Some app) u of (started, app, u) \<Rightarrow> do {
              app \<leftarrow> app;
              Some (Inr (window, if \<not> started then ui_failed app else app),
                if \<not> started then InvalidateRect (gui_ui gui) u window else u, g, b) }) })) }"

text \<open>One pass of the message loop: \<open>None\<close> inside when the loop ends, otherwise the state after the message.\<close>

definition dispatch_message ::
  "('u, 'g, 'b, 'w) gui \<Rightarrow> win_handle \<Rightarrow> 'w \<Rightarrow> pd_app \<Rightarrow> 'u \<Rightarrow> 'g \<Rightarrow> 'b \<Rightarrow> (ui_message \<times> pd_app \<times> 'u \<times> 'g \<times> 'b) option option" where
  "dispatch_message gui window w app u g b =
     (case GetMessageW (gui_ui gui) u of (again, message, u) \<Rightarrow>
        if \<not> again then Some None
        else do {
          (_, app, u, g, b) \<leftarrow> pd_window_proc gui window message w app u g b;
          Some (Some (message, app, u, g, b)) })"

section \<open>What the system promises\<close>

text \<open>
  The messages an application posted to its window come back in order, and only those carry its two
  message numbers. A message may be refused, and one to a window that does not exist is; removing a window
  discards the messages that still wait for it. Nothing else changes the queue, the blocks, the handles,
  the windows or their data. The view counts the blocks and the messages the system refused.
\<close>

fun posted :: "ui_message \<Rightarrow> bool" where
  "posted (PD_WM_RUNTIME_EVENT _) \<longleftrightarrow> True"
| "posted (PD_WM_RUNTIME_DONE _) \<longleftrightarrow> True"
| "posted _ \<longleftrightarrow> False"

record ui_view =
  queue :: "ui_message list"
  blocks :: "heap_ptr \<Rightarrow> pd_ui_event_message option"
  handles :: "win_handle set"
  attached :: "win_handle set"
  windows :: "win_handle set"
  refused :: nat

text \<open>What the removal of a window leaves.\<close>

definition removed :: "win_handle \<Rightarrow> ui_view \<Rightarrow> ui_view" where
  "removed window v = v\<lparr>queue := [], windows := windows v - {window}\<rparr>"

text \<open>A block or message more that was refused.\<close>

definition refusal :: "ui_view \<Rightarrow> ui_view" where
  "refusal v = v\<lparr>refused := Suc (refused v)\<rparr>"

lemma refusal_simps [simp]: "queue (refusal v) = queue v" "blocks (refusal v) = blocks v" "handles (refusal v) = handles v"
  "attached (refusal v) = attached v" "windows (refusal v) = windows v" "refused (refusal v) = Suc (refused v)"
  by (simp_all add: refusal_def)

locale ui_system =
  fixes uapi :: "'u ui_api" and V :: "'u \<Rightarrow> ui_view"
  assumes block_alloc: "ui_heap_alloc uapi u = (p, u') \<Longrightarrow> if p = 0 then V u' = refusal (V u)
      else blocks (V u) p = None \<and> (\<exists>x. V u' = (V u)\<lparr>blocks := (blocks (V u))(p \<mapsto> x)\<rparr>)"
    and block_write: "blocks (V u) p \<noteq> None \<Longrightarrow>
      \<exists>u'. ui_heap_write uapi u p x = Some u' \<and> V u' = (V u)\<lparr>blocks := (blocks (V u))(p \<mapsto> x)\<rparr>"
    and block_read: "ui_heap_read uapi u p = blocks (V u) p"
    and block_free: "blocks (V u) p \<noteq> None \<Longrightarrow>
      \<exists>u'. ui_heap_free uapi u p = Some u' \<and> V u' = (V u)\<lparr>blocks := (blocks (V u))(p := None)\<rparr>"
    and close_handle: "h \<in> handles (V u) \<Longrightarrow> \<exists>u'. ui_close_handle uapi u h = Some u' \<and> V u' = (V u)\<lparr>handles := handles (V u) - {h}\<rparr>"
    and begin_thread: "beginthreadex uapi u = (h, u') \<Longrightarrow> if h = 0 then V u' = V u
      else h \<notin> handles (V u) \<and> V u' = (V u)\<lparr>handles := insert h (handles (V u))\<rparr>"
    and post: "PostMessageW uapi u win m = (ok, u') \<Longrightarrow>
      if ok then win \<in> windows (V u) \<and> V u' = (V u)\<lparr>queue := queue (V u) @ [m]\<rparr> else V u' = refusal (V u)"
    and get_message: "GetMessageW uapi u = (again, m, u') \<Longrightarrow> if again \<and> posted m then queue (V u) \<noteq> [] \<and> hd (queue (V u)) = m \<and>
        V u' = (V u)\<lparr>queue := tl (queue (V u))\<rparr> else V u' = V u"
    and get_data: "GetWindowLongPtrW uapi u win \<longleftrightarrow> win \<in> attached (V u)"
    and set_data: "V (SetWindowLongPtrW uapi u win) = (V u)\<lparr>attached := insert win (attached (V u))\<rparr>"
    and set_timer: "SetTimer uapi u win i d = (ok, u') \<Longrightarrow> V u' = V u"
    and def_proc: "DefWindowProcW uapi u win m = (r, u') \<Longrightarrow> V u' = V u"
    and register: "RegisterClassW uapi u = (ok, u') \<Longrightarrow> V u' = V u"
    and create_window: "CreateWindowExW uapi u = (win, u') \<Longrightarrow>
      V u' = (if win = 0 then V u else (V u)\<lparr>windows := insert win (windows (V u))\<rparr>)"
    and window_removed: "V (ui_window_removed uapi u win) = removed win (V u)"
    and other [simp]: "V (KillTimer uapi u win i) = V u" "V (InvalidateRect uapi u win) = V u" "V (PostQuitMessage uapi u) = V u"

section \<open>The reports of the worker\<close>

text \<open>
  The block a report is carried in, and the state after some reports: those the system took are in the
  queue, in order and each in a new block, and for every other one a block or message was refused.
\<close>

definition report_message :: "loop_report \<Rightarrow> pd_ui_event_message" where
  "report_message x = (case x of (ev, r, t) \<Rightarrow> \<lparr>um_event = ev, um_received_bytes = r, um_total_bytes = t\<rparr>)"

definition reports_posted :: "ui_view \<Rightarrow> loop_report list \<Rightarrow> ui_view \<Rightarrow> bool" where
  "reports_posted v evs v' \<longleftrightarrow> (\<exists>ps. distinct ps \<and> 0 \<notin> set ps \<and> set ps \<inter> dom (blocks v) = {} \<and> dom (blocks v') = dom (blocks v) \<union> set ps \<and>
     (\<forall>p \<in> dom (blocks v). blocks v' p = blocks v p) \<and> subseq (map (\<lambda>p. the (blocks v' p)) ps) (map report_message evs) \<and>
     length evs + refused v = length ps + refused v' \<and>
     v' = v\<lparr>queue := queue v @ map PD_WM_RUNTIME_EVENT ps, blocks := blocks v', refused := refused v'\<rparr>)"

context ui_system
begin

lemma post_event_spec:
  assumes "ap_window a \<noteq> 0"
  shows "\<exists>u'. pd_post_runtime_event uapi (Some a) u ev r t = Some u' \<and>
    (V u' = refusal (V u) \<or> (\<exists>p. p \<noteq> 0 \<and> blocks (V u) p = None \<and> ap_window a \<in> windows (V u) \<and>
       V u' = (V u)\<lparr>queue := queue (V u) @ [PD_WM_RUNTIME_EVENT p], blocks := (blocks (V u))(p \<mapsto> report_message (ev, r, t))\<rparr>))"
proof -
  obtain p u1 where a: "ui_heap_alloc uapi u = (p, u1)" by fastforce
  show ?thesis
  proof (cases "p = 0")
    case True
    then show ?thesis using a block_alloc [OF a] assms by (simp add: pd_post_runtime_event_def)
  next
    case False
    then obtain m where b: "blocks (V u) p = None" "V u1 = (V u)\<lparr>blocks := (blocks (V u))(p \<mapsto> m)\<rparr>" using block_alloc [OF a] by auto
    let ?m = "report_message (ev, r, t)"
    obtain u2 where w: "ui_heap_write uapi u1 p ?m = Some u2" "V u2 = (V u)\<lparr>blocks := (blocks (V u))(p \<mapsto> ?m)\<rparr>"
      using block_write [of u1 p ?m] b by auto
    obtain ok u3 where p: "PostMessageW uapi u2 (ap_window a) (PD_WM_RUNTIME_EVENT p) = (ok, u3)" by fastforce
    note v = post [OF p]
    show ?thesis
    proof (cases ok)
      case True
      then have "pd_post_runtime_event uapi (Some a) u ev r t = Some u3"
        using False a assms w(1) p by (simp add: pd_post_runtime_event_def report_message_def)
      then show ?thesis using v w(2) True False b(1) by (intro exI [of _ u3] conjI disjI2 exI [of _ p]) simp_all
    next
      case no: False
      obtain u4 where f: "ui_heap_free uapi u3 p = Some u4" "V u4 = (V u3)\<lparr>blocks := (blocks (V u3))(p := None)\<rparr>"
        using block_free [of u3 p] v no w(2) by auto
      have "(blocks (V u))(p := None) = blocks (V u)" using b(1) by auto
      then have "V u4 = refusal (V u)" using f(2) v no w(2) by (simp add: refusal_def)
      moreover have "pd_post_runtime_event uapi (Some a) u ev r t = Some u4"
        using False a assms w(1) p no f(1) by (simp add: pd_post_runtime_event_def report_message_def)
      ultimately show ?thesis by blast
    qed
  qed
qed

end

section \<open>The invariant of the process\<close>

fun event_blocks :: "ui_message list \<Rightarrow> heap_ptr list" where
  "event_blocks [] = []"
| "event_blocks (PD_WM_RUNTIME_EVENT p # q) = p # event_blocks q"
| "event_blocks (_ # q) = event_blocks q"

fun is_done :: "ui_message \<Rightarrow> bool" where
  "is_done (PD_WM_RUNTIME_DONE _) \<longleftrightarrow> True"
| "is_done _ \<longleftrightarrow> False"

definition dones :: "ui_message list \<Rightarrow> nat" where
  "dones q = length (filter is_done q)"

lemma event_blocks_append [simp]: "event_blocks (q @ q') = event_blocks q @ event_blocks q'"
  by (induction q rule: event_blocks.induct) auto

lemma dones_simps [simp]: "dones [] = 0" "dones (m # q) = (if is_done m then Suc (dones q) else dones q)" "dones (q @ q') = dones q + dones q'"
  by (simp_all add: dones_def)

text \<open>
  The application holds the only thread handle; a running worker has a well-formed session and terminated
  texts. While the window is open, the heap holds exactly the blocks of the event messages that wait in
  the queue, each once; at most one worker runs or has its end announced, and the application holds the
  handle of that worker; and if the system refused nothing, it holds no handle otherwise. When the
  window is gone no handle is held and no message waits.
\<close>

definition window_inv :: "win_handle \<Rightarrow> ui_view \<Rightarrow> pd_app \<Rightarrow> bool \<Rightarrow> bool \<Rightarrow> bool" where
  "window_inv window v a running opened \<longleftrightarrow>
     app_shape a \<and> (running \<longrightarrow> session_inv (ap_session a) \<and> 0 \<in> set (ap_relay_base a)) \<and> window \<noteq> 0 \<and> ap_window a = window \<and>
     handles v = (if ap_worker a = 0 then {} else {ap_worker a}) \<and>
     (if opened
      then window \<in> attached v \<and> window \<in> windows v \<and>
        distinct (event_blocks (queue v)) \<and> 0 \<notin> set (event_blocks (queue v)) \<and> dom (blocks v) = set (event_blocks (queue v)) \<and>
        of_bool running + dones (queue v) \<le> (if ap_worker a = 0 then 0 else 1) \<and>
        (refused v = 0 \<longrightarrow> of_bool running + dones (queue v) = (if ap_worker a = 0 then 0 else 1))
      else ap_worker a = 0 \<and> window \<notin> windows v \<and> queue v = [])"

lemma apply_event_fields:
  obtains st where "pd_apply_runtime_event (Some a) (Some m) = Some (a\<lparr>ap_received_bytes := um_received_bytes m,
    ap_total_bytes := um_total_bytes m, ap_state := st\<rparr>)"
  by (cases "um_event m") (auto simp: pd_apply_runtime_event_def Let_def)

text \<open>The fields the worker works with.\<close>

definition same_job :: "pd_app \<Rightarrow> pd_app \<Rightarrow> bool" where
  "same_job a a' \<longleftrightarrow> ap_window a' = ap_window a \<and> ap_session a' = ap_session a \<and> ap_relay_base a' = ap_relay_base a \<and> ap_jobs_root a' = ap_jobs_root a"

lemma window_inv_update:
  assumes "window_inv window v a running opened" and "same_job a a'" and "ap_worker a' = ap_worker a"
    and "ap_public_url a' = ap_public_url a" and "ap_public_url_wide a' = ap_public_url_wide a" and "ap_qr a' = ap_qr a"
  shows "window_inv window v a' running opened"
  using assms by (simp add: window_inv_def same_job_def app_shape_def)

context ui_system
begin

lemma runtime_event_spec:
  assumes "window_inv window v a running True" and "queue v = PD_WM_RUNTIME_EVENT p # q" and "V u = v\<lparr>queue := q\<rparr>"
  shows "\<exists>a' u'. on_runtime_event uapi window (Some a) p u = Some (Some a', u') \<and> window_inv window (V u') a' running True \<and> same_job a a' \<and>
    ap_worker a' = ap_worker a"
proof -
  have i: "p \<noteq> 0" "p \<notin> set (event_blocks q)" "distinct (event_blocks q)" "0 \<notin> set (event_blocks q)" "dom (blocks v) = insert p (set (event_blocks q))"
    using assms(1,2) by (auto simp: window_inv_def)
  obtain m where m: "blocks (V u) p = Some m" using i(5) assms(3) by auto
  obtain st where e: "pd_apply_runtime_event (Some a) (Some m) = Some (a\<lparr>ap_received_bytes := um_received_bytes m,
    ap_total_bytes := um_total_bytes m, ap_state := st\<rparr>)" by (rule apply_event_fields)
  let ?a = "a\<lparr>ap_received_bytes := um_received_bytes m, ap_total_bytes := um_total_bytes m, ap_state := st\<rparr>"
  obtain u' where f: "ui_heap_free uapi (InvalidateRect uapi u window) p = Some u'" "V u' = v\<lparr>queue := q, blocks := (blocks v)(p := None)\<rparr>"
    using block_free [of "InvalidateRect uapi u window" p] m assms(3) by auto
  have "on_runtime_event uapi window (Some a) p u = Some (Some ?a, u')"
    using i(1) m e f(1) by (simp add: on_runtime_event_def block_read)
  moreover have "window_inv window (V u') ?a running True"
    using assms(1,2) i f(2) by (auto simp: window_inv_def app_shape_def)
  ultimately show ?thesis by (auto simp: same_job_def)
qed

lemma release_spec:
  assumes "handles (V u) = (if ap_worker a = 0 then {} else {ap_worker a})"
  shows "\<exists>u'. release_worker uapi a u = Some (a\<lparr>ap_worker := 0\<rparr>, u') \<and> V u' = (V u)\<lparr>handles := {}\<rparr>"
  using assms close_handle [of "ap_worker a" u] by (cases "ap_worker a = 0") (auto simp: release_worker_def)

lemma runtime_done_spec:
  assumes "window_inv window v a running True" and "queue v = PD_WM_RUNTIME_DONE res # q" and "V u = v\<lparr>queue := q\<rparr>"
  shows "\<exists>a' u'. on_runtime_done uapi window (Some a) res u = Some (Some a', u') \<and> window_inv window (V u') a' running True \<and> same_job a a' \<and>
    ap_worker a' = 0 \<and> (ap_state a' = ap_state a \<and> ap_runtime_result a' = PD_WIN32_RECEIVER_RUNTIME_OK \<or>
      ap_state a' = PD_UI_FAILED \<and> ap_runtime_result a' \<noteq> PD_WIN32_RECEIVER_RUNTIME_OK) \<and> (res \<noteq> PD_WIN32_RECEIVER_RUNTIME_OK \<longrightarrow> ap_runtime_result a' = res)"
proof -
  have h: "handles (V u) = (if ap_worker (a\<lparr>ap_runtime_result := res\<rparr>) = 0 then {} else {ap_worker (a\<lparr>ap_runtime_result := res\<rparr>)})"
    using assms(1,3) by (simp add: window_inv_def)
  obtain u1 where r: "release_worker uapi (a\<lparr>ap_runtime_result := res\<rparr>) u = Some (a\<lparr>ap_runtime_result := res, ap_worker := 0\<rparr>, u1)"
    "V u1 = v\<lparr>queue := q, handles := {}\<rparr>"
    using release_spec [OF h] assms(3) by auto
  obtain ok u2 where t: "SetTimer uapi u1 window PD_UI_NEXT_SESSION_TIMER_ID PD_UI_NEXT_SESSION_DELAY_MS = (ok, u2)" by fastforce
  have none: "\<not> running" "dones q = 0" using assms(1,2) by (cases "ap_worker a = 0"; auto simp: window_inv_def split: if_splits)+
  have inv: "window_inv window (v\<lparr>queue := q, handles := {}\<rparr>) (a\<lparr>ap_runtime_result := x, ap_worker := 0, ap_state := y\<rparr>) running True" for x y
    using assms(1,2) none by (auto simp: window_inv_def app_shape_def)
  show ?thesis
  proof (cases "res = PD_WIN32_RECEIVER_RUNTIME_OK \<and> ok")
    case True
    then have "on_runtime_done uapi window (Some a) res u = Some (Some (a\<lparr>ap_runtime_result := res, ap_worker := 0\<rparr>), InvalidateRect uapi u2 window)"
      using r(1) t by (simp add: on_runtime_done_def)
    then show ?thesis using True inv [of "ap_state a" res] set_timer [OF t] r(2) by (auto simp: same_job_def)
  next
    case False
    then have "on_runtime_done uapi window (Some a) res u = Some (Some (a\<lparr>ap_runtime_result :=
        (if res = PD_WIN32_RECEIVER_RUNTIME_OK then PD_WIN32_RECEIVER_RUNTIME_RELAY_ERROR else res), ap_worker := 0, ap_state := PD_UI_FAILED\<rparr>),
        InvalidateRect uapi (if res = PD_WIN32_RECEIVER_RUNTIME_OK then u2 else u1) window)"
      using r(1) t by (auto simp: on_runtime_done_def ui_failed_def)
    then show ?thesis using inv set_timer [OF t] r(2) by (auto simp: same_job_def)
  qed
qed

end

locale gui_env =
  ui_system "gui_ui gui" V +
  gdi "gui_gdi gui" fonts selected colour drawn stock +
  session_setup "gui_desk gui" "gui_qr gui" "gui_bcrypt gui" live hashing hash +
  double_rounding "gui_rnd gui"
  for gui :: "('u, 'g, 'b, 'w) gui" and V fonts selected colour drawn stock live hashing hash
begin

lemma start_receiver_spec:
  assumes "window_inv window (V u) a False True" and "ap_worker a = 0" and "session_inv (ap_session a)" and "0 \<in> set (ap_relay_base a)"
  shows "\<exists>h u'. pd_start_receiver (gui_ui gui) (Some a) u = (h \<noteq> 0, Some (a\<lparr>ap_worker := h\<rparr>), u') \<and>
    window_inv window (V u') (a\<lparr>ap_worker := h\<rparr>) (h \<noteq> 0) True"
proof -
  obtain h u' where h: "beginthreadex (gui_ui gui) u = (h, u')" by fastforce
  have "a\<lparr>ap_worker := 0\<rparr> = a" using assms(2) by simp
  then have "pd_start_receiver (gui_ui gui) (Some a) u = (h \<noteq> 0, Some (a\<lparr>ap_worker := h\<rparr>), u')"
    using assms(1,2) h by (auto simp: pd_start_receiver_def window_inv_def)
  moreover have "window_inv window (V u') (a\<lparr>ap_worker := h\<rparr>) (h \<noteq> 0) True"
    using assms begin_thread [OF h] by (cases "h = 0") (auto simp: window_inv_def app_shape_def)
  ultimately show ?thesis by blast
qed

lemma start_next_spec:
  assumes "window_inv window (V u) a running True" and "ap_worker a = 0"
  shows "\<exists>ok a' u' b'. pd_start_next_session gui (Some a) w u b = Some (ok, Some a', u', b') \<and> window_inv window (V u') a' ok True \<and>
    (ok \<longleftrightarrow> ap_worker a' \<noteq> 0) \<and> (\<not> ok \<longrightarrow> \<not> ap_qr_valid a')"
proof -
  have idle: "\<not> running" "dones (queue (V u)) = 0" using assms by (auto simp: window_inv_def)
  have sh: "app_shape a" using assms(1) by (simp add: window_inv_def)
  obtain ok a1 b1 where p: "pd_prepare_session (gui_desk gui) (gui_qr gui) (gui_bcrypt gui) (Some a) w b = Some (ok, Some a1, b1)" "app_shape a1"
    "same_window a a1" "if ok then session_prepared (gui_desk gui) (gui_qr gui) w a a1 else session_refused a a1"
    using prepare_session_spec [OF sh] by blast
  have i1: "window_inv window (V u) a1 False True" using assms p(2,3) idle by (simp add: window_inv_def same_window_def)
  have w1: "ap_worker a1 = 0" using p(3) assms(2) by (simp add: same_window_def)
  show ?thesis
  proof (cases ok)
    case False
    then have "pd_start_next_session gui (Some a) w u b = Some (False, Some a1, u, b1)" using assms(2) p(1) by (simp add: pd_start_next_session_def)
    then show ?thesis using i1 w1 False p(4) by (auto simp: session_refused_def)
  next
    case True
    then have s: "session_inv (ap_session a1)" "0 \<in> set (ap_relay_base a1)" using p(4) by (simp_all add: session_prepared_def session_opened_def)
    obtain h u' where h: "pd_start_receiver (gui_ui gui) (Some a1) u = (h \<noteq> 0, Some (a1\<lparr>ap_worker := h\<rparr>), u')"
      "window_inv window (V u') (a1\<lparr>ap_worker := h\<rparr>) (h \<noteq> 0) True" using start_receiver_spec [OF i1 w1 s] by blast
    show ?thesis
    proof (cases "h = 0")
      case False
      then have "pd_start_next_session gui (Some a) w u b = Some (True, Some (a1\<lparr>ap_worker := h\<rparr>), u', b1)"
        using assms(2) p(1) True h(1) by (simp add: pd_start_next_session_def)
      then show ?thesis using h(2) False by (intro exI [of _ True] exI [of _ "a1\<lparr>ap_worker := h\<rparr>"] exI [of _ u'] exI [of _ b1]) simp
    next
      case no: True
      obtain s' where c: "pd_receiver_session_close (Some (ap_session a1)) = Some (Some s')" "session_object s'"
        using session_close_eq session_inv_object [OF s(1)] by blast
      let ?a = "a1\<lparr>ap_worker := 0, ap_session := s', ap_qr_valid := False\<rparr>"
      have "pd_start_next_session gui (Some a) w u b = Some (False, Some ?a, u', b1)"
        using assms(2) p(1) True h(1) no c(1) by (simp add: pd_start_next_session_def)
      moreover have "window_inv window (V u') ?a False True" using h(2) no c(2) by (auto simp: window_inv_def app_shape_def)
      ultimately show ?thesis by (intro exI [of _ False] exI [of _ ?a] exI [of _ u'] exI [of _ b1]) simp
    qed
  qed
qed

lemma next_session_spec:
  assumes "window_inv window (V u) a running True"
  shows "\<exists>a' u' b'. on_next_session gui window (Some a) w u b = Some (Some a', u', b') \<and>
    window_inv window (V u') a' (running \<or> ap_worker a = 0 \<and> ap_worker a' \<noteq> 0) True \<and>
    (ap_worker a \<noteq> 0 \<longrightarrow> same_job a a' \<and> ap_worker a' = ap_worker a \<and> b' = b)"
proof -
  let ?u = "KillTimer (gui_ui gui) u window PD_UI_NEXT_SESSION_TIMER_ID"
  have fail: "window_inv window v (ui_failed x) r True" "ap_worker (ui_failed x) = ap_worker x" if "window_inv window v x r True" for v x r
    using window_inv_update [OF that, of "ui_failed x"] by (simp_all add: ui_failed_def same_job_def)
  show ?thesis
  proof (cases "ap_worker a = 0")
    case True
    then have nr: "\<not> running" using assms by (auto simp: window_inv_def)
    have i: "window_inv window (V ?u) a running True" using assms by simp
    obtain ok a' u' b' where s: "pd_start_next_session gui (Some a) w ?u b = Some (ok, Some a', u', b')" "window_inv window (V u') a' ok True"
      "ok \<longleftrightarrow> ap_worker a' \<noteq> 0" using start_next_spec [OF i True] by blast
    then show ?thesis using True nr fail [OF s(2)] by (cases ok) (auto simp: on_next_session_def Let_def)
  next
    case False
    then have "on_next_session gui window (Some a) w u b = Some (Some (ui_failed a), InvalidateRect (gui_ui gui) ?u window, b)"
      by (simp add: on_next_session_def pd_start_next_session_def Let_def)
    then show ?thesis using False fail [OF assms] by (simp add: same_job_def ui_failed_def)
  qed
qed

text \<open>
  A message leaves the window in order, or gone with its messages and handle; while a worker is there it does
  not touch what the worker uses.
\<close>

definition message_handled where
  "message_handled window a b m running v' g' a' b' \<longleftrightarrow>
     window_inv window (if m = WM_DESTROY then removed window v' else v') a' (running \<or> ap_worker a = 0 \<and> ap_worker a' \<noteq> 0) (m \<noteq> WM_DESTROY) \<and> (\<forall>d. stock (selected g' d)) \<and>
     (ap_worker a \<noteq> 0 \<longrightarrow> same_job a a' \<and> b' = b)"

lemma app_from_window: "window_inv window (V u) a running True \<Longrightarrow> pd_app_from_window (gui_ui gui) window a u = Some a"
  by (simp add: pd_app_from_window_def get_data window_inv_def)

lemma paint_message:
  assumes "window_inv window (V u) a running True" and "\<forall>d. stock (selected g d)"
  shows "\<exists>g'. pd_window_proc gui window WM_PAINT w a u g b = Some (0, a, u, g', b) \<and> (\<forall>d. stock (selected g' d))"
proof -
  have z: "0 \<in> set (ap_public_url_wide a)" "0 \<in> set (ap_jobs_root a)"
    using assms(1) set_drop_subset [of 288 "ap_public_url_wide a"] by (auto simp: window_inv_def app_shape_def)
  obtain dc g0 where bp: "BeginPaint (gui_gdi gui) g window = (dc, g0)" by fastforce
  obtain g' where "pd_paint (gui_rnd gui) (gui_qr gui) (gui_gdi gui) window (Some a) g = Some g'" "idle g'"
    using paint_spec [OF double_rounding_axioms assms(2) z bp] by blast
  then show ?thesis by (simp add: pd_window_proc_def Let_def app_from_window [OF assms(1)])
qed

lemma window_proc_spec:
  assumes "window_inv window v a running True" and "\<forall>d. stock (selected g d)"
    and "if posted m then queue v \<noteq> [] \<and> hd (queue v) = m \<and> V u = v\<lparr>queue := tl (queue v)\<rparr> else V u = v"
  shows "\<exists>r a' u' g' b'. pd_window_proc gui window m w a u g b = Some (r, a', u', g', b') \<and> message_handled window a b m running (V u') g' a' b'"
proof -
  have app: "pd_app_from_window (gui_ui gui) window a u = Some a"
    using assms(1,3) by (auto simp: pd_app_from_window_def get_data window_inv_def split: if_splits)
  note d = pd_window_proc_def Let_def app message_handled_def
  have queue_cases: "queue v = m # tl (queue v)" "V u = v\<lparr>queue := tl (queue v)\<rparr>" if "posted m"
    using assms(3) that by (cases "queue v"; simp)+
  show ?thesis
  proof (cases m)
    case (WM_NCCREATE c)
    have "window_inv window (v\<lparr>attached := insert window (attached v)\<rparr>) (a\<lparr>ap_window := window\<rparr>) running True"
      using assms(1) by (auto simp: window_inv_def app_shape_def insert_absorb)
    then show ?thesis using assms set_data [of u window] WM_NCCREATE by (cases c) (auto simp: d same_job_def window_inv_def)
  next
    case (PD_WM_RUNTIME_EVENT p)
    then show ?thesis using runtime_event_spec [OF assms(1), of p "tl (queue v)" u] queue_cases assms(2) by (auto simp: d)
  next
    case (PD_WM_RUNTIME_DONE res)
    then show ?thesis using runtime_done_spec [OF assms(1), of res "tl (queue v)" u] queue_cases assms(2) by (fastforce simp: d)
  next
    case (WM_TIMER i)
    then have v: "V u = v" using assms(3) by simp
    obtain r u1 where dp: "DefWindowProcW (gui_ui gui) u window (WM_TIMER i) = (r, u1)" by fastforce
    have "V u1 = v" using def_proc [OF dp] v by simp
    then show ?thesis using next_session_spec [of window u a running w b] assms(1,2) v dp WM_TIMER
      by (cases "i = PD_UI_NEXT_SESSION_TIMER_ID") (auto simp: d same_job_def)
  next
    case WM_PAINT
    then have "V u = v" using assms(3) by simp
    then show ?thesis using paint_message [of window u a running g w b] assms WM_PAINT by (auto simp: message_handled_def same_job_def)
  next
    case WM_SIZE
    then show ?thesis using assms by (auto simp: d same_job_def)
  next
    case WM_DESTROY
    let ?u = "KillTimer (gui_ui gui) u window PD_UI_NEXT_SESSION_TIMER_ID"
    have v: "V ?u = v" using assms(3) WM_DESTROY by simp
    obtain u' where "release_worker (gui_ui gui) a ?u = Some (a\<lparr>ap_worker := 0\<rparr>, u')" "V u' = v\<lparr>handles := {}\<rparr>"
      using release_spec [of ?u a] assms(1) v by (auto simp: window_inv_def)
    moreover have "window_inv window (removed window (v\<lparr>handles := {}\<rparr>)) (a\<lparr>ap_worker := 0\<rparr>) running False"
      using assms(1) by (simp add: window_inv_def app_shape_def removed_def)
    ultimately show ?thesis using assms(2) WM_DESTROY by (auto simp: d same_job_def)
  next
    case (WM_OTHER k)
    obtain r u1 where dp: "DefWindowProcW (gui_ui gui) u window m = (r, u1)" by fastforce
    then show ?thesis using assms def_proc [OF dp] WM_OTHER by (auto simp: d same_job_def)
  qed
qed

lemma dispatch_spec:
  assumes "window_inv window (V u) a running True" and "\<forall>d. stock (selected g d)"
  shows "\<exists>r. dispatch_message gui window w a u g b = Some r \<and>
    (case r of None \<Rightarrow> True | Some (m, a', u', g', b') \<Rightarrow> message_handled window a b m running (V u') g' a' b')"
proof -
  obtain again m u1 where g: "GetMessageW (gui_ui gui) u = (again, m, u1)" by (metis prod_cases3)
  show ?thesis
  proof (cases again)
    case True
    have q: "if posted m then queue (V u) \<noteq> [] \<and> hd (queue (V u)) = m \<and> V u1 = (V u)\<lparr>queue := tl (queue (V u))\<rparr> else V u1 = V u"
      using get_message [OF g] True by simp
    obtain r a' u' g' b' where "pd_window_proc gui window m w a u1 g b = Some (r, a', u', g', b')" "message_handled window a b m running (V u') g' a' b'"
      using window_proc_spec [OF assms q] by blast
    then show ?thesis using g True by (simp add: dispatch_message_def)
  qed (simp add: dispatch_message_def g)
qed

end

section \<open>The process\<close>

text \<open>
  The state of the process: the application object, the three services, whether a worker runs and whether
  the window is open. The worker posts reports, ends with a session that it closed or left, and announces
  its end; the window thread takes one message at a time until the
  window is destroyed, when the system removes it. A worker starts when the window procedure has
  made a thread, which is when the object gets a worker handle.
\<close>

type_synonym ('u, 'g, 'b) process = "pd_app \<times> 'u \<times> 'g \<times> 'b \<times> bool \<times> bool"

inductive process_step :: "('u, 'g, 'b, 'w) gui \<Rightarrow> win_handle \<Rightarrow> ('u, 'g, 'b) process \<Rightarrow> ('u, 'g, 'b) process \<Rightarrow> bool"
  for gui :: "('u, 'g, 'b, 'w) gui" and window :: win_handle where
  report: "pd_post_runtime_event (gui_ui gui) (Some a) u ev received announced = Some u' \<Longrightarrow>
    process_step gui window (a, u, g, b, True, opened) (a, u', g, b, True, opened)"
| worker_end: "session_object s' \<Longrightarrow> PostMessageW (gui_ui gui) u (ap_window a) (PD_WM_RUNTIME_DONE result) = (ok, u') \<Longrightarrow>
    process_step gui window (a, u, g, b, True, opened) (a\<lparr>ap_session := s'\<rparr>, u', g, b', False, opened)"
| message: "dispatch_message gui window w a u g b = Some (Some (m, a', u', g', b')) \<Longrightarrow> m \<noteq> WM_DESTROY \<Longrightarrow>
    process_step gui window (a, u, g, b, running, True) (a', u', g', b', running \<or> ap_worker a = 0 \<and> ap_worker a' \<noteq> 0, True)"
| closed: "dispatch_message gui window w a u g b = Some (Some (WM_DESTROY, a', u', g', b')) \<Longrightarrow>
    process_step gui window (a, u, g, b, running, True)
      (a', ui_window_removed (gui_ui gui) u' window, g', b', running \<or> ap_worker a = 0 \<and> ap_worker a' \<noteq> 0, False)"

inductive process_reachable :: "('u, 'g, 'b, 'w) gui \<Rightarrow> win_handle \<Rightarrow> ('u, 'g, 'b) process \<Rightarrow> ('u, 'g, 'b) process \<Rightarrow> bool"
  for gui :: "('u, 'g, 'b, 'w) gui" and window :: win_handle and start :: "('u, 'g, 'b) process" where
  first: "process_reachable gui window start start"
| later: "process_reachable gui window start p \<Longrightarrow> process_step gui window p p' \<Longrightarrow> process_reachable gui window start p'"

definition start_possible :: "('u, 'g, 'b, 'w) gui \<Rightarrow> 'w \<Rightarrow> 'u \<Rightarrow> 'b \<Rightarrow> bool" where
  "start_possible gui w u b \<longleftrightarrow> preparation_possible (gui_desk gui) (gui_qr gui) (gui_bcrypt gui) zero_app w b \<and>
     fst (RegisterClassW (gui_ui gui) u) \<and> fst (CreateWindowExW (gui_ui gui) (snd (RegisterClassW (gui_ui gui) u))) \<noteq> 0"

context gui_env
begin

lemma post_inv:
  assumes "window_inv window (V u) a running opened" and "pd_post_runtime_event (gui_ui gui) (Some a) u ev r t = Some u'"
  shows "window_inv window (V u') a running opened"
proof -
  have "ap_window a \<noteq> 0" using assms(1) by (simp add: window_inv_def)
  then consider "V u' = refusal (V u)" | p where "p \<noteq> 0" "blocks (V u) p = None" "ap_window a \<in> windows (V u)"
      "V u' = (V u)\<lparr>queue := queue (V u) @ [PD_WM_RUNTIME_EVENT p], blocks := (blocks (V u))(p \<mapsto> report_message (ev, r, t))\<rparr>"
    using post_event_spec [of a u ev r t] assms(2) by auto
  then show ?thesis
  proof cases
    case 2
    then have o: opened using assms(1) by (auto simp: window_inv_def split: if_splits)
    then have "dom (blocks (V u)) = set (event_blocks (queue (V u)))" using assms(1) by (simp add: window_inv_def)
    then have "p \<notin> set (event_blocks (queue (V u)))" using 2(2) by blast
    then show ?thesis using assms(1) 2 o by (auto simp: window_inv_def)
  next
    case 1
    then show ?thesis using assms(1) by (auto simp: window_inv_def split: if_splits)
  qed
qed

text \<open>The blocks of the messages that still wait when the window is destroyed are not given back.\<close>

lemma destroy_keeps_blocks:
  assumes "window_inv window (V u) a running True"
    and "process_step gui window (a, u, g, b, running, True) (a', u', g', b', running', False)"
  shows "blocks (V u') = blocks (V u) \<and> queue (V u') = [] \<and> handles (V u') = {}"
proof -
  obtain w u2 where d: "dispatch_message gui window w a u g b = Some (Some (WM_DESTROY, a', u2, g', b'))" "u' = ui_window_removed (gui_ui gui) u2 window"
    using assms(2) by (cases rule: process_step.cases) auto
  obtain again m u1 where g: "GetMessageW (gui_ui gui) u = (again, m, u1)" by (metis prod_cases3)
  have m: "again" "m = WM_DESTROY" using d(1) g by (auto simp: dispatch_message_def bind_eq_Some_conv split: if_splits)
  have v1: "V u1 = V u" using get_message [OF g] m by simp
  let ?u = "KillTimer (gui_ui gui) u1 window PD_UI_NEXT_SESSION_TIMER_ID"
  obtain u3 where r: "release_worker (gui_ui gui) a ?u = Some (a\<lparr>ap_worker := 0\<rparr>, u3)" "V u3 = (V u)\<lparr>handles := {}\<rparr>"
    using release_spec [of ?u a] assms(1) v1 by (auto simp: window_inv_def)
  have "pd_app_from_window (gui_ui gui) window a u1 = Some a" using assms(1) v1 by (simp add: pd_app_from_window_def get_data window_inv_def)
  then have "pd_app_from_window (gui_ui gui) window a ?u = Some a \<and> u2 = PostQuitMessage (gui_ui gui) u3"
    using d(1) g m r(1) by (auto simp: dispatch_message_def pd_window_proc_def pd_app_from_window_def get_data Let_def)
  then show ?thesis using r(2) d(2) by (simp add: window_removed removed_def)
qed

lemma worker_end_inv:
  assumes "window_inv window (V u) a True opened" and "session_object s'"
    and "PostMessageW (gui_ui gui) u (ap_window a) (PD_WM_RUNTIME_DONE result) = (ok, u')"
  shows "window_inv window (V u') (a\<lparr>ap_session := s'\<rparr>) False opened"
proof (cases opened)
  case True
  then show ?thesis using assms(1,2) post [OF assms(3)]
    by (cases ok) (simp_all add: window_inv_def app_shape_def split: if_splits)
next
  case False
  then have "\<not> ok" using assms(1) post [OF assms(3)] by (auto simp: window_inv_def split: if_splits)
  then show ?thesis using False assms(1,2) post [OF assms(3)] by (simp add: window_inv_def app_shape_def)
qed

lemma step_inv:
  assumes "process_step gui window p p'" and "case p of (a, u, g, b, run, op) \<Rightarrow> window_inv window (V u) a run op \<and> (\<forall>d. stock (selected g d))"
  shows "case p' of (a, u, g, b, run, op) \<Rightarrow> window_inv window (V u) a run op \<and> (\<forall>d. stock (selected g d))"
  using assms
proof (induction rule: process_step.induct)
  case (report a u ev received announced u' g b opened)
  then show ?case using post_inv by auto
next
  case (worker_end s' u a result ok u' g b opened b')
  then show ?case using worker_end_inv [of window u a opened s' result ok u'] by simp
next
  case (message w a u g b m a' u' g' b' running)
  then show ?case using dispatch_spec [of window u a running g w b] by (auto simp: message_handled_def)
next
  case (closed w a u g b a' u' g' b' running)
  then show ?case using dispatch_spec [of window u a running g w b] by (auto simp: message_handled_def window_removed)
qed

lemma reachable_inv:
  assumes "process_reachable gui window p0 p" and "case p0 of (a, u, g, b, run, op) \<Rightarrow> window_inv window (V u) a run op \<and> (\<forall>d. stock (selected g d))"
  shows "case p of (a, u, g, b, run, op) \<Rightarrow> window_inv window (V u) a run op \<and> (\<forall>d. stock (selected g d))"
  using assms(1)
proof (induction rule: process_reachable.induct)
  case (later p p')
  then show ?case using step_inv by blast
qed (rule assms(2))

text \<open>The program comes up exactly when a session can be prepared and the window be made.\<close>

lemma start_spec:
  assumes "V u = \<lparr>queue = [], blocks = Map.empty, handles = {}, attached = {}, windows = {}, refused = 0\<rparr>" and "\<forall>d. stock (selected g d)"
  shows "\<exists>r u' g' b'. wWinMain_start gui w u g b = Some (r, u', g', b') \<and>
    (case r of
       Inl code \<Rightarrow> code = 1 \<and> \<not> start_possible gui w u b
     | Inr (window, a) \<Rightarrow> start_possible gui w u b \<and> window_inv window (V u') a (ap_worker a \<noteq> 0) True \<and> (\<forall>d. stock (selected g' d)))"
proof -
  have wr: "ap_worker zero_app = 0" by (simp add: zero_app_def)
  obtain ok a b1 where p: "pd_prepare_session (gui_desk gui) (gui_qr gui) (gui_bcrypt gui) (Some zero_app) w b = Some (ok, Some a, b1)" "app_shape a"
    "same_window zero_app a" "ok \<longleftrightarrow> preparation_possible (gui_desk gui) (gui_qr gui) (gui_bcrypt gui) zero_app w b"
    "if ok then session_prepared (gui_desk gui) (gui_qr gui) w zero_app a else session_refused zero_app a"
    using prepare_session_spec [OF zero_app_shape, of w b] by blast
  obtain reg u1 where r: "RegisterClassW (gui_ui gui) u = (reg, u1)" by fastforce
  obtain win u2 where c: "CreateWindowExW (gui_ui gui) u1 = (win, u2)" by fastforce
  have v2: "V u2 = (if win = 0 then V u else (V u)\<lparr>windows := {win}\<rparr>)" using register [OF r] create_window [OF c] assms(1) by simp
  have shut: "close_app a x = Some x" for x :: "(int + win_handle \<times> pd_app) \<times> 'u \<times> 'g \<times> 'b"
    using session_close_eq [of "ap_session a"] p(2) by (auto simp: close_app_def app_shape_def)
  have pos: "start_possible gui w u b \<longleftrightarrow> ok \<and> reg \<and> win \<noteq> 0" by (simp add: start_possible_def p(4) r c)
  show ?thesis
  proof (cases "ok \<and> reg \<and> win \<noteq> 0")
    case False
    then show ?thesis using p(1) r c shut pos by (cases ok; cases reg) (auto simp: wWinMain_start_def)
  next
    case True
    let ?a = "a\<lparr>ap_window := win\<rparr>" and ?u = "SetWindowLongPtrW (gui_ui gui) u2 win"
    let ?v = "InvalidateRect (gui_ui gui) ?u win"
    have s: "session_inv (ap_session ?a)" "0 \<in> set (ap_relay_base ?a)" using True p(5) by (simp_all add: session_prepared_def session_opened_def)
    have w0: "ap_worker ?a = 0" using p(3) wr by (simp add: same_window_def)
    have i: "window_inv win (V ?v) ?a False True"
      using p(2) w0 True by (simp add: window_inv_def app_shape_def set_data v2 assms(1))
    obtain g' where pt: "pd_window_proc gui win WM_PAINT w ?a ?v g b1 = Some (0, ?a, ?v, g', b1)" "\<forall>d. stock (selected g' d)"
      using paint_message [OF i assms(2)] by blast
    have nc: "pd_window_proc gui win (WM_NCCREATE True) w a u2 g b1 = Some (1, ?a, ?u, g, b1)"
      "pd_window_proc gui win WM_SIZE w ?a ?u g b1 = Some (0, ?a, ?v, g, b1)" by (simp_all add: pd_window_proc_def Let_def)
    obtain h u' where h: "pd_start_receiver (gui_ui gui) (Some ?a) ?v = (h \<noteq> 0, Some (?a\<lparr>ap_worker := h\<rparr>), u')"
      "window_inv win (V u') (?a\<lparr>ap_worker := h\<rparr>) (h \<noteq> 0) True" using start_receiver_spec [OF i w0 s] by blast
    have "window_inv win (V (InvalidateRect (gui_ui gui) u' win)) (ui_failed (?a\<lparr>ap_worker := h\<rparr>)) (h \<noteq> 0) True"
      using window_inv_update [OF h(2), of "ui_failed (?a\<lparr>ap_worker := h\<rparr>)"] by (simp add: ui_failed_def same_job_def)
    then show ?thesis using True p(1) r c nc pt h pos by (cases "h = 0") (auto simp: wWinMain_start_def ui_failed_def)
  qed
qed

end

section \<open>The worker\<close>

context ui_system
begin

lemma post_total: "\<exists>u'. pd_post_runtime_event uapi (Some a) u ev r t = Some u'"
  using post_event_spec [of a u ev r t] by (cases "ap_window a = 0") (auto simp: pd_post_runtime_event_def)

lemma reports_posted_refused: "reports_posted (refusal v) evs v' \<Longrightarrow> reports_posted v (x # evs) v'"
  unfolding reports_posted_def refusal_simps
  by (elim exE conjE, rule_tac x = ps in exI) (simp add: refusal_def list_emb_Cons)

lemma reports_posted_taken:
  assumes "p \<noteq> 0" and "blocks v p = None"
    and "reports_posted (v\<lparr>queue := queue v @ [PD_WM_RUNTIME_EVENT p], blocks := (blocks v)(p \<mapsto> report_message x)\<rparr>) evs v'"
  shows "reports_posted v (x # evs) v'"
proof -
  let ?v = "v\<lparr>queue := queue v @ [PD_WM_RUNTIME_EVENT p], blocks := (blocks v)(p \<mapsto> report_message x)\<rparr>"
  obtain ps where ps: "distinct ps" "0 \<notin> set ps" "set ps \<inter> dom (blocks ?v) = {}" "dom (blocks v') = dom (blocks ?v) \<union> set ps"
    "\<forall>q \<in> dom (blocks ?v). blocks v' q = blocks ?v q" "subseq (map (\<lambda>q. the (blocks v' q)) ps) (map report_message evs)"
    "length evs + refused v = length ps + refused v'"
    "v' = ?v\<lparr>queue := queue ?v @ map PD_WM_RUNTIME_EVENT ps, blocks := blocks v', refused := refused v'\<rparr>"
    using assms(3) by (auto simp: reports_posted_def)
  have "blocks v' p = Some (report_message x)" using ps(5) by simp
  moreover have "blocks v' q = blocks v q" if "q \<in> dom (blocks v)" for q using ps(5) assms(2) that by (auto simp: dom_def)
  moreover have "v' = v\<lparr>queue := queue v @ map PD_WM_RUNTIME_EVENT (p # ps), blocks := blocks v', refused := refused v'\<rparr>" using ps(8) by simp
  ultimately show ?thesis using ps(1-4,6,7) assms(1,2) unfolding reports_posted_def
    by (intro exI [of _ "p # ps"]) (auto simp: dom_def)
qed

lemma post_reports:
  assumes "ap_window a \<noteq> 0" and "event_run (pd_post_runtime_event uapi (Some a)) u evs = Some u'"
  shows "reports_posted (V u) evs (V u')"
  using assms(2)
proof (induction evs arbitrary: u)
  case Nil
  then show ?case by (auto simp: reports_posted_def intro: exI [of _ "[]"])
next
  case (Cons x evs)
  obtain ev r t where x: "x = (ev, r, t)" by (cases x) auto
  obtain u1 where u1: "pd_post_runtime_event uapi (Some a) u ev r t = Some u1" "event_run (pd_post_runtime_event uapi (Some a)) u1 evs = Some u'"
    using Cons.prems by (auto simp: x bind_eq_Some_conv)
  note rest = Cons.IH [OF u1(2)]
  from post_event_spec [OF assms(1), of u ev r t] u1(1) consider "V u1 = refusal (V u)"
    | p where "p \<noteq> 0" "blocks (V u) p = None"
      "V u1 = (V u)\<lparr>queue := queue (V u) @ [PD_WM_RUNTIME_EVENT p], blocks := (blocks (V u))(p \<mapsto> report_message (ev, r, t))\<rparr>" by auto
  then show ?case
  proof cases
    case 1
    then show ?thesis using rest reports_posted_refused by simp
  next
    case (2 p)
    then show ?thesis using rest reports_posted_taken [of p "V u" x evs "V u'"] by (simp add: x)
  qed
qed

end

text \<open>
  The reports of a worker with a result: those of a run, or none after a failure that came before any file or
  hash was touched.
\<close>

definition worker_story :: "pd_win32_receiver_runtime_result \<Rightarrow> bool \<Rightarrow> loop_report list \<Rightarrow> bool" where
  "worker_story res untouched evs \<longleftrightarrow> evs = [] \<and> untouched \<and> res \<noteq> PD_WIN32_RECEIVER_RUNTIME_OK \<or>
     (\<exists>mid r t r' t'. under_way mid \<and> evs = (PD_RECEIVER_LOOP_READY, r, t) # mid @
        [(if res = PD_WIN32_RECEIVER_RUNTIME_OK then PD_RECEIVER_LOOP_COMPLETE else PD_RECEIVER_LOOP_FAILED, r', t')])"

lemma session_reports_story: "session_reports f e res e' x \<Longrightarrow> \<exists>evs. worker_story res x evs \<and> event_run f e evs = Some e'"
  unfolding session_reports_def run_reports_def worker_story_def by (metis event_run.simps(1))

lemma all_reports_posted:
  assumes "reports_posted v evs v'" and "refused v' = refused v"
  shows "\<exists>ps. queue v' = queue v @ map PD_WM_RUNTIME_EVENT ps \<and> map (\<lambda>p. blocks v' p) ps = map (\<lambda>x. Some (report_message x)) evs"
proof -
  obtain ps where ps: "dom (blocks v') = dom (blocks v) \<union> set ps" "subseq (map (\<lambda>p. the (blocks v' p)) ps) (map report_message evs)"
    "length evs + refused v = length ps + refused v'"
    "v' = v\<lparr>queue := queue v @ map PD_WM_RUNTIME_EVENT ps, blocks := blocks v', refused := refused v'\<rparr>"
    using assms(1) unfolding reports_posted_def by (elim exE conjE) (rule that)
  have e: "map (\<lambda>p. the (blocks v' p)) ps = map report_message evs" using ps(2,3) assms(2) by (intro subseq_same_length) simp_all
  have "map (\<lambda>p. Some (the (blocks v' p))) ps = map (\<lambda>x. Some (report_message x)) evs"
    using arg_cong [OF e, of "map Some"]
    by (simp only: map_map o_def)
  moreover have "map (\<lambda>p. Some (the (blocks v' p))) ps = map (\<lambda>p. blocks v' p) ps"
  proof (intro map_cong refl)
    fix p
    assume "p \<in> set ps"
    then have "p \<in> dom (blocks v')" using ps(1) by blast
    then show "Some (the (blocks v' p)) = blocks v' p" by auto
  qed
  moreover have "queue v' = queue v @ map PD_WM_RUNTIME_EVENT ps" by (subst ps(4)) simp
  ultimately show ?thesis by auto
qed

lemma nothing_refused:
  assumes "reports_posted v evs v1" and "v' = v1\<lparr>queue := queue v1 @ [m]\<rparr> \<or> v' = refusal v1" and "refused v' = refused v"
  shows "\<exists>ps. queue v' = queue v @ map PD_WM_RUNTIME_EVENT ps @ [m] \<and> map (\<lambda>p. blocks v' p) ps = map (\<lambda>x. Some (report_message x)) evs"
proof -
  have "refused v \<le> refused v1" using assms(1) by (auto simp: reports_posted_def dest: list_emb_length)
  then have v': "v' = v1\<lparr>queue := queue v1 @ [m]\<rparr>" "refused v1 = refused v" using assms(2,3) by auto
  show ?thesis using all_reports_posted [OF assms(1) v'(2)] by (auto simp: v'(1))
qed

section \<open>A system for the witnesses\<close>

text \<open>It has room for one block and one thread, and delivers the messages posted to its window with the number nine.\<close>

record mem_ui =
  mu_queue :: "ui_message list"
  mu_block :: "pd_ui_event_message option"
  mu_thread :: bool
  mu_attached :: "win_handle set"
  mu_windows :: "win_handle set"
  mu_refused :: nat

definition mu_refuse :: "mem_ui \<Rightarrow> mem_ui" where
  "mu_refuse u = u\<lparr>mu_refused := Suc (mu_refused u)\<rparr>"

definition mu_view :: "mem_ui \<Rightarrow> ui_view" where
  "mu_view u = \<lparr>queue = mu_queue u, blocks = (\<lambda>p. if p = 1 then mu_block u else None),
     handles = (if mu_thread u then {1} else {}), attached = mu_attached u, windows = mu_windows u, refused = mu_refused u\<rparr>"

definition mem_ui_api :: "mem_ui ui_api" where
  "mem_ui_api = \<lparr>
     ui_heap_alloc = (\<lambda>u. if mu_block u = None
       then (1, u\<lparr>mu_block := Some \<lparr>um_event = PD_RECEIVER_LOOP_READY, um_received_bytes = 0, um_total_bytes = 0\<rparr>\<rparr>) else (0, mu_refuse u)),
     ui_heap_write = (\<lambda>u p m. if p = 1 \<and> mu_block u \<noteq> None then Some (u\<lparr>mu_block := Some m\<rparr>) else None),
     ui_heap_read = (\<lambda>u p. if p = 1 then mu_block u else None),
     ui_heap_free = (\<lambda>u p. if p = 1 \<and> mu_block u \<noteq> None then Some (u\<lparr>mu_block := None\<rparr>) else None),
     ui_close_handle = (\<lambda>u h. if h = 1 \<and> mu_thread u then Some (u\<lparr>mu_thread := False\<rparr>) else None),
     beginthreadex = (\<lambda>u. if mu_thread u then (0, u) else (1, u\<lparr>mu_thread := True\<rparr>)),
     PostMessageW = (\<lambda>u win m. if win \<in> mu_windows u then (True, u\<lparr>mu_queue := mu_queue u @ [m]\<rparr>) else (False, mu_refuse u)),
     GetMessageW = (\<lambda>u. case mu_queue u of [] \<Rightarrow> (False, WM_OTHER 0, u)
       | m # q \<Rightarrow> if posted m then (True, m, u\<lparr>mu_queue := q\<rparr>) else (True, m, u)),
     GetWindowLongPtrW = (\<lambda>u win. win \<in> mu_attached u),
     SetWindowLongPtrW = (\<lambda>u win. u\<lparr>mu_attached := insert win (mu_attached u)\<rparr>),
     SetTimer = (\<lambda>u win i d. (True, u)), KillTimer = (\<lambda>u win i. u), InvalidateRect = (\<lambda>u win. u), PostQuitMessage = (\<lambda>u. u),
     DefWindowProcW = (\<lambda>u win m. (0, u)), RegisterClassW = (\<lambda>u. (True, u)), CreateWindowExW = (\<lambda>u. (9, u\<lparr>mu_windows := insert 9 (mu_windows u)\<rparr>)),
     ui_window_removed = (\<lambda>u win. u\<lparr>mu_queue := [], mu_windows := mu_windows u - {win}\<rparr>)\<rparr>"

interpretation mem_ui: ui_system mem_ui_api mu_view
  by unfold_locales (auto simp: mem_ui_api_def mu_view_def mu_refuse_def refusal_def removed_def fun_eq_iff split: if_splits list.splits)

definition mem_gui :: "(mem_ui, mem_gdi, mem_bc, plain_desk) gui" where
  "mem_gui = \<lparr>gui_ui = mem_ui_api, gui_gdi = mem_gdi_api, gui_qr = tiny_qr, gui_bcrypt = mem_bcrypt, gui_desk = plain_desktop, gui_rnd = fixed_round\<rparr>"

lemma mem_gui_simps [simp]: "gui_ui mem_gui = mem_ui_api" "gui_gdi mem_gui = mem_gdi_api" "gui_qr mem_gui = tiny_qr"
  "gui_bcrypt mem_gui = mem_bcrypt" "gui_desk mem_gui = plain_desktop" "gui_rnd mem_gui = fixed_round"
  by (simp_all add: mem_gui_def)

interpretation mem_gui: gui_env mem_gui mu_view mg_fonts mg_selected mg_colour mg_drawn "\<lambda>h. h = 2" mb_live mb_hashing checksum
  by (simp only: gui_env_def mem_gui_simps)
    (intro conjI mem_ui.ui_system_axioms screen.gdi_axioms plain_setup.session_setup_axioms fixed.double_rounding_axioms)

definition empty_ui :: mem_ui where
  "empty_ui = \<lparr>mu_queue = [], mu_block = None, mu_thread = False, mu_attached = {}, mu_windows = {}, mu_refused = 0\<rparr>"

lemma empty_ui_view: "mu_view empty_ui = \<lparr>queue = [], blocks = Map.empty, handles = {}, attached = {}, windows = {}, refused = 0\<rparr>"
  by (simp add: mu_view_def empty_ui_def fun_eq_iff)

section \<open>Properties\<close>

text \<open>
  What holds of a state of the process. The invariant; a running worker can always post a report, which keeps no
  block once the window is gone; the window thread handles every message, and while a worker runs it
  changes neither the session nor anything else the worker uses.
\<close>

definition process_ok :: "('u, 'g, 'b, 'w) gui \<Rightarrow> ('u \<Rightarrow> ui_view) \<Rightarrow> win_handle \<Rightarrow> ('u, 'g, 'b) process \<Rightarrow> bool" where
  "process_ok gui V window p \<longleftrightarrow> (case p of (a, u, g, b, running, opened) \<Rightarrow>
     window_inv window (V u) a running opened \<and>
     (running \<longrightarrow> (\<forall>ev r t. \<exists>u'. pd_post_runtime_event (gui_ui gui) (Some a) u ev r t = Some u' \<and>
        (\<not> opened \<longrightarrow> blocks (V u') = blocks (V u)))) \<and>
     (opened \<longrightarrow> (\<forall>w. case dispatch_message gui window w a u g b of
        None \<Rightarrow> False
      | Some None \<Rightarrow> True
      | Some (Some (m, a', u', g', b')) \<Rightarrow> running \<longrightarrow> same_job a a' \<and> b' = b)))"

context gui_env
begin

lemma reachable_ok:
  assumes "process_reachable gui window p0 p" and "case p0 of (a, u, g, b, run, op) \<Rightarrow> window_inv window (V u) a run op \<and> (\<forall>d. stock (selected g d))"
  shows "process_ok gui V window p"
proof -
  obtain a u g b run op where p: "p = (a, u, g, b, run, op)" by (cases p)
  have i: "window_inv window (V u) a run op" "\<forall>d. stock (selected g d)" using reachable_inv [OF assms] by (simp_all add: p)
  have "\<exists>u'. pd_post_runtime_event (gui_ui gui) (Some a) u ev r t = Some u' \<and> (\<not> op \<longrightarrow> blocks (V u') = blocks (V u))" for ev r t
    using post_event_spec [of a u ev r t] i(1) by (auto simp: window_inv_def)
  moreover have "case dispatch_message gui window w a u g b of None \<Rightarrow> False | Some None \<Rightarrow> True
      | Some (Some (m, a', u', g', b')) \<Rightarrow> run \<longrightarrow> same_job a a' \<and> b' = b" if o: op for w
  proof -
    have worker: "run \<Longrightarrow> ap_worker a \<noteq> 0" using i(1) o by (auto simp: window_inv_def split: if_splits)
    obtain r where r: "dispatch_message gui window w a u g b = Some r"
      "case r of None \<Rightarrow> True | Some (m, a', u', g', b') \<Rightarrow> message_handled window a b m run (V u') g' a' b'"
      using dispatch_spec [of window u a run g w b] i o by auto
    show ?thesis using r worker by (cases r) (auto simp: message_handled_def)
  qed
  ultimately show ?thesis using i(1) by (simp add: process_ok_def p)
qed

end

lemma closing_keeps_blocks:
  assumes "gui_env gui V fonts selected colour drawn stock live hashing hash"
    and "window_inv window (V u) a running True"
    and "process_step gui window (a, u, g, b, running, True) (a', u', g', b', running', False)"
  shows "blocks (V u') = blocks (V u) \<and> queue (V u') = [] \<and> handles (V u') = {}"
  by (rule gui_env.destroy_keeps_blocks [OF assms])

text \<open>C4: The program comes up exactly when a session can be prepared and the window be made, and otherwise ends with
  code one. From then on, however the steps of worker and window interleave: at most one worker runs or
  waits to be announced, and the only thread handle there is belongs to it, so that, if the system
  refused no block and no message, the handle is closed as soon as the end of the worker is handled, and in every
  case when the window is destroyed; while the window is open every block on the heap is owned by
  exactly one event message in the queue, so none leaks or is freed twice, and a report that comes after
  that keeps no block; every message is handled without an invalid access; and while a worker runs, the
  window thread changes nothing the worker uses.\<close>

theorem process_safe:
  assumes "gui_env gui V fonts selected colour drawn stock live hashing hash"
    and "V u = \<lparr>queue = [], blocks = Map.empty, handles = {}, attached = {}, windows = {}, refused = 0\<rparr>" and "\<forall>d. stock (selected g d)"
  shows "\<exists>r u' g' b'. wWinMain_start gui w u g b = Some (r, u', g', b') \<and>
    (case r of
       Inl code \<Rightarrow> code = 1 \<and> \<not> start_possible gui w u b
     | Inr (window, a) \<Rightarrow> start_possible gui w u b \<and>
         (\<forall>p. process_reachable gui window (a, u', g', b', ap_worker a \<noteq> 0, True) p \<longrightarrow> process_ok gui V window p))"
proof -
  obtain r u' g' b' where s: "wWinMain_start gui w u g b = Some (r, u', g', b')"
    "case r of Inl code \<Rightarrow> code = 1 \<and> \<not> start_possible gui w u b
     | Inr (window, a) \<Rightarrow> start_possible gui w u b \<and> window_inv window (V u') a (ap_worker a \<noteq> 0) True \<and> (\<forall>d. stock (selected g' d))"
    using gui_env.start_spec [OF assms] by blast
  then show ?thesis using gui_env.reachable_ok [OF assms(1)] by (cases r) auto
qed

theorem process_safe_witness:
  "\<exists>window a u' g' b'. wWinMain_start mem_gui ([], w_lit ''C:'') empty_ui clear_screen idle_bc = Some (Inr (window, a), u', g', b') \<and>
     process_ok mem_gui mu_view window (a, u', g', b', ap_worker a \<noteq> 0, True)"
proof -
  have "start_possible mem_gui ([], w_lit ''C:'') empty_ui idle_bc"
    using plain_possible by (simp add: start_possible_def mem_ui_api_def)
  moreover obtain r u' g' b' where r: "wWinMain_start mem_gui ([], w_lit ''C:'') empty_ui clear_screen idle_bc = Some (r, u', g', b')"
    "case r of Inl code \<Rightarrow> code = 1 \<and> \<not> start_possible mem_gui ([], w_lit ''C:'') empty_ui idle_bc
     | Inr (window, a) \<Rightarrow> start_possible mem_gui ([], w_lit ''C:'') empty_ui idle_bc \<and>
         (\<forall>p. process_reachable mem_gui window (a, u', g', b', ap_worker a \<noteq> 0, True) p \<longrightarrow> process_ok mem_gui mu_view window p)"
    using process_safe [OF mem_gui.gui_env_axioms empty_ui_view, of clear_screen "([], w_lit ''C:'')" idle_bc] clear_screen_simps(3) by auto
  ultimately obtain window a where "r = Inr (window, a)" by (cases r) auto
  then show ?thesis using r process_reachable.first by fastforce
qed


definition sample_app :: pd_app where
  "sample_app = zero_app\<lparr>ap_window := 9, ap_session := session_created fresh_session 5 10 (replicate 48 171),
     ap_relay_base := c_lit ''https://r.io'' @ replicate 244 0, ap_jobs_root := w_lit ''C:'' @ replicate 258 0\<rparr>"

lemma sample_app_ready: "app_shape sample_app" "ap_window sample_app \<noteq> 0" "session_inv (ap_session sample_app)" "0 \<in> set (ap_relay_base sample_app)"
proof -
  show i: "session_inv (ap_session sample_app)"
    using random_source.reachable_inv [OF counting_fill_source fresh_created_reachable] by (simp add: sample_app_def)
  show "app_shape sample_app" using zero_app_shape session_inv_object [OF i] by (simp add: app_shape_def sample_app_def w_lit_def)
qed (simp_all add: sample_app_def)

lemmas mem_services = mem_runtime.runtime_env_axioms [unfolded runtime_env_def, THEN conjunct1, THEN conjunct1]
  mem_runtime.runtime_env_axioms [unfolded runtime_env_def, THEN conjunct1, THEN conjunct2]
  mem_runtime.runtime_env_axioms [unfolded runtime_env_def, THEN conjunct2, THEN conjunct1]

definition open_ui :: mem_ui where
  "open_ui = empty_ui\<lparr>mu_windows := {9}\<rparr>"


end
