(* ===== verification/Spec2Isabelle.thy ===== *)
theory Spec2Isabelle
  imports PD_Transfer PD_Transport PD_Win32Window
begin

text \<open>
  \<^bold>\<open>PrintDrop receiver: a verification library.\<close>

  PrintDrop sends a file from a phone to a Windows computer: the computer shows a QR code, the phone
  opens the link in a browser and streams the file through a relay server. This library models the
  receiver, the C program under \<^verbatim>\<open>src/src\<close> and \<^verbatim>\<open>src/include/printdrop\<close>, and proves it correct against the
  documented behaviour of the services it calls.

  \<^bold>\<open>The parts and how they interact.\<close> The application prepares a session, shows its link as a QR code in a
  window and starts a worker thread that runs the session; the worker reports to the window by posted
  messages. The runtime, run by the worker, registers a session at the relay, connects the relay
  client and runs the receive loop. The loop takes frames from the client, hands them to the receiver
  protocol and acknowledges them. The protocol decodes the announcement of a file, sanitises its name and
  drives the receive handler, which draws a job identifier, places a file sink below the receive
  directory and feeds a file receiver with a hash. The file receiver writes the chunks to a staging file
  and publishes it under its final name once size and digest agree.

  \<^bold>\<open>Theories and sources.\<close>
  \<^item> \<open>PD_Prelude\<close>: machine integers, memory objects, C strings, short-circuit conditions, loops.
  \<^item> \<open>PD_Wire\<close>, \<open>PD_Frame\<close>: \<^verbatim>\<open>protocol.c\<close> and \<^verbatim>\<open>frame.c\<close>, message types, big-endian fields and the frame header.
  \<^item> \<open>PD_Hex\<close>, \<open>PD_Integrity\<close>: hexadecimal text and \<^verbatim>\<open>integrity.c\<close>.
  \<^item> \<open>PD_Filename\<close>: \<^verbatim>\<open>filename.c\<close>.
  \<^item> \<open>PD_Messages\<close>: \<^verbatim>\<open>file_begin.c\<close>, \<^verbatim>\<open>ack.c\<close>, \<^verbatim>\<open>relay_message.c\<close>, each codec exact and memory safe.
  \<^item> \<open>PD_Transfer\<close>: \<^verbatim>\<open>session.c\<close>, the progress record and its state graph.
  \<^item> \<open>PD_Session\<close>: \<^verbatim>\<open>receiver_session.c\<close>, \<^verbatim>\<open>job_id.c\<close>, \<^verbatim>\<open>session_url.c\<close>, \<^verbatim>\<open>secure_zero.c\<close>; the reachable
    states of a session and the single use of its token.
  \<^item> \<open>PD_FileReceive\<close>: \<^verbatim>\<open>file_receive.c\<close> over the locales \<open>file_sink\<close> and \<open>integrity_backend\<close>.
  \<^item> \<open>PD_ReceiverProtocol\<close>: \<^verbatim>\<open>receiver_protocol.c\<close> over the locale \<open>receive_handler\<close>.
  \<^item> \<open>PD_ReceiverLoop\<close>: \<^verbatim>\<open>receiver_loop.c\<close> over the locales \<open>loop_io\<close> and \<open>loop_env\<close>.
  \<^item> \<open>PD_RelayUrl\<close>: \<^verbatim>\<open>relay_endpoint.c\<close> and \<^verbatim>\<open>relay_registration.c\<close>.
  \<^item> \<open>PD_Transport\<close>: \<^verbatim>\<open>transport.c\<close> over the locale \<open>transport_backend\<close>.
  \<^item> \<open>PD_Win32FileSink\<close>: \<^verbatim>\<open>win32_file_sink.c\<close> over the locale \<open>win32_fs\<close>, a refinement of the abstract machine
    \<open>sink_spec\<close>; it provides \<open>file_sink\<close>.
  \<^item> \<open>PD_Win32Crypto\<close>: \<^verbatim>\<open>win32_sha256.c\<close> and \<^verbatim>\<open>win32_random.c\<close> over the locale \<open>bcrypt_service\<close>; it provides
    \<open>integrity_backend\<close> and the random source.
  \<^item> \<open>PD_Win32ReceiveHandler\<close>: \<^verbatim>\<open>win32_receive_handler.c\<close>; it provides \<open>receive_handler\<close>.
  \<^item> \<open>PD_Win32RelayClient\<close>: \<^verbatim>\<open>win32_relay_client.c\<close> over the locales \<open>curl_net\<close> and \<open>curl_finite\<close>.
  \<^item> \<open>PD_Win32Registration\<close>: \<^verbatim>\<open>win32_relay_registration.c\<close> over the locale \<open>curl_requests\<close>, which adds a log of the
    performed requests to \<open>curl_net\<close>.
  \<^item> \<open>PD_Win32Runtime\<close>: \<^verbatim>\<open>win32_receiver_runtime.c\<close>; the relay client provides \<open>loop_io\<close>, and the theorem on a
    whole session composes everything above; \<open>run_outcome\<close> says which exits leave a session open.
  \<^item> \<open>PD_Win32Events\<close>: the events a run reports, in order, for any receiver of events.
  \<^item> \<open>PD_QrCode\<close>: \<^verbatim>\<open>qr.c\<close> over the locale \<open>qr_generator\<close>, and the placement of the QR code (\<^verbatim>\<open>pd_draw_qr\<close>).
  \<^item> \<open>PD_Win32App\<close>: the application object of \<^verbatim>\<open>win32_main.c\<close> and the preparation of a session over the locale
    \<open>desktop\<close>.
  \<^item> \<open>PD_Win32Paint\<close>: the contents of the window over the locales \<open>gdi\<close> and \<open>double_rounding\<close>; the picture
    of each state is given twice, by the routines and in literals, and shown to be the same.
  \<^item> \<open>PD_Win32Window\<close>: the window procedure, the worker thread and the start of the program over the locale
    \<open>ui_system\<close>; the interleaving of the two threads is the step relation \<open>process_step\<close>.

  \<^bold>\<open>How the code is represented.\<close> A structure is a record with its fields, an enumeration a datatype, an
  integer a word of its width where overflow matters and a natural number where the code bounds it. A
  pointer compared with \<^verbatim>\<open>NULL\<close> is an option, memory is a list, and every access goes through operations
  that yield \<open>None\<close> out of bounds, so that a routine returning \<open>Some\<close> is memory safe. Third-party calls
  (Windows files, CNG, libcurl, sockets, the heap, messages, GDI) are records of functions over an explicit state of the
  world. A call on a file, hash, network, font, thread or heap handle that is not live is \<open>None\<close> there too, so \<open>Some\<close>
  also means no use after release. Each such interface has a locale with the laws the documentation
  promises, for the very flags the code passes, and an in-memory instance that interprets it.

  \<^bold>\<open>Loops and fuel.\<close> Counted loops are primitive recursions. The endless loops of the receive loop, the
  relay client and the runtime are partial functions into \<open>option\<close>, where not returning is \<open>None\<close>; no fuel
  is used. They are shown to return: the receive loop because every accepted chunk is non-empty and
  bounded by the announced size, the loops of the client because a connection carries finitely many
  events (\<open>patience\<close> in \<open>curl_finite\<close>), which the code itself does not bound.

  \<^bold>\<open>What the lemmas show.\<close> The codecs accept exactly the encodings of well-formed values and round trip. A
  sanitised name is safe as a Windows file name. Credentials are erased in every dead session and a token
  starts at most one transfer. A published file has the announced size and digest and lies in a fresh job
  directory below the root; no other file changes. The loop returns, success means an acknowledged
  conversation whose chunks are the delivered file, and a failure leaves the file under the final name alone
  but for a lost acknowledgement of its end. Registration performs at most one request, in the form
  \<open>registration_post\<close>; the relay connection has the form \<open>relay_connection\<close>; both verify the peer. A
  session run returns and gives back all network resources; a session is left open exactly
  when its registration was not accepted or could not be made. A prepared session shows a QR code of
  precisely its link, drawn inside its area.

  \<^bold>\<open>Which resources are released.\<close> Every resource is used only while it is live. All network resources are
  released on every path, and all hash resources and fonts whenever their owner is done with them.
  A staging handle is closed by commit and abort unless \<^verbatim>\<open>CloseHandle\<close> itself fails (\<open>always_closes\<close>). The
  exception is the early end of a file (\<open>win32_handler_early_end_leaks\<close>), after which the staging handle and
  the hash stay open. The handle of the worker is closed when its end is handled, or when the window is
  destroyed if the message of the end was refused. The block of a report is freed when its message is
  handled or refused; the blocks of the messages that still wait when the window is destroyed
  stay until the process ends (\<open>closing_keeps_blocks\<close>).

  \<^bold>\<open>Window and worker.\<close> However handlers and reports interleave, at most one worker exists and the window
  thread never changes what a running worker uses. The worker posts its reports in order and its result
  last; the queue misses one only where the system refused a block or a message, which the view counts.

  \<^bold>\<open>Not modelled.\<close> The message box of a failed start and the DPI setting, which change no state of the
  program, and two routines that return version strings of libcurl. The interleaving is that of single
  messages and reports, each one step: accesses of both threads to one field in the midst of such steps are not
  interleaved. The coordinates of the window are unbounded integers, as no client rectangle comes near
  the bounds of \<^verbatim>\<open>int\<close>. The relay (Go) and the sender (JavaScript) are other programs;
  the QR generator, libcurl and Windows are third-party code and parameters here. Timing is not
  modelled: a wait either succeeds or times out, and a timer message may come at any moment.
\<close>

end
